theory Spec2Isabelle
  imports Complex_Main "HOL-Library.Multiset" "HOL-Library.Log_Nat"
begin

section \<open>Numbers and vectors\<close>

text \<open>
  A JavaScript number is an IEEE double: a finite value, one of the two infinities, or
  \<^verbatim>\<open>NaN\<close>. The type \<open>num\<close> has these four kinds of value; every comparison with
  \<^verbatim>\<open>NaN\<close> is false. Zero carries no sign here: the sign of a zero shows only in a
  division by it, and \<open>1 / 0\<close> is \<open>+Infinity\<close>, as it is for the positive zero.

  The model treats the rounding of the arithmetic in three ways, and says which at each
  function.
  \<^item> The ray tests \<^verbatim>\<open>rayTriangleIntersect\<close>, \<^verbatim>\<open>envIntersect\<close> and \<^verbatim>\<open>envAnyHit\<close>, and the
    shading of raytrace.js, take the arithmetic of the machine as a parameter \<open>fp\<close>,
    four operations on \<open>num\<close> of which nothing is assumed. What is proved of them
    holds for every rounding, for overflow to infinity and for \<^verbatim>\<open>NaN\<close>.
  \<^item> The store into a \<^verbatim>\<open>Float32Array\<close> rounds to single precision: \<open>fround\<close>.
  \<^item> Elsewhere a coordinate is a finite number and the arithmetic on it is exact:
    the type \<open>real\<close>. A three-element array \<^verbatim>\<open>[x, y, z]\<close> of such numbers is a triple.
\<close>

type_synonym vec3 = "real \<times> real \<times> real"

datatype num = NaN | NegInf | Fin real | PosInf

type_synonym num3 = "num \<times> num \<times> num"

definition fin3 :: "vec3 \<Rightarrow> num3" where
  "fin3 v = (case v of (x, y, z) \<Rightarrow> (Fin x, Fin y, Fin z))"

subsection \<open>Comparisons and exact operations\<close>

fun js_lt :: "num \<Rightarrow> num \<Rightarrow> bool" where
  "js_lt (Fin x) (Fin y) = (x < y)"
| "js_lt NegInf (Fin y) = True"
| "js_lt NegInf PosInf = True"
| "js_lt (Fin x) PosInf = True"
| "js_lt _ _ = False"

definition js_gt :: "num \<Rightarrow> num \<Rightarrow> bool" where
  "js_gt a b = js_lt b a"

definition js_le :: "num \<Rightarrow> num \<Rightarrow> bool" where
  "js_le a b \<longleftrightarrow> js_lt a b \<or> (a = b \<and> a \<noteq> NaN)"

definition js_ge :: "num \<Rightarrow> num \<Rightarrow> bool" where
  "js_ge a b = js_le b a"

text \<open>\<^verbatim>\<open>Math.abs\<close>, \<^verbatim>\<open>Math.floor\<close> and the unary minus are exact.\<close>

fun js_abs :: "num \<Rightarrow> num" where
  "js_abs NaN = NaN"
| "js_abs NegInf = PosInf"
| "js_abs (Fin x) = Fin \<bar>x\<bar>"
| "js_abs PosInf = PosInf"

fun js_floor :: "num \<Rightarrow> num" where
  "js_floor (Fin x) = Fin (of_int \<lfloor>x\<rfloor>)"
| "js_floor a = a"

fun js_neg :: "num \<Rightarrow> num" where
  "js_neg NaN = NaN"
| "js_neg NegInf = PosInf"
| "js_neg (Fin x) = Fin (- x)"
| "js_neg PosInf = NegInf"

text \<open>
  Subtraction, multiplication and the reciprocal on \<open>num\<close> without rounding of a finite
  result; the ray-box test and the bounding boxes are written with them.
\<close>

fun js_sub :: "num \<Rightarrow> num \<Rightarrow> num" where
  "js_sub (Fin x) (Fin y) = Fin (x - y)"
| "js_sub NaN _ = NaN"
| "js_sub _ NaN = NaN"
| "js_sub PosInf PosInf = NaN"
| "js_sub NegInf NegInf = NaN"
| "js_sub PosInf _ = PosInf"
| "js_sub NegInf _ = NegInf"
| "js_sub (Fin x) PosInf = NegInf"
| "js_sub (Fin x) NegInf = PosInf"

fun js_mul :: "num \<Rightarrow> num \<Rightarrow> num" where
  "js_mul (Fin x) (Fin y) = Fin (x * y)"
| "js_mul NaN _ = NaN"
| "js_mul _ NaN = NaN"
| "js_mul PosInf (Fin y) = (if y = 0 then NaN else if 0 < y then PosInf else NegInf)"
| "js_mul NegInf (Fin y) = (if y = 0 then NaN else if 0 < y then NegInf else PosInf)"
| "js_mul (Fin x) b = (if x = 0 then NaN else if 0 < x then b else js_neg b)"
| "js_mul PosInf b = b"
| "js_mul NegInf b = js_neg b"

text \<open>\<^verbatim>\<open>1.0 / d\<close> for a finite \<open>d\<close>.\<close>

definition js_recip :: "real \<Rightarrow> num" where
  "js_recip d = (if d = 0 then PosInf else Fin (1 / d))"

subsection \<open>The arithmetic of the machine\<close>

text \<open>
  The four operations of double arithmetic, as a parameter. The machine's operations
  round a finite result to the nearest double, give an infinity on overflow and
  \<^verbatim>\<open>NaN\<close> for \<open>Infinity - Infinity\<close>, \<open>0 * Infinity\<close> and the like; none of this is
  assumed of \<open>fp\<close>.
\<close>

record arith =
  fp_add :: "num \<Rightarrow> num \<Rightarrow> num"
  fp_sub :: "num \<Rightarrow> num \<Rightarrow> num"
  fp_mul :: "num \<Rightarrow> num \<Rightarrow> num"
  fp_div :: "num \<Rightarrow> num \<Rightarrow> num"

text \<open>
  One arithmetic for the examples: a finite result is not rounded, and is an infinity
  from \<open>2\<^sup>1\<^sup>0\<^sup>2\<^sup>4\<close> on in absolute value. It agrees with the machine's wherever the
  exact result of an operation is a double or overflows, as in the examples below, whose
  numbers are small integers, their quotients by powers of two, and powers of two.
\<close>

definition overflow :: "real \<Rightarrow> num" where
  "overflow x = (if 2 ^ 1024 \<le> x then PosInf else if x \<le> - (2 ^ 1024) then NegInf else Fin x)"

fun ex_add :: "num \<Rightarrow> num \<Rightarrow> num" where
  "ex_add (Fin x) (Fin y) = overflow (x + y)"
| "ex_add NaN _ = NaN"
| "ex_add _ NaN = NaN"
| "ex_add PosInf NegInf = NaN"
| "ex_add NegInf PosInf = NaN"
| "ex_add PosInf _ = PosInf"
| "ex_add NegInf _ = NegInf"
| "ex_add (Fin x) b = b"

definition ex_sub :: "num \<Rightarrow> num \<Rightarrow> num" where
  "ex_sub a b = ex_add a (js_neg b)"

fun ex_mul :: "num \<Rightarrow> num \<Rightarrow> num" where
  "ex_mul (Fin x) (Fin y) = overflow (x * y)"
| "ex_mul a b = js_mul a b"

fun ex_div :: "num \<Rightarrow> num \<Rightarrow> num" where
  "ex_div (Fin x) (Fin y) =
     (if y = 0 then (if x = 0 then NaN else if 0 < x then PosInf else NegInf)
      else overflow (x / y))"
| "ex_div NaN _ = NaN"
| "ex_div _ NaN = NaN"
| "ex_div (Fin x) _ = Fin 0"
| "ex_div PosInf (Fin y) = (if 0 \<le> y then PosInf else NegInf)"
| "ex_div NegInf (Fin y) = (if 0 \<le> y then NegInf else PosInf)"
| "ex_div _ _ = NaN"

definition unrounded :: arith where
  "unrounded = \<lparr>fp_add = ex_add, fp_sub = ex_sub, fp_mul = ex_mul, fp_div = ex_div\<rparr>"

text \<open>
  The constant \<^verbatim>\<open>RT_EPSILON = 1e-6\<close> of raytrace-common.js is the double nearest to
  \<open>10\<^sup>-\<^sup>6\<close>, which is a little below it.
\<close>

definition RT_EPSILON :: real where
  "RT_EPSILON = 4722366482869645 / 2 ^ 72"

section \<open>Ray-triangle intersection (bvh.js)\<close>

record hit =
  hit_t :: num
  hit_u :: num
  hit_v :: num

text \<open>
  \<^verbatim>\<open>rayTriangleIntersect(ox, oy, oz, dx, dy, dz, v0, v1, v2)\<close>, in the arithmetic \<open>fp\<close>:
  the value \<^verbatim>\<open>null\<close> is \<open>None\<close>, the object \<^verbatim>\<open>{t, u, v}\<close> is \<open>Some\<close> of a record. A sum
  of three products is evaluated from the left. Each of the four tests is a comparison,
  which a \<^verbatim>\<open>NaN\<close> fails.
\<close>

definition rayTriangleIntersect ::
  "arith \<Rightarrow> num \<Rightarrow> num \<Rightarrow> num \<Rightarrow> num \<Rightarrow> num \<Rightarrow> num \<Rightarrow> num3 \<Rightarrow> num3 \<Rightarrow> num3 \<Rightarrow> hit option" where
  "rayTriangleIntersect fp ox oy oz dx dy dz v0 v1 v2 =
    (case v0 of (v0x, v0y, v0z) \<Rightarrow> case v1 of (v1x, v1y, v1z) \<Rightarrow> case v2 of (v2x, v2y, v2z) \<Rightarrow>
     let fadd = fp_add fp; fsub = fp_sub fp; fmul = fp_mul fp; fdiv = fp_div fp;
         e1x = fsub v1x v0x; e1y = fsub v1y v0y; e1z = fsub v1z v0z;
         e2x = fsub v2x v0x; e2y = fsub v2y v0y; e2z = fsub v2z v0z;
         px = fsub (fmul dy e2z) (fmul dz e2y);
         py = fsub (fmul dz e2x) (fmul dx e2z);
         pz = fsub (fmul dx e2y) (fmul dy e2x);
         det = fadd (fadd (fmul e1x px) (fmul e1y py)) (fmul e1z pz)
     in if js_lt (js_abs det) (Fin RT_EPSILON) then None
        else
          let invDet = fdiv (Fin 1) det;
              tx = fsub ox v0x; ty = fsub oy v0y; tz = fsub oz v0z;
              u = fmul (fadd (fadd (fmul tx px) (fmul ty py)) (fmul tz pz)) invDet
          in if js_lt u (Fin 0) \<or> js_gt u (Fin 1) then None
             else
               let qx = fsub (fmul ty e1z) (fmul tz e1y);
                   qy = fsub (fmul tz e1x) (fmul tx e1z);
                   qz = fsub (fmul tx e1y) (fmul ty e1x);
                   v = fmul (fadd (fadd (fmul dx qx) (fmul dy qy)) (fmul dz qz)) invDet
               in if js_lt v (Fin 0) \<or> js_gt (fadd u v) (Fin 1) then None
                  else
                    let t = fmul (fadd (fadd (fmul e2x qx) (fmul e2y qy)) (fmul e2z qz)) invDet
                    in if js_lt t (Fin RT_EPSILON) then None
                       else Some \<lparr>hit_t = t, hit_u = u, hit_v = v\<rparr>)"









section \<open>Environment: the analytic floor (floor.js, environment.js)\<close>

unbundle bit_operations_syntax




text \<open>
  The operand of a bitwise operator is converted to a signed 32-bit integer first
  (\<^verbatim>\<open>ToInt32\<close>); the same conversion happens on a store into an \<^verbatim>\<open>Int32Array\<close>.
  \<^verbatim>\<open>ToInt32\<close> of a number drops its fraction and is 0 for \<^verbatim>\<open>NaN\<close> and the infinities.
\<close>

definition toInt32 :: "int \<Rightarrow> int" where
  "toInt32 k = (k + 2 ^ 31) mod 2 ^ 32 - 2 ^ 31"

fun num_toInt32 :: "num \<Rightarrow> int" where
  "num_toInt32 (Fin x) = toInt32 (if 0 \<le> x then \<lfloor>x\<rfloor> else \<lceil>x\<rceil>)"
| "num_toInt32 a = 0"






definition off_floor :: "num \<Rightarrow> num \<Rightarrow> bool" where
  "off_floor hx hz \<longleftrightarrow>
     js_lt hx (Fin (- 480)) \<or> js_gt hx (Fin 480) \<or> js_lt hz (Fin (- 380)) \<or> js_gt hz (Fin 580)"

definition checker_color :: "arith \<Rightarrow> num \<Rightarrow> num \<Rightarrow> vec3" where
  "checker_color fp hx hz =
     (if num_toInt32 (fp_add fp (js_floor (fp_div fp (fp_sub fp hx (Fin 0)) (Fin 80)))
                                (js_floor (fp_div fp (fp_sub fp hz (Fin 100)) (Fin 80)))) AND 1 \<noteq> 0
      then (200, 200, 200) else (180, 30, 30))"

section \<open>Metaball field and mesh smoothing (metaball part of shader-source.js)\<close>

record ball =
  ball_x :: real
  ball_y :: real
  ball_z :: real
  ball_radius :: real

type_synonym tri = "nat \<times> nat \<times> nat"

text \<open>
  A store into a \<^verbatim>\<open>Float32Array\<close> rounds the number to the nearest single-precision
  value, ties to the even one: \<open>fround\<close>. A single has 24 significant bits, so between
  \<open>2\<^sup>e\<close> and \<open>2\<^sup>e\<^sup>+\<^sup>1\<close> the singles are the multiples of \<open>2\<^sup>e\<^sup>-\<^sup>2\<^sup>3\<close>; below \<open>2\<^sup>-\<^sup>1\<^sup>2\<^sup>6\<close>
  they are the multiples of \<open>2\<^sup>-\<^sup>1\<^sup>4\<^sup>9\<close>, and a result of \<open>2\<^sup>1\<^sup>2\<^sup>8\<close> or more in absolute
  value is an infinity.
\<close>

definition round_even :: "real \<Rightarrow> int" where
  "round_even x =
     (let f = \<lfloor>x\<rfloor>; d = x - of_int f
      in if d < 1 / 2 then f else if 1 / 2 < d then f + 1 else if even f then f else f + 1)"

definition fround :: "real \<Rightarrow> num" where
  "fround x =
     (if x = 0 then Fin 0
      else
        let e = max \<lfloor>log 2 \<bar>x\<bar>\<rfloor> (- 126);
            ulp = 2 powr (of_int e - 23);
            y = of_int (round_even (x / ulp)) * ulp
        in if 2 ^ 128 \<le> \<bar>y\<bar> then (if 0 < x then PosInf else NegInf) else Fin y)"

text \<open>
  \<^verbatim>\<open>evaluateField(balls, gridMin, cellSize, res)\<close>. The \<^verbatim>\<open>Float32Array\<close> of
  \<open>n * n * n\<close> samples is a list of that length, filled with zeros at allocation; each
  \<^verbatim>\<open>for\<close> loop is a \<open>fold\<close> over its index range, the store
  \<^verbatim>\<open>field[(iz * n + iy) * n + ix] = val\<close> a list update with the rounded sample. The
  sample itself is computed in exact arithmetic, here and in \<^verbatim>\<open>evalFieldAndGradient\<close>,
  by the same operations in the same order.
\<close>

definition evaluateField :: "ball list \<Rightarrow> vec3 \<Rightarrow> real \<Rightarrow> nat \<Rightarrow> num list" where
  "evaluateField balls gridMin cellSize res =
    (case gridMin of (gridMin0, gridMin1, gridMin2) \<Rightarrow>
     let n = res + 1;
         field = replicate (n * n * n) (Fin 0)
     in fold (\<lambda>iz field.
          let pz = gridMin2 + real iz * cellSize in
          fold (\<lambda>iy field.
            let py = gridMin1 + real iy * cellSize in
            fold (\<lambda>ix field.
              let px = gridMin0 + real ix * cellSize;
                  val = fold (\<lambda>b val.
                          let dx = px - ball_x b;
                              dy = py - ball_y b;
                              dz = pz - ball_z b;
                              dist2 = dx * dx + dy * dy + dz * dz;
                              r = ball_radius b
                          in val + (r * r) / (dist2 + 1 / 10000)) balls 0
              in field[(iz * n + iy) * n + ix := fround val])
              [0..<n] field)
            [0..<n] field)
          [0..<n] field)"

record field_grad =
  fg_val :: real
  fg_gx :: real
  fg_gy :: real
  fg_gz :: real

definition evalFieldAndGradient :: "real \<Rightarrow> real \<Rightarrow> real \<Rightarrow> ball list \<Rightarrow> field_grad" where
  "evalFieldAndGradient px py pz balls =
     fold (\<lambda>b acc.
        let dx = px - ball_x b;
            dy = py - ball_y b;
            dz = pz - ball_z b;
            dist2 = dx * dx + dy * dy + dz * dz + 1 / 10000;
            r2 = ball_radius b * ball_radius b;
            factor = - 2 * r2 / (dist2 * dist2)
        in \<lparr>fg_val = fg_val acc + r2 / dist2,
            fg_gx = fg_gx acc + factor * dx,
            fg_gy = fg_gy acc + factor * dy,
            fg_gz = fg_gz acc + factor * dz\<rparr>)
      balls \<lparr>fg_val = 0, fg_gx = 0, fg_gy = 0, fg_gz = 0\<rparr>"


text \<open>
  The failures of the model: the two JavaScript errors the code can throw, and
  \<open>NotANumber\<close> where a value of the code is \<^verbatim>\<open>NaN\<close> or infinite at a place the model
  keeps a real number.
\<close>

datatype error = TypeError | RangeError | NotANumber

text \<open>
  \<^verbatim>\<open>smoothMesh(vertices, triangles, balls, threshold, iterations)\<close> mutates the array
  \<^verbatim>\<open>vertices\<close> in place and returns nothing; the model returns the two arrays of the
  mesh as they are after the call. A \<^verbatim>\<open>Set\<close> is a list without duplicates in insertion
  order (the order in which \<^verbatim>\<open>for ... of\<close> visits it). Reading a property of
  \<^verbatim>\<open>undefined\<close> (an index beyond an array) throws a \<^verbatim>\<open>TypeError\<close>.
\<close>

definition set_add :: "nat \<Rightarrow> nat list \<Rightarrow> nat list" where
  "set_add x s = (if x \<in> set s then s else s @ [x])"

definition add_neighbor :: "nat \<Rightarrow> nat \<Rightarrow> nat list list \<Rightarrow> error + nat list list" where
  "add_neighbor i j neighborSets =
     (if i < length neighborSets then Inr (neighborSets[i := set_add j (neighborSets ! i)])
      else Inl TypeError)"

definition add_triangle :: "tri \<Rightarrow> nat list list \<Rightarrow> error + nat list list" where
  "add_triangle tr neighborSets =
     (case tr of (t0, t1, t2) \<Rightarrow>
      case add_neighbor t0 t1 neighborSets of Inl e \<Rightarrow> Inl e | Inr ns1 \<Rightarrow>
      case add_neighbor t0 t2 ns1 of Inl e \<Rightarrow> Inl e | Inr ns2 \<Rightarrow>
      case add_neighbor t1 t0 ns2 of Inl e \<Rightarrow> Inl e | Inr ns3 \<Rightarrow>
      case add_neighbor t1 t2 ns3 of Inl e \<Rightarrow> Inl e | Inr ns4 \<Rightarrow>
      case add_neighbor t2 t0 ns4 of Inl e \<Rightarrow> Inl e | Inr ns5 \<Rightarrow>
      add_neighbor t2 t1 ns5)"

fun build_neighborSets :: "tri list \<Rightarrow> nat list list \<Rightarrow> error + nat list list" where
  "build_neighborSets [] neighborSets = Inr neighborSets"
| "build_neighborSets (tr # trs) neighborSets =
     (case add_triangle tr neighborSets of Inl e \<Rightarrow> Inl e
      | Inr ns \<Rightarrow> build_neighborSets trs ns)"

text \<open>The sum of the positions of the neighbours, read from the array as it is now.\<close>

fun neighbor_sum :: "vec3 list \<Rightarrow> nat list \<Rightarrow> vec3 \<Rightarrow> error + vec3" where
  "neighbor_sum vertices [] acc = Inr acc"
| "neighbor_sum vertices (ni # nis) acc =
     (case acc of (ax, ay, az) \<Rightarrow>
      if ni < length vertices then
        (case vertices ! ni of (x, y, z) \<Rightarrow> neighbor_sum vertices nis (ax + x, ay + y, az + z))
      else Inl TypeError)"

definition relax_vertex :: "nat list list \<Rightarrow> nat \<Rightarrow> vec3 list \<Rightarrow> error + vec3 list" where
  "relax_vertex neighborSets i vertices =
     (let neighbors = neighborSets ! i in
      if length neighbors = 0 then Inr vertices
      else case neighbor_sum vertices neighbors (0, 0, 0) of Inl e \<Rightarrow> Inl e
        | Inr (ax, ay, az) \<Rightarrow>
            let n = real (length neighbors) in
            case vertices ! i of (x, y, z) \<Rightarrow>
              Inr (vertices[i := (x * (1 / 2) + (ax / n) * (1 / 2),
                                  y * (1 / 2) + (ay / n) * (1 / 2),
                                  z * (1 / 2) + (az / n) * (1 / 2))]))"

fun relax_loop :: "nat list list \<Rightarrow> nat list \<Rightarrow> vec3 list \<Rightarrow> error + vec3 list" where
  "relax_loop neighborSets [] vertices = Inr vertices"
| "relax_loop neighborSets (i # is) vertices =
     (case relax_vertex neighborSets i vertices of Inl e \<Rightarrow> Inl e
      | Inr vs \<Rightarrow> relax_loop neighborSets is vs)"

definition project_vertex :: "ball list \<Rightarrow> real \<Rightarrow> nat \<Rightarrow> vec3 list \<Rightarrow> vec3 list" where
  "project_vertex balls threshold i vertices =
     (case vertices ! i of (p0, p1, p2) \<Rightarrow>
      let fg = evalFieldAndGradient p0 p1 p2 balls;
          gmag2 = fg_gx fg * fg_gx fg + fg_gy fg * fg_gy fg + fg_gz fg * fg_gz fg
      in if gmag2 < 1 / 10000000000 then vertices
         else
           let step = (fg_val fg - threshold) / gmag2 in
           vertices[i := (p0 - fg_gx fg * step, p1 - fg_gy fg * step, p2 - fg_gz fg * step)])"

fun smooth_iterations ::
  "nat list list \<Rightarrow> ball list \<Rightarrow> real \<Rightarrow> nat \<Rightarrow> vec3 list \<Rightarrow> error + vec3 list" where
  "smooth_iterations neighborSets balls threshold 0 vertices = Inr vertices"
| "smooth_iterations neighborSets balls threshold (Suc k) vertices =
     (case relax_loop neighborSets [0..<length vertices] vertices of Inl e \<Rightarrow> Inl e
      | Inr vs \<Rightarrow>
          smooth_iterations neighborSets balls threshold k
            (fold (project_vertex balls threshold) [0..<length vs] vs))"

definition smoothMesh ::
  "vec3 list \<Rightarrow> tri list \<Rightarrow> ball list \<Rightarrow> real \<Rightarrow> nat \<Rightarrow> error + (vec3 list \<times> tri list)" where
  "smoothMesh vertices triangles balls threshold iterations =
     (case build_neighborSets triangles (replicate (length vertices) []) of Inl e \<Rightarrow> Inl e
      | Inr neighborSets \<Rightarrow>
          (case smooth_iterations neighborSets balls threshold iterations vertices of
             Inl e \<Rightarrow> Inl e
           | Inr vs \<Rightarrow> Inr (vs, triangles)))"

text \<open>The loop nest of \<^verbatim>\<open>evaluateField\<close>, one row and one plane of the grid at a time.\<close>

abbreviation (input) row_loop :: "nat \<Rightarrow> nat \<Rightarrow> (nat \<Rightarrow> nat \<Rightarrow> 'a) \<Rightarrow> nat \<Rightarrow> 'a list \<Rightarrow> 'a list" where
  "row_loop c n g iy fld \<equiv> fold (\<lambda>ix fld. fld[(c + iy) * n + ix := g iy ix]) [0..<n] fld"



text \<open>The mesh invariant of the data model: every triangle index is below the vertex count.\<close>

definition tris_in_range :: "nat \<Rightarrow> tri list \<Rightarrow> bool" where
  "tris_in_range N ts \<longleftrightarrow> (\<forall>(a, b, c) \<in> set ts. a < N \<and> b < N \<and> c < N)"

definition nsets_ok :: "nat \<Rightarrow> nat list list \<Rightarrow> bool" where
  "nsets_ok N ns \<longleftrightarrow> length ns = N \<and> (\<forall>s \<in> set ns. \<forall>j \<in> set s. j < N)"

section \<open>Bounding volume hierarchy (bvh.js)\<close>

text \<open>Ray-box intersection by slabs.\<close>

definition rayAABBIntersect ::
  "real \<Rightarrow> real \<Rightarrow> real \<Rightarrow> real \<Rightarrow> real \<Rightarrow> real \<Rightarrow> num3 \<Rightarrow> num3 \<Rightarrow> bool" where
  "rayAABBIntersect ox oy oz dx dy dz bmin bmax =
    (case bmin of (bmin0, bmin1, bmin2) \<Rightarrow> case bmax of (bmax0, bmax1, bmax2) \<Rightarrow>
     let invDx = js_recip dx; invDy = js_recip dy; invDz = js_recip dz;
         tmin = js_mul (js_sub bmin0 (Fin ox)) invDx;
         tmax = js_mul (js_sub bmax0 (Fin ox)) invDx;
         (tmin, tmax) = (if js_gt tmin tmax then (tmax, tmin) else (tmin, tmax));
         tymin = js_mul (js_sub bmin1 (Fin oy)) invDy;
         tymax = js_mul (js_sub bmax1 (Fin oy)) invDy;
         (tymin, tymax) = (if js_gt tymin tymax then (tymax, tymin) else (tymin, tymax))
     in if js_gt tmin tymax \<or> js_gt tymin tmax then False
        else
          let tmin = (if js_gt tymin tmin then tymin else tmin);
              tmax = (if js_lt tymax tmax then tymax else tmax);
              tzmin = js_mul (js_sub bmin2 (Fin oz)) invDz;
              tzmax = js_mul (js_sub bmax2 (Fin oz)) invDz;
              (tzmin, tzmax) = (if js_gt tzmin tzmax then (tzmax, tzmin) else (tzmin, tzmax))
          in js_le tmin tzmax \<and> js_le tzmin tmax)"

subsection \<open>Construction\<close>

record triInfo =
  ti_idx :: nat
  ti_cx :: real
  ti_cy :: real
  ti_cz :: real

record node =
  node_bmin :: num3
  node_bmax :: num3
  node_left :: int
  node_right :: int
  node_triIdx :: int

text \<open>
  One pass of the body of the loop in \<^verbatim>\<open>computeTriangleAABB\<close> for one vertex: six
  conditional assignments.
\<close>

definition grow :: "vec3 \<Rightarrow> num3 \<times> num3 \<Rightarrow> num3 \<times> num3" where
  "grow v b =
    (case v of (x, y, z) \<Rightarrow> case b of ((bminx, bminy, bminz), (bmaxx, bmaxy, bmaxz)) \<Rightarrow>
      ((if js_lt (Fin x) bminx then Fin x else bminx,
        if js_lt (Fin y) bminy then Fin y else bminy,
        if js_lt (Fin z) bminz then Fin z else bminz),
       (if js_gt (Fin x) bmaxx then Fin x else bmaxx,
        if js_gt (Fin y) bmaxy then Fin y else bmaxy,
        if js_gt (Fin z) bmaxz then Fin z else bmaxz)))"

text \<open>
  The three corners of triangle number \<open>k\<close>. \<^verbatim>\<open>triangles[k]\<close> or \<^verbatim>\<open>worldVerts[j]\<close>
  beyond the array is \<^verbatim>\<open>undefined\<close>, and reading an element of \<^verbatim>\<open>undefined\<close> throws a
  \<^verbatim>\<open>TypeError\<close>; every caller below reads an element of each of the three corners.
\<close>

definition tri_corners :: "vec3 list \<Rightarrow> tri list \<Rightarrow> nat \<Rightarrow> error + (vec3 \<times> vec3 \<times> vec3)" where
  "tri_corners worldVerts triangles k =
     (if k < length triangles then
        (case triangles ! k of (t0, t1, t2) \<Rightarrow>
           if t0 < length worldVerts \<and> t1 < length worldVerts \<and> t2 < length worldVerts
           then Inr (worldVerts ! t0, worldVerts ! t1, worldVerts ! t2)
           else Inl TypeError)
      else Inl TypeError)"

fun aabb_loop ::
  "vec3 list \<Rightarrow> tri list \<Rightarrow> triInfo list \<Rightarrow> nat list \<Rightarrow> num3 \<times> num3 \<Rightarrow> error + (num3 \<times> num3)" where
  "aabb_loop worldVerts triangles triInfos [] b = Inr b"
| "aabb_loop worldVerts triangles triInfos (i # is) b =
     (if i < length triInfos then
        (case tri_corners worldVerts triangles (ti_idx (triInfos ! i)) of
           Inl e \<Rightarrow> Inl e
         | Inr (v0, v1, v2) \<Rightarrow>
             aabb_loop worldVerts triangles triInfos is (grow v2 (grow v1 (grow v0 b))))
      else Inl TypeError)"

definition computeTriangleAABB ::
  "vec3 list \<Rightarrow> tri list \<Rightarrow> triInfo list \<Rightarrow> nat \<Rightarrow> nat \<Rightarrow> error + (num3 \<times> num3)" where
  "computeTriangleAABB worldVerts triangles triInfos start end =
     aabb_loop worldVerts triangles triInfos [start..<end]
       ((PosInf, PosInf, PosInf), (NegInf, NegInf, NegInf))"

text \<open>\<^verbatim>\<open>triInfos.slice(start, end)\<close> and the loop that writes the sorted copy back.\<close>

definition slice :: "'a list \<Rightarrow> nat \<Rightarrow> nat \<Rightarrow> 'a list" where
  "slice xs start end = take (end - start) (drop start xs)"

definition write_back :: "'a list \<Rightarrow> nat \<Rightarrow> 'a list \<Rightarrow> 'a list" where
  "write_back triInfos start sub =
     fold (\<lambda>i triInfos. triInfos[start + i := sub ! i]) [0..<length sub] triInfos"

text \<open>
  \<^verbatim>\<open>buildNode(start, end)\<close>, a closure over \<^verbatim>\<open>triInfos\<close> and \<^verbatim>\<open>nodes\<close>, which it
  mutates: both are passed in and returned. \<^verbatim>\<open>nodes.push(null)\<close> reserves the slot of
  the node, which is filled after the children are built; a reserved slot is \<open>None\<close>.
  \<^verbatim>\<open>Array.prototype.sort\<close> is stable, as \<open>sort_key\<close> is. The shift in
  \<^verbatim>\<open>(end - start) >> 1\<close> works on the signed 32-bit value of its operand.

  A range with \<open>end \<le> start\<close>, or a split point outside the range (which the shift
  produces for \<open>2\<^sup>3\<^sup>1\<close> or more entries), sends the JavaScript into a recursion that
  does not shrink the range; the model ends these calls with \<^verbatim>\<open>RangeError\<close>, the
  error of an exhausted call stack. \<^verbatim>\<open>buildBVH\<close> asks for neither when it has fewer
  than \<open>2\<^sup>3\<^sup>1\<close> triangles.
\<close>

type_synonym bstate = "triInfo list \<times> node option list"

function buildNode ::
  "vec3 list \<Rightarrow> tri list \<Rightarrow> nat \<Rightarrow> nat \<Rightarrow> bstate \<Rightarrow> error + (nat \<times> bstate)" where
  "buildNode worldVerts triangles start end (triInfos, nodes) =
    (let nodeIdx = length nodes;
         nodes = nodes @ [None]
     in case computeTriangleAABB worldVerts triangles triInfos start end of
          Inl e \<Rightarrow> Inl e
        | Inr (bmin, bmax) \<Rightarrow>
            if int end - int start = 1 then
              (if start < length triInfos then
                 Inr (nodeIdx, (triInfos,
                   nodes[nodeIdx := Some \<lparr>node_bmin = bmin, node_bmax = bmax, node_left = - 1, node_right = - 1,
                                          node_triIdx = int (ti_idx (triInfos ! start))\<rparr>]))
               else Inl TypeError)
            else
              (case bmin of (bmin0, bmin1, bmin2) \<Rightarrow> case bmax of (bmax0, bmax1, bmax2) \<Rightarrow>
               let dx = js_sub bmax0 bmin0; dy = js_sub bmax1 bmin1; dz = js_sub bmax2 bmin2;
                   key = (if js_ge dx dy \<and> js_ge dx dz then ti_cx
                          else if js_ge dy dz then ti_cy else ti_cz);
                   sub = sort_key key (slice triInfos start end);
                   triInfos = write_back triInfos start sub;
                   mid = int start + toInt32 (int end - int start) div 2
               in if end \<le> start \<or> mid \<le> int start \<or> int end \<le> mid then Inl RangeError
                  else
                    (case buildNode worldVerts triangles start (nat mid) (triInfos, nodes) of
                       Inl e \<Rightarrow> Inl e
                     | Inr (left, st1) \<Rightarrow>
                         (case buildNode worldVerts triangles (nat mid) end st1 of
                            Inl e \<Rightarrow> Inl e
                          | Inr (right, (triInfos2, nodes2)) \<Rightarrow>
                              Inr (nodeIdx, (triInfos2,
                                nodes2[nodeIdx := Some \<lparr>node_bmin = bmin, node_bmax = bmax,
                                   node_left = int left, node_right = int right,
                                   node_triIdx = - 1\<rparr>]))))))"
  by pat_completeness auto
termination
  by (relation "measure (\<lambda>(worldVerts, triangles, start, end, st). end - start)") auto

text \<open>The first loop of \<^verbatim>\<open>buildBVH\<close>: one centroid record per triangle.\<close>

fun triInfo_loop :: "vec3 list \<Rightarrow> tri list \<Rightarrow> nat list \<Rightarrow> triInfo list \<Rightarrow> error + triInfo list" where
  "triInfo_loop worldVerts triangles [] triInfos = Inr triInfos"
| "triInfo_loop worldVerts triangles (i # is) triInfos =
     (case tri_corners worldVerts triangles i of
        Inl e \<Rightarrow> Inl e
      | Inr ((v0x, v0y, v0z), (v1x, v1y, v1z), (v2x, v2y, v2z)) \<Rightarrow>
          triInfo_loop worldVerts triangles is
            (triInfos[i := \<lparr>ti_idx = i,
                            ti_cx = (v0x + v1x + v2x) / 3,
                            ti_cy = (v0y + v1y + v2y) / 3,
                            ti_cz = (v0z + v1z + v2z) / 3\<rparr>]))"

definition buildBVH :: "vec3 list \<Rightarrow> tri list \<Rightarrow> error + node option list" where
  "buildBVH worldVerts triangles =
    (let triCount = length triangles in
     case triInfo_loop worldVerts triangles [0..<triCount]
            (replicate triCount \<lparr>ti_idx = 0, ti_cx = 0, ti_cy = 0, ti_cz = 0\<rparr>) of
       Inl e \<Rightarrow> Inl e
     | Inr triInfos \<Rightarrow>
         if triCount > 0 then
           (case buildNode worldVerts triangles 0 triCount (triInfos, []) of
              Inl e \<Rightarrow> Inl e
            | Inr (rootIdx, (triInfos', nodes)) \<Rightarrow> Inr nodes)
         else Inr [])"

subsection \<open>Traversal\<close>

text \<open>
  \<^verbatim>\<open>_bvhStack\<close> is a global \<^verbatim>\<open>Int32Array(64)\<close>: a list of 64 integers that every
  traversal receives as it was left and hands back. A store converts its operand to a
  signed 32-bit integer; a store beyond the last slot is dropped, and a read there gives
  \<^verbatim>\<open>undefined\<close>. \<^verbatim>\<open>nodes[i]\<close> is \<^verbatim>\<open>undefined\<close> beyond the array (and for
  \<open>i = undefined\<close>) and \<^verbatim>\<open>null\<close> at a reserved slot; reading \<^verbatim>\<open>.bmin\<close> of either
  throws a \<^verbatim>\<open>TypeError\<close>.
\<close>

definition node_at :: "node option list \<Rightarrow> int \<Rightarrow> node option" where
  "node_at nodes i = (if 0 \<le> i \<and> i < int (length nodes) then nodes ! nat i else None)"

definition push :: "int \<Rightarrow> int list \<times> nat \<Rightarrow> int list \<times> nat" where
  "push v s = (case s of (stack, stackPtr) \<Rightarrow>
     ((if stackPtr < length stack then stack[stackPtr := toInt32 v] else stack), stackPtr + 1))"

text \<open>
  The callback \<^verbatim>\<open>onLeaf\<close> is a closure that updates variables of its caller; the
  model passes these variables in and gets them back with the flag the callback returns.
  The state of the walk is the stack, the stack pointer and the variables of the callback.
\<close>

type_synonym 'a onLeaf = "int \<Rightarrow> 'a \<Rightarrow> error + (bool \<times> 'a)"
type_synonym 'a tstate = "int list \<times> nat \<times> 'a"

text \<open>One pass through the body of the \<^verbatim>\<open>while\<close> loop; the flag says whether the
  function returns from inside the body.\<close>

definition bvhStep ::
  "real \<Rightarrow> real \<Rightarrow> real \<Rightarrow> real \<Rightarrow> real \<Rightarrow> real \<Rightarrow> node option list \<Rightarrow> 'a onLeaf \<Rightarrow>
     'a tstate \<Rightarrow> error + ('a tstate \<times> bool)" where
  "bvhStep ox oy oz dx dy dz nodes onLeaf st =
    (case st of (stack, stackPtr, acc) \<Rightarrow>
     let stackPtr = stackPtr - 1 in
     if stackPtr < length stack then
       (case node_at nodes (stack ! stackPtr) of
          None \<Rightarrow> Inl TypeError
        | Some node \<Rightarrow>
            if \<not> rayAABBIntersect ox oy oz dx dy dz (node_bmin node) (node_bmax node)
            then Inr ((stack, stackPtr, acc), False)
            else if node_triIdx node \<ge> 0 then
              (case onLeaf (node_triIdx node) acc of
                 Inl e \<Rightarrow> Inl e
               | Inr (stop, acc') \<Rightarrow> Inr ((stack, stackPtr, acc'), stop))
            else
              (case push (node_right node) (push (node_left node) (stack, stackPtr)) of
                 (stack', stackPtr') \<Rightarrow> Inr ((stack', stackPtr', acc), False)))
     else Inl TypeError)"

text \<open>The loop may run forever on an array of nodes that holds a cycle: the result
  \<open>None\<close> stands for a walk that does not return.\<close>

partial_function (option) bvhLoop ::
  "real \<Rightarrow> real \<Rightarrow> real \<Rightarrow> real \<Rightarrow> real \<Rightarrow> real \<Rightarrow> node option list \<Rightarrow> 'a onLeaf \<Rightarrow>
     'a tstate \<Rightarrow> (error + (int list \<times> 'a)) option" where
  "bvhLoop ox oy oz dx dy dz nodes onLeaf st =
    (if fst (snd st) > 0 then
       (case bvhStep ox oy oz dx dy dz nodes onLeaf st of
          Inl e \<Rightarrow> Some (Inl e)
        | Inr (st', stop) \<Rightarrow>
            if stop then Some (Inr (fst st', snd (snd st')))
            else bvhLoop ox oy oz dx dy dz nodes onLeaf st')
     else Some (Inr (fst st, snd (snd st))))"

definition bvhInit :: "int list \<Rightarrow> 'a \<Rightarrow> 'a tstate" where
  "bvhInit stack acc = (case push 0 (stack, 0) of (stack', stackPtr) \<Rightarrow> (stack', stackPtr, acc))"

definition bvhTraverse ::
  "real \<Rightarrow> real \<Rightarrow> real \<Rightarrow> real \<Rightarrow> real \<Rightarrow> real \<Rightarrow> node option list \<Rightarrow> 'a onLeaf \<Rightarrow>
     int list \<Rightarrow> 'a \<Rightarrow> (error + (int list \<times> 'a)) option" where
  "bvhTraverse ox oy oz dx dy dz nodes onLeaf stack acc =
     bvhLoop ox oy oz dx dy dz nodes onLeaf (bvhInit stack acc)"

text \<open>The states the walk passes through at the head of its loop.\<close>

definition bvhNext ::
  "real \<Rightarrow> real \<Rightarrow> real \<Rightarrow> real \<Rightarrow> real \<Rightarrow> real \<Rightarrow> node option list \<Rightarrow> 'a onLeaf \<Rightarrow>
     'a tstate \<Rightarrow> 'a tstate \<Rightarrow> bool" where
  "bvhNext ox oy oz dx dy dz nodes onLeaf st st' \<longleftrightarrow>
     fst (snd st) > 0 \<and> bvhStep ox oy oz dx dy dz nodes onLeaf st = Inr (st', False)"

definition bvhReach ::
  "real \<Rightarrow> real \<Rightarrow> real \<Rightarrow> real \<Rightarrow> real \<Rightarrow> real \<Rightarrow> node option list \<Rightarrow> 'a onLeaf \<Rightarrow>
     int list \<Rightarrow> 'a \<Rightarrow> 'a tstate \<Rightarrow> bool" where
  "bvhReach ox oy oz dx dy dz nodes onLeaf stack acc st \<longleftrightarrow>
     (bvhNext ox oy oz dx dy dz nodes onLeaf)\<^sup>*\<^sup>* (bvhInit stack acc) st"

text \<open>
  The two queries. Their callbacks call \<^verbatim>\<open>rayTriangleIntersect\<close>, in the arithmetic \<open>fp\<close>,
  on the ray and the three corners of the triangle, which are finite numbers; a hit
  whose distance is \<^verbatim>\<open>NaN\<close> fails the comparison of either callback.
\<close>

record closest =
  ch_t :: num
  ch_triIdx :: int
  ch_hit :: "hit option"

definition closest_onLeaf ::
  "arith \<Rightarrow> real \<Rightarrow> real \<Rightarrow> real \<Rightarrow> real \<Rightarrow> real \<Rightarrow> real \<Rightarrow> vec3 list \<Rightarrow> tri list \<Rightarrow>
     (num \<times> int \<times> hit option) onLeaf" where
  "closest_onLeaf fp ox oy oz dx dy dz worldVerts triangles triIdx best =
    (case best of (bestT, bestTriIdx, bestHit) \<Rightarrow>
     case tri_corners worldVerts triangles (nat triIdx) of
       Inl e \<Rightarrow> Inl e
     | Inr (v0, v1, v2) \<Rightarrow>
         (case rayTriangleIntersect fp (Fin ox) (Fin oy) (Fin oz) (Fin dx) (Fin dy) (Fin dz)
                 (fin3 v0) (fin3 v1) (fin3 v2) of
            None \<Rightarrow> Inr (False, (bestT, bestTriIdx, bestHit))
          | Some hit \<Rightarrow>
              if js_lt (hit_t hit) bestT
              then Inr (False, (hit_t hit, triIdx, Some hit))
              else Inr (False, (bestT, bestTriIdx, bestHit))))"

definition bvhClosestHit ::
  "arith \<Rightarrow> real \<Rightarrow> real \<Rightarrow> real \<Rightarrow> real \<Rightarrow> real \<Rightarrow> real \<Rightarrow> node option list \<Rightarrow> vec3 list \<Rightarrow> tri list \<Rightarrow>
     num \<Rightarrow> int list \<Rightarrow> (error + (int list \<times> closest option)) option" where
  "bvhClosestHit fp ox oy oz dx dy dz nodes worldVerts triangles maxT stack =
    (if length nodes = 0 then Some (Inr (stack, None))
     else
       (case bvhTraverse ox oy oz dx dy dz nodes
               (closest_onLeaf fp ox oy oz dx dy dz worldVerts triangles) stack (maxT, - 1, None) of
          None \<Rightarrow> None
        | Some (Inl e) \<Rightarrow> Some (Inl e)
        | Some (Inr (stack', (bestT, bestTriIdx, bestHit))) \<Rightarrow>
            Some (Inr (stack',
              if bestTriIdx \<ge> 0
              then Some \<lparr>ch_t = bestT, ch_triIdx = bestTriIdx, ch_hit = bestHit\<rparr>
              else None))))"

definition any_onLeaf ::
  "arith \<Rightarrow> real \<Rightarrow> real \<Rightarrow> real \<Rightarrow> real \<Rightarrow> real \<Rightarrow> real \<Rightarrow> vec3 list \<Rightarrow> tri list \<Rightarrow> num \<Rightarrow> bool onLeaf" where
  "any_onLeaf fp ox oy oz dx dy dz worldVerts triangles maxT triIdx found =
    (case tri_corners worldVerts triangles (nat triIdx) of
       Inl e \<Rightarrow> Inl e
     | Inr (v0, v1, v2) \<Rightarrow>
         (case rayTriangleIntersect fp (Fin ox) (Fin oy) (Fin oz) (Fin dx) (Fin dy) (Fin dz)
                 (fin3 v0) (fin3 v1) (fin3 v2) of
            None \<Rightarrow> Inr (False, found)
          | Some hit \<Rightarrow>
              if js_lt (hit_t hit) maxT then Inr (True, True)
              else Inr (False, found)))"

definition bvhAnyHit ::
  "arith \<Rightarrow> real \<Rightarrow> real \<Rightarrow> real \<Rightarrow> real \<Rightarrow> real \<Rightarrow> real \<Rightarrow> node option list \<Rightarrow> vec3 list \<Rightarrow> tri list \<Rightarrow>
     num \<Rightarrow> int list \<Rightarrow> (error + (int list \<times> bool)) option" where
  "bvhAnyHit fp ox oy oz dx dy dz nodes worldVerts triangles maxT stack =
    (if length nodes = 0 then Some (Inr (stack, False))
     else bvhTraverse ox oy oz dx dy dz nodes
            (any_onLeaf fp ox oy oz dx dy dz worldVerts triangles maxT) stack False)"

subsection \<open>The tree a flat node array holds\<close>

text \<open>
  The array that \<^verbatim>\<open>buildNode\<close> appends is the preorder listing of a binary tree whose
  inner nodes name their children by array index. The definitions below describe such a
  tree and read the quantities of the claims off it.
\<close>

datatype btree = Leaf node | Inner node btree btree

fun root_node :: "btree \<Rightarrow> node" where
  "root_node (Leaf nd) = nd"
| "root_node (Inner nd l r) = nd"

fun preorder :: "btree \<Rightarrow> node list" where
  "preorder (Leaf nd) = [nd]"
| "preorder (Inner nd l r) = nd # preorder l @ preorder r"

fun leaves :: "btree \<Rightarrow> int list" where
  "leaves (Leaf nd) = [node_triIdx nd]"
| "leaves (Inner nd l r) = leaves l @ leaves r"

fun height :: "btree \<Rightarrow> nat" where
  "height (Leaf nd) = 0"
| "height (Inner nd l r) = Suc (max (height l) (height r))"

text \<open>The tree is laid out from array index \<open>b\<close> on.\<close>

fun wf_at :: "nat \<Rightarrow> btree \<Rightarrow> bool" where
  "wf_at b (Leaf nd) \<longleftrightarrow> 0 \<le> node_triIdx nd"
| "wf_at b (Inner nd l r) \<longleftrightarrow>
     node_triIdx nd < 0 \<and> node_left nd = int (b + 1) \<and>
     node_right nd = int (b + 1 + length (preorder l)) \<and>
     wf_at (b + 1) l \<and> wf_at (b + 1 + length (preorder l)) r"

text \<open>The number of stack slots the walk of a tree needs, its own slot included.\<close>

fun need :: "btree \<Rightarrow> nat" where
  "need (Leaf nd) = 1"
| "need (Inner nd l r) = max (need l) (Suc (need r))"

text \<open>The walk of a tree as a recursion: right subtree first, then the left one.\<close>

fun walk ::
  "real \<Rightarrow> real \<Rightarrow> real \<Rightarrow> real \<Rightarrow> real \<Rightarrow> real \<Rightarrow> 'a onLeaf \<Rightarrow> btree \<Rightarrow> 'a \<Rightarrow> error + (bool \<times> 'a)" where
  "walk ox oy oz dx dy dz onLeaf (Leaf nd) acc =
     (if \<not> rayAABBIntersect ox oy oz dx dy dz (node_bmin nd) (node_bmax nd) then Inr (False, acc)
      else onLeaf (node_triIdx nd) acc)"
| "walk ox oy oz dx dy dz onLeaf (Inner nd l r) acc =
     (if \<not> rayAABBIntersect ox oy oz dx dy dz (node_bmin nd) (node_bmax nd) then Inr (False, acc)
      else case walk ox oy oz dx dy dz onLeaf r acc of
             Inl e \<Rightarrow> Inl e
           | Inr (stop, acc') \<Rightarrow>
               if stop then Inr (True, acc') else walk ox oy oz dx dy dz onLeaf l acc')"

text \<open>The leaves whose box and whose ancestors' boxes the ray meets, in the order of the walk.\<close>

fun visited :: "real \<Rightarrow> real \<Rightarrow> real \<Rightarrow> real \<Rightarrow> real \<Rightarrow> real \<Rightarrow> btree \<Rightarrow> int list" where
  "visited ox oy oz dx dy dz (Leaf nd) =
     (if rayAABBIntersect ox oy oz dx dy dz (node_bmin nd) (node_bmax nd) then [node_triIdx nd]
      else [])"
| "visited ox oy oz dx dy dz (Inner nd l r) =
     (if rayAABBIntersect ox oy oz dx dy dz (node_bmin nd) (node_bmax nd)
      then visited ox oy oz dx dy dz r @ visited ox oy oz dx dy dz l
      else [])"

text \<open>Box containment, component by component.\<close>

definition box_inside :: "num3 \<times> num3 \<Rightarrow> num3 \<times> num3 \<Rightarrow> bool" where
  "box_inside child parent \<longleftrightarrow>
     (case child of ((cminx, cminy, cminz), (cmaxx, cmaxy, cmaxz)) \<Rightarrow>
      case parent of ((pminx, pminy, pminz), (pmaxx, pmaxy, pmaxz)) \<Rightarrow>
        js_ge cminx pminx \<and> js_ge cminy pminy \<and> js_ge cminz pminz \<and>
        js_le cmaxx pmaxx \<and> js_le cmaxy pmaxy \<and> js_le cmaxz pmaxz)"

definition node_box :: "node \<Rightarrow> num3 \<times> num3" where
  "node_box nd = (node_bmin nd, node_bmax nd)"

fun box_nested :: "btree \<Rightarrow> bool" where
  "box_nested (Leaf nd) = True"
| "box_nested (Inner nd l r) \<longleftrightarrow>
     box_inside (node_box (root_node l)) (node_box nd) \<and>
     box_inside (node_box (root_node r)) (node_box nd) \<and> box_nested l \<and> box_nested r"

text \<open>The box of a list of triangles, given by their indices.\<close>

definition box_of :: "vec3 list \<Rightarrow> tri list \<Rightarrow> nat list \<Rightarrow> num3 \<times> num3" where
  "box_of worldVerts triangles ks =
     fold (\<lambda>k b. case triangles ! k of (t0, t1, t2) \<Rightarrow>
             grow (worldVerts ! t2) (grow (worldVerts ! t1) (grow (worldVerts ! t0) b)))
       ks ((PosInf, PosInf, PosInf), (NegInf, NegInf, NegInf))"

text \<open>The triangle indices stored in the leaf nodes of a node array, in array order.\<close>

definition leaf_triIdxs :: "node option list \<Rightarrow> int list" where
  "leaf_triIdxs nodes =
     concat (map (\<lambda>n. case n of None \<Rightarrow> []
                       | Some nd \<Rightarrow> if node_triIdx nd \<ge> 0 then [node_triIdx nd] else []) nodes)"

subsection \<open>Notions used in the proofs about the hierarchy\<close>

text \<open>
  Triangle \<open>k\<close> exists and its three corners exist; the step of the box loop for one
  triangle; a range of \<^verbatim>\<open>triInfos\<close> all of whose triangles exist; the two kinds of
  node \<^verbatim>\<open>buildNode\<close> writes; the sort key and the split point it chooses.
\<close>

definition tri_ok :: "vec3 list \<Rightarrow> tri list \<Rightarrow> nat \<Rightarrow> bool" where
  "tri_ok wv tris k \<longleftrightarrow> k < length tris \<and>
     (case tris ! k of (t0, t1, t2) \<Rightarrow> t0 < length wv \<and> t1 < length wv \<and> t2 < length wv)"

definition grow_tri :: "vec3 list \<Rightarrow> tri list \<Rightarrow> nat \<Rightarrow> num3 \<times> num3 \<Rightarrow> num3 \<times> num3" where
  "grow_tri wv tris k b = (case tris ! k of (t0, t1, t2) \<Rightarrow>
             grow (wv ! t2) (grow (wv ! t1) (grow (wv ! t0) b)))"

definition range_ok :: "vec3 list \<Rightarrow> tri list \<Rightarrow> triInfo list \<Rightarrow> nat \<Rightarrow> nat \<Rightarrow> bool" where
  "range_ok wv tris ti s e \<longleftrightarrow> (\<forall>i. s \<le> i \<and> i < e \<longrightarrow> i < length ti \<and> tri_ok wv tris (ti_idx (ti ! i)))"

definition leaf_node :: "num3 \<times> num3 \<Rightarrow> nat \<Rightarrow> node" where
  "leaf_node box k = \<lparr>node_bmin = fst box, node_bmax = snd box, node_left = - 1, node_right = - 1,
                      node_triIdx = int k\<rparr>"

definition inner_node :: "num3 \<times> num3 \<Rightarrow> nat \<Rightarrow> nat \<Rightarrow> node" where
  "inner_node box li ri = \<lparr>node_bmin = fst box, node_bmax = snd box, node_left = int li,
                           node_right = int ri, node_triIdx = - 1\<rparr>"

definition split_key :: "num3 \<times> num3 \<Rightarrow> triInfo \<Rightarrow> real" where
  "split_key box = (case box of ((bmin0, bmin1, bmin2), (bmax0, bmax1, bmax2)) \<Rightarrow>
     let dx = js_sub bmax0 bmin0; dy = js_sub bmax1 bmin1; dz = js_sub bmax2 bmin2
     in (if js_ge dx dy \<and> js_ge dx dz then ti_cx else if js_ge dy dz then ti_cy else ti_cz))"

definition split_mid :: "nat \<Rightarrow> nat \<Rightarrow> int" where
  "split_mid s e = int s + toInt32 (int e - int s) div 2"

text \<open>One component of a box: the running minimum and maximum.\<close>

definition gmin :: "real \<Rightarrow> num \<Rightarrow> num" where
  "gmin x m = (if js_lt (Fin x) m then Fin x else m)"

definition gmax :: "real \<Rightarrow> num \<Rightarrow> num" where
  "gmax x m = (if js_gt (Fin x) m then Fin x else m)"

definition lo_ok :: "real set \<Rightarrow> num \<Rightarrow> bool" where
  "lo_ok X m \<longleftrightarrow> (m = PosInf \<or> (\<exists>x \<in> X. m = Fin x)) \<and> (\<forall>x \<in> X. js_le m (Fin x))"

definition hi_ok :: "real set \<Rightarrow> num \<Rightarrow> bool" where
  "hi_ok X m \<longleftrightarrow> (m = NegInf \<or> (\<exists>x \<in> X. m = Fin x)) \<and> (\<forall>x \<in> X. js_le (Fin x) m)"

text \<open>The corners of a list of triangles, and a box that is the tight bound of a set of points.\<close>

definition corner_set :: "vec3 list \<Rightarrow> tri list \<Rightarrow> nat list \<Rightarrow> vec3 set" where
  "corner_set wv tris ks = (\<Union>k \<in> set ks. case tris ! k of (t0, t1, t2) \<Rightarrow> {wv ! t0, wv ! t1, wv ! t2})"

definition box_ok :: "vec3 set \<Rightarrow> num3 \<times> num3 \<Rightarrow> bool" where
  "box_ok V b \<longleftrightarrow> (case b of ((a, b, c), (d, e, f)) \<Rightarrow>
     lo_ok (fst ` V) a \<and> lo_ok ((fst \<circ> snd) ` V) b \<and> lo_ok ((snd \<circ> snd) ` V) c \<and>
     hi_ok (fst ` V) d \<and> hi_ok ((fst \<circ> snd) ` V) e \<and> hi_ok ((snd \<circ> snd) ` V) f)"

text \<open>
  What a successful call \<^verbatim>\<open>buildNode(start, end)\<close> has done: it permuted the range of
  \<^verbatim>\<open>triInfos\<close> and nothing else, and appended to \<^verbatim>\<open>nodes\<close> the preorder listing of a
  tree over that range.
\<close>

definition built ::
  "vec3 list \<Rightarrow> tri list \<Rightarrow> nat \<Rightarrow> nat \<Rightarrow> triInfo list \<Rightarrow> node option list \<Rightarrow>
     triInfo list \<Rightarrow> node option list \<Rightarrow> btree \<Rightarrow> bool" where
  "built wv tris s e ti nodes ti' nodes' t \<longleftrightarrow>
     s < e \<and> e \<le> length ti \<and> length ti' = length ti \<and>
     take s ti' = take s ti \<and> drop e ti' = drop e ti \<and>
     mset (slice ti' s e) = mset (slice ti s e) \<and>
     nodes' = nodes @ map Some (preorder t) \<and> wf_at (length nodes) t \<and>
     leaves t = map (\<lambda>i. int (ti_idx i)) (slice ti' s e) \<and>
     node_box (root_node t) = box_of wv tris (map ti_idx (slice ti s e)) \<and>
     box_nested t \<and> length (preorder t) = 2 * (e - s) - 1 \<and>
     (e - s < 2 ^ 31 \<longrightarrow> (\<forall>h. e - s \<le> 2 ^ h \<longrightarrow> height t \<le> h))"

text \<open>The record the first loop of \<^verbatim>\<open>buildBVH\<close> stores for triangle \<open>i\<close>.\<close>

definition centroid :: "vec3 list \<Rightarrow> tri list \<Rightarrow> nat \<Rightarrow> triInfo" where
  "centroid wv tris i =
     (case tris ! i of (t0, t1, t2) \<Rightarrow>
      case wv ! t0 of (v0x, v0y, v0z) \<Rightarrow> case wv ! t1 of (v1x, v1y, v1z) \<Rightarrow>
      case wv ! t2 of (v2x, v2y, v2z) \<Rightarrow>
        \<lparr>ti_idx = i, ti_cx = (v0x + v1x + v2x) / 3, ti_cy = (v0y + v1y + v2y) / 3,
         ti_cz = (v0z + v1z + v2z) / 3\<rparr>)"

definition all_tri_ok :: "vec3 list \<Rightarrow> tri list \<Rightarrow> bool" where
  "all_tri_ok wv tris \<longleftrightarrow> (\<forall>k < length tris. tri_ok wv tris k)"

text \<open>The tree \<open>t\<close> sits in the array from index \<open>b\<close> on.\<close>

definition tree_in :: "node option list \<Rightarrow> nat \<Rightarrow> btree \<Rightarrow> bool" where
  "tree_in nodes b t \<longleftrightarrow>
     wf_at b t \<and> b + length (preorder t) \<le> length nodes \<and>
     (\<forall>j < length (preorder t). nodes ! (b + j) = Some (preorder t ! j))"

text \<open>Every inner node of a nested tree in the array has its two children's boxes inside its own.\<close>

definition children_inside :: "node option list \<Rightarrow> node \<Rightarrow> bool" where
  "children_inside nodes nd \<longleftrightarrow>
     (\<exists>l r. node_at nodes (node_left nd) = Some l \<and> node_at nodes (node_right nd) = Some r \<and>
        box_inside (node_box l) (node_box nd) \<and> box_inside (node_box r) (node_box nd))"

text \<open>What the walk of the subtree on top of the stack does to the state of the loop.\<close>

definition after_walk ::
  "real \<Rightarrow> real \<Rightarrow> real \<Rightarrow> real \<Rightarrow> real \<Rightarrow> real \<Rightarrow> node option list \<Rightarrow> 'a onLeaf \<Rightarrow> btree \<Rightarrow>
     int list \<Rightarrow> nat \<Rightarrow> 'a \<Rightarrow> int list \<Rightarrow> bool" where
  "after_walk ox oy oz dx dy dz nodes onLeaf t stack sp acc stack' \<longleftrightarrow>
     length stack' = length stack \<and> (\<forall>j < sp. stack' ! j = stack ! j) \<and>
     bvhLoop ox oy oz dx dy dz nodes onLeaf (stack, Suc sp, acc) =
       (case walk ox oy oz dx dy dz onLeaf t acc of
          Inl e \<Rightarrow> Some (Inl e)
        | Inr (stop, acc') \<Rightarrow>
            if stop then Some (Inr (stack', acc'))
            else bvhLoop ox oy oz dx dy dz nodes onLeaf (stack', sp, acc')) \<and>
     (\<forall>st. (bvhNext ox oy oz dx dy dz nodes onLeaf)\<^sup>*\<^sup>* (stack, Suc sp, acc) st \<longrightarrow>
        fst (snd st) \<le> sp + need t \<or>
        (\<exists>acc'. walk ox oy oz dx dy dz onLeaf t acc = Inr (False, acc') \<and>
           (bvhNext ox oy oz dx dy dz nodes onLeaf)\<^sup>*\<^sup>* (stack', sp, acc') st))"

text \<open>The hit of the ray on triangle number \<open>k\<close>.\<close>

definition leaf_hit ::
  "arith \<Rightarrow> real \<Rightarrow> real \<Rightarrow> real \<Rightarrow> real \<Rightarrow> real \<Rightarrow> real \<Rightarrow> vec3 list \<Rightarrow> tri list \<Rightarrow> int \<Rightarrow> hit option" where
  "leaf_hit fp ox oy oz dx dy dz wv tris k =
     (case tris ! nat k of (t0, t1, t2) \<Rightarrow>
        rayTriangleIntersect fp (Fin ox) (Fin oy) (Fin oz) (Fin dx) (Fin dy) (Fin dz)
          (fin3 (wv ! t0)) (fin3 (wv ! t1)) (fin3 (wv ! t2)))"

text \<open>The update of the running best hit that the closest-hit callback makes at a leaf.\<close>

definition closest_upd ::
  "arith \<Rightarrow> real \<Rightarrow> real \<Rightarrow> real \<Rightarrow> real \<Rightarrow> real \<Rightarrow> real \<Rightarrow> vec3 list \<Rightarrow> tri list \<Rightarrow> int \<Rightarrow>
     num \<times> int \<times> hit option \<Rightarrow> num \<times> int \<times> hit option" where
  "closest_upd fp ox oy oz dx dy dz wv tris k best =
     (case leaf_hit fp ox oy oz dx dy dz wv tris k of
        None \<Rightarrow> best
      | Some h \<Rightarrow> if js_lt (hit_t h) (fst best) then (hit_t h, k, Some h) else best)"

text \<open>Every leaf names a triangle that exists; some visited leaf is hit nearer than a bound.\<close>

definition leaves_ok :: "vec3 list \<Rightarrow> tri list \<Rightarrow> btree \<Rightarrow> bool" where
  "leaves_ok wv tris t \<longleftrightarrow> (\<forall>k \<in> set (leaves t). tri_ok wv tris (nat k))"

definition near_hit ::
  "arith \<Rightarrow> real \<Rightarrow> real \<Rightarrow> real \<Rightarrow> real \<Rightarrow> real \<Rightarrow> real \<Rightarrow> vec3 list \<Rightarrow> tri list \<Rightarrow> num \<Rightarrow> int list \<Rightarrow> bool" where
  "near_hit fp ox oy oz dx dy dz wv tris maxT ks \<longleftrightarrow>
     (\<exists>k \<in> set ks. \<exists>h. leaf_hit fp ox oy oz dx dy dz wv tris k = Some h \<and> js_lt (hit_t h) maxT)"

text \<open>The running best hit after a list of leaves, against the one before: it is no
  farther, it is no farther than any hit of these leaves whose distance is a number, and
  it is the one before or a nearer hit of one of these leaves.\<close>

definition fold_inv ::
  "arith \<Rightarrow> real \<Rightarrow> real \<Rightarrow> real \<Rightarrow> real \<Rightarrow> real \<Rightarrow> real \<Rightarrow> vec3 list \<Rightarrow> tri list \<Rightarrow> int list \<Rightarrow>
     num \<times> int \<times> hit option \<Rightarrow> num \<times> int \<times> hit option \<Rightarrow> bool" where
  "fold_inv fp ox oy oz dx dy dz wv tris ks best0 best \<longleftrightarrow>
     js_le (fst best) (fst best0) \<and>
     (\<forall>k \<in> set ks. \<forall>h. leaf_hit fp ox oy oz dx dy dz wv tris k = Some h \<longrightarrow>
         hit_t h \<noteq> NaN \<longrightarrow> js_le (fst best) (hit_t h)) \<and>
     (best = best0 \<or>
      (\<exists>k \<in> set ks. \<exists>h. leaf_hit fp ox oy oz dx dy dz wv tris k = Some h \<and>
          best = (hit_t h, k, Some h) \<and> js_lt (hit_t h) (fst best0)))"

section \<open>Marching cubes and the mesh generator (metaball part of shader-source.js)\<close>

subsection \<open>Marching cubes\<close>

definition EDGE_TABLE :: "int list" where
  "EDGE_TABLE = [
    0x000, 0x109, 0x203, 0x30a, 0x406, 0x50f, 0x605, 0x70c, 0x80c, 0x905, 0xa0f, 0xb06, 0xc0a, 0xd03, 0xe09, 0xf00,
    0x190, 0x099, 0x393, 0x29a, 0x596, 0x49f, 0x795, 0x69c, 0x99c, 0x895, 0xb9f, 0xa96, 0xd9a, 0xc93, 0xf99, 0xe90,
    0x230, 0x339, 0x033, 0x13a, 0x636, 0x73f, 0x435, 0x53c, 0xa3c, 0xb35, 0x83f, 0x936, 0xe3a, 0xf33, 0xc39, 0xd30,
    0x3a0, 0x2a9, 0x1a3, 0x0aa, 0x7a6, 0x6af, 0x5a5, 0x4ac, 0xbac, 0xaa5, 0x9af, 0x8a6, 0xfaa, 0xea3, 0xda9, 0xca0,
    0x460, 0x569, 0x663, 0x76a, 0x066, 0x16f, 0x265, 0x36c, 0xc6c, 0xd65, 0xe6f, 0xf66, 0x86a, 0x963, 0xa69, 0xb60,
    0x5f0, 0x4f9, 0x7f3, 0x6fa, 0x1f6, 0x0ff, 0x3f5, 0x2fc, 0xdfc, 0xcf5, 0xfff, 0xef6, 0x9fa, 0x8f3, 0xbf9, 0xaf0,
    0x650, 0x759, 0x453, 0x55a, 0x256, 0x35f, 0x055, 0x15c, 0xe5c, 0xf55, 0xc5f, 0xd56, 0xa5a, 0xb53, 0x859, 0x950,
    0x7c0, 0x6c9, 0x5c3, 0x4ca, 0x3c6, 0x2cf, 0x1c5, 0x0cc, 0xfcc, 0xec5, 0xdcf, 0xcc6, 0xbca, 0xac3, 0x9c9, 0x8c0,
    0x8c0, 0x9c9, 0xac3, 0xbca, 0xcc6, 0xdcf, 0xec5, 0xfcc, 0x0cc, 0x1c5, 0x2cf, 0x3c6, 0x4ca, 0x5c3, 0x6c9, 0x7c0,
    0x950, 0x859, 0xb53, 0xa5a, 0xd56, 0xc5f, 0xf55, 0xe5c, 0x15c, 0x055, 0x35f, 0x256, 0x55a, 0x453, 0x759, 0x650,
    0xaf0, 0xbf9, 0x8f3, 0x9fa, 0xef6, 0xfff, 0xcf5, 0xdfc, 0x2fc, 0x3f5, 0x0ff, 0x1f6, 0x6fa, 0x7f3, 0x4f9, 0x5f0,
    0xb60, 0xa69, 0x963, 0x86a, 0xf66, 0xe6f, 0xd65, 0xc6c, 0x36c, 0x265, 0x16f, 0x066, 0x76a, 0x663, 0x569, 0x460,
    0xca0, 0xda9, 0xea3, 0xfaa, 0x8a6, 0x9af, 0xaa5, 0xbac, 0x4ac, 0x5a5, 0x6af, 0x7a6, 0x0aa, 0x1a3, 0x2a9, 0x3a0,
    0xd30, 0xc39, 0xf33, 0xe3a, 0x936, 0x83f, 0xb35, 0xa3c, 0x53c, 0x435, 0x73f, 0x636, 0x13a, 0x033, 0x339, 0x230,
    0xe90, 0xf99, 0xc93, 0xd9a, 0xa96, 0xb9f, 0x895, 0x99c, 0x69c, 0x795, 0x49f, 0x596, 0x29a, 0x393, 0x099, 0x190,
    0xf00, 0xe09, 0xd03, 0xc0a, 0xb06, 0xa0f, 0x905, 0x80c, 0x70c, 0x605, 0x50f, 0x406, 0x30a, 0x203, 0x109, 0x000]"

definition TRI_TABLE :: "int list list" where
  "TRI_TABLE = [
    [- 1],
    [0, 8, 3, - 1],
    [0, 1, 9, - 1],
    [1, 8, 3, 9, 8, 1, - 1],
    [1, 2, 10, - 1],
    [0, 8, 3, 1, 2, 10, - 1],
    [9, 2, 10, 0, 2, 9, - 1],
    [2, 8, 3, 2, 10, 8, 10, 9, 8, - 1],
    [3, 11, 2, - 1],
    [0, 11, 2, 8, 11, 0, - 1],
    [1, 9, 0, 2, 3, 11, - 1],
    [1, 11, 2, 1, 9, 11, 9, 8, 11, - 1],
    [3, 10, 1, 11, 10, 3, - 1],
    [0, 10, 1, 0, 8, 10, 8, 11, 10, - 1],
    [3, 9, 0, 3, 11, 9, 11, 10, 9, - 1],
    [9, 8, 10, 10, 8, 11, - 1],
    [4, 7, 8, - 1],
    [4, 3, 0, 7, 3, 4, - 1],
    [0, 1, 9, 8, 4, 7, - 1],
    [4, 1, 9, 4, 7, 1, 7, 3, 1, - 1],
    [1, 2, 10, 8, 4, 7, - 1],
    [3, 4, 7, 3, 0, 4, 1, 2, 10, - 1],
    [9, 2, 10, 9, 0, 2, 8, 4, 7, - 1],
    [2, 10, 9, 2, 9, 7, 2, 7, 3, 7, 9, 4, - 1],
    [8, 4, 7, 3, 11, 2, - 1],
    [11, 4, 7, 11, 2, 4, 2, 0, 4, - 1],
    [9, 0, 1, 8, 4, 7, 2, 3, 11, - 1],
    [4, 7, 11, 9, 4, 11, 9, 11, 2, 9, 2, 1, - 1],
    [3, 10, 1, 3, 11, 10, 7, 8, 4, - 1],
    [1, 11, 10, 1, 4, 11, 1, 0, 4, 7, 11, 4, - 1],
    [4, 7, 8, 9, 0, 11, 9, 11, 10, 11, 0, 3, - 1],
    [4, 7, 11, 4, 11, 9, 9, 11, 10, - 1],
    [9, 5, 4, - 1],
    [9, 5, 4, 0, 8, 3, - 1],
    [0, 5, 4, 1, 5, 0, - 1],
    [8, 5, 4, 8, 3, 5, 3, 1, 5, - 1],
    [1, 2, 10, 9, 5, 4, - 1],
    [3, 0, 8, 1, 2, 10, 4, 9, 5, - 1],
    [5, 2, 10, 5, 4, 2, 4, 0, 2, - 1],
    [2, 10, 5, 3, 2, 5, 3, 5, 4, 3, 4, 8, - 1],
    [9, 5, 4, 2, 3, 11, - 1],
    [0, 11, 2, 0, 8, 11, 4, 9, 5, - 1],
    [0, 5, 4, 0, 1, 5, 2, 3, 11, - 1],
    [2, 1, 5, 2, 5, 8, 2, 8, 11, 4, 8, 5, - 1],
    [10, 3, 11, 10, 1, 3, 9, 5, 4, - 1],
    [4, 9, 5, 0, 8, 1, 8, 10, 1, 8, 11, 10, - 1],
    [5, 4, 0, 5, 0, 11, 5, 11, 10, 11, 0, 3, - 1],
    [5, 4, 8, 5, 8, 10, 10, 8, 11, - 1],
    [9, 7, 8, 5, 7, 9, - 1],
    [9, 3, 0, 9, 5, 3, 5, 7, 3, - 1],
    [0, 7, 8, 0, 1, 7, 1, 5, 7, - 1],
    [1, 5, 3, 3, 5, 7, - 1],
    [9, 7, 8, 9, 5, 7, 10, 1, 2, - 1],
    [10, 1, 2, 9, 5, 0, 5, 3, 0, 5, 7, 3, - 1],
    [8, 0, 2, 8, 2, 5, 8, 5, 7, 10, 5, 2, - 1],
    [2, 10, 5, 2, 5, 3, 3, 5, 7, - 1],
    [7, 9, 5, 7, 8, 9, 3, 11, 2, - 1],
    [9, 5, 7, 9, 7, 2, 9, 2, 0, 2, 7, 11, - 1],
    [2, 3, 11, 0, 1, 8, 1, 7, 8, 1, 5, 7, - 1],
    [11, 2, 1, 11, 1, 7, 7, 1, 5, - 1],
    [9, 5, 8, 8, 5, 7, 10, 1, 3, 10, 3, 11, - 1],
    [5, 7, 0, 5, 0, 9, 7, 11, 0, 1, 0, 10, 11, 10, 0, - 1],
    [11, 10, 0, 11, 0, 3, 10, 5, 0, 8, 0, 7, 5, 7, 0, - 1],
    [11, 10, 5, 7, 11, 5, - 1],
    [10, 6, 5, - 1],
    [0, 8, 3, 5, 10, 6, - 1],
    [9, 0, 1, 5, 10, 6, - 1],
    [1, 8, 3, 1, 9, 8, 5, 10, 6, - 1],
    [1, 6, 5, 2, 6, 1, - 1],
    [1, 6, 5, 1, 2, 6, 3, 0, 8, - 1],
    [9, 6, 5, 9, 0, 6, 0, 2, 6, - 1],
    [5, 9, 8, 5, 8, 2, 5, 2, 6, 3, 2, 8, - 1],
    [2, 3, 11, 10, 6, 5, - 1],
    [11, 0, 8, 11, 2, 0, 10, 6, 5, - 1],
    [0, 1, 9, 2, 3, 11, 5, 10, 6, - 1],
    [5, 10, 6, 1, 9, 2, 9, 11, 2, 9, 8, 11, - 1],
    [6, 3, 11, 6, 5, 3, 5, 1, 3, - 1],
    [0, 8, 11, 0, 11, 5, 0, 5, 1, 5, 11, 6, - 1],
    [3, 11, 6, 0, 3, 6, 0, 6, 5, 0, 5, 9, - 1],
    [6, 5, 9, 6, 9, 11, 11, 9, 8, - 1],
    [5, 10, 6, 4, 7, 8, - 1],
    [4, 3, 0, 4, 7, 3, 6, 5, 10, - 1],
    [1, 9, 0, 5, 10, 6, 8, 4, 7, - 1],
    [10, 6, 5, 1, 9, 7, 1, 7, 3, 7, 9, 4, - 1],
    [6, 1, 2, 6, 5, 1, 4, 7, 8, - 1],
    [1, 2, 5, 5, 2, 6, 3, 0, 4, 3, 4, 7, - 1],
    [8, 4, 7, 9, 0, 5, 0, 6, 5, 0, 2, 6, - 1],
    [7, 3, 9, 7, 9, 4, 3, 2, 9, 5, 9, 6, 2, 6, 9, - 1],
    [3, 11, 2, 7, 8, 4, 10, 6, 5, - 1],
    [5, 10, 6, 4, 7, 2, 4, 2, 0, 2, 7, 11, - 1],
    [0, 1, 9, 4, 7, 8, 2, 3, 11, 5, 10, 6, - 1],
    [9, 2, 1, 9, 11, 2, 9, 4, 11, 7, 11, 4, 5, 10, 6, - 1],
    [8, 4, 7, 3, 11, 5, 3, 5, 1, 5, 11, 6, - 1],
    [5, 1, 11, 5, 11, 6, 1, 0, 11, 7, 11, 4, 0, 4, 11, - 1],
    [0, 5, 9, 0, 6, 5, 0, 3, 6, 11, 6, 3, 8, 4, 7, - 1],
    [6, 5, 9, 6, 9, 11, 4, 7, 9, 7, 11, 9, - 1],
    [10, 4, 9, 6, 4, 10, - 1],
    [4, 10, 6, 4, 9, 10, 0, 8, 3, - 1],
    [10, 0, 1, 10, 6, 0, 6, 4, 0, - 1],
    [8, 3, 1, 8, 1, 6, 8, 6, 4, 6, 1, 10, - 1],
    [1, 4, 9, 1, 2, 4, 2, 6, 4, - 1],
    [3, 0, 8, 1, 2, 9, 2, 4, 9, 2, 6, 4, - 1],
    [0, 2, 4, 4, 2, 6, - 1],
    [8, 3, 2, 8, 2, 4, 4, 2, 6, - 1],
    [10, 4, 9, 10, 6, 4, 11, 2, 3, - 1],
    [0, 8, 2, 2, 8, 11, 4, 9, 10, 4, 10, 6, - 1],
    [3, 11, 2, 0, 1, 6, 0, 6, 4, 6, 1, 10, - 1],
    [6, 4, 1, 6, 1, 10, 4, 8, 1, 2, 1, 11, 8, 11, 1, - 1],
    [9, 6, 4, 9, 3, 6, 9, 1, 3, 11, 6, 3, - 1],
    [8, 11, 1, 8, 1, 0, 11, 6, 1, 9, 1, 4, 6, 4, 1, - 1],
    [3, 11, 6, 3, 6, 0, 0, 6, 4, - 1],
    [6, 4, 8, 11, 6, 8, - 1],
    [7, 10, 6, 7, 8, 10, 8, 9, 10, - 1],
    [0, 7, 3, 0, 10, 7, 0, 9, 10, 6, 7, 10, - 1],
    [10, 6, 7, 1, 10, 7, 1, 7, 8, 1, 8, 0, - 1],
    [10, 6, 7, 10, 7, 1, 1, 7, 3, - 1],
    [1, 2, 6, 1, 6, 8, 1, 8, 9, 8, 6, 7, - 1],
    [2, 6, 9, 2, 9, 1, 6, 7, 9, 0, 9, 3, 7, 3, 9, - 1],
    [7, 8, 0, 7, 0, 6, 6, 0, 2, - 1],
    [7, 3, 2, 6, 7, 2, - 1],
    [2, 3, 11, 10, 6, 8, 10, 8, 9, 8, 6, 7, - 1],
    [2, 0, 7, 2, 7, 11, 0, 9, 7, 6, 7, 10, 9, 10, 7, - 1],
    [1, 8, 0, 1, 7, 8, 1, 10, 7, 6, 7, 10, 2, 3, 11, - 1],
    [11, 2, 1, 11, 1, 7, 10, 6, 1, 6, 7, 1, - 1],
    [8, 9, 6, 8, 6, 7, 9, 1, 6, 11, 6, 3, 1, 3, 6, - 1],
    [0, 9, 1, 11, 6, 7, - 1],
    [7, 8, 0, 7, 0, 6, 3, 11, 0, 11, 6, 0, - 1],
    [7, 11, 6, - 1],
    [7, 6, 11, - 1],
    [3, 0, 8, 11, 7, 6, - 1],
    [0, 1, 9, 11, 7, 6, - 1],
    [8, 1, 9, 8, 3, 1, 11, 7, 6, - 1],
    [10, 1, 2, 6, 11, 7, - 1],
    [1, 2, 10, 3, 0, 8, 6, 11, 7, - 1],
    [2, 9, 0, 2, 10, 9, 6, 11, 7, - 1],
    [6, 11, 7, 2, 10, 3, 10, 8, 3, 10, 9, 8, - 1],
    [7, 2, 3, 6, 2, 7, - 1],
    [7, 0, 8, 7, 6, 0, 6, 2, 0, - 1],
    [2, 7, 6, 2, 3, 7, 0, 1, 9, - 1],
    [1, 6, 2, 1, 8, 6, 1, 9, 8, 8, 7, 6, - 1],
    [10, 7, 6, 10, 1, 7, 1, 3, 7, - 1],
    [10, 7, 6, 1, 7, 10, 1, 8, 7, 1, 0, 8, - 1],
    [0, 3, 7, 0, 7, 10, 0, 10, 9, 6, 10, 7, - 1],
    [7, 6, 10, 7, 10, 8, 8, 10, 9, - 1],
    [6, 8, 4, 11, 8, 6, - 1],
    [3, 6, 11, 3, 0, 6, 0, 4, 6, - 1],
    [8, 6, 11, 8, 4, 6, 9, 0, 1, - 1],
    [9, 4, 6, 9, 6, 3, 9, 3, 1, 11, 3, 6, - 1],
    [6, 8, 4, 6, 11, 8, 2, 10, 1, - 1],
    [1, 2, 10, 3, 0, 11, 0, 6, 11, 0, 4, 6, - 1],
    [4, 11, 8, 4, 6, 11, 0, 2, 9, 2, 10, 9, - 1],
    [10, 9, 3, 10, 3, 2, 9, 4, 3, 11, 3, 6, 4, 6, 3, - 1],
    [8, 2, 3, 8, 4, 2, 4, 6, 2, - 1],
    [0, 4, 2, 4, 6, 2, - 1],
    [1, 9, 0, 2, 3, 4, 2, 4, 6, 4, 3, 8, - 1],
    [1, 9, 4, 1, 4, 2, 2, 4, 6, - 1],
    [8, 1, 3, 8, 6, 1, 8, 4, 6, 6, 10, 1, - 1],
    [10, 1, 0, 10, 0, 6, 6, 0, 4, - 1],
    [4, 6, 3, 4, 3, 8, 6, 10, 3, 0, 3, 9, 10, 9, 3, - 1],
    [10, 9, 4, 6, 10, 4, - 1],
    [4, 9, 5, 7, 6, 11, - 1],
    [0, 8, 3, 4, 9, 5, 11, 7, 6, - 1],
    [5, 0, 1, 5, 4, 0, 7, 6, 11, - 1],
    [11, 7, 6, 8, 3, 4, 3, 5, 4, 3, 1, 5, - 1],
    [9, 5, 4, 10, 1, 2, 7, 6, 11, - 1],
    [6, 11, 7, 1, 2, 10, 0, 8, 3, 4, 9, 5, - 1],
    [7, 6, 11, 5, 4, 10, 4, 2, 10, 4, 0, 2, - 1],
    [3, 4, 8, 3, 5, 4, 3, 2, 5, 10, 5, 2, 11, 7, 6, - 1],
    [7, 2, 3, 7, 6, 2, 5, 4, 9, - 1],
    [9, 5, 4, 0, 8, 6, 0, 6, 2, 6, 8, 7, - 1],
    [3, 6, 2, 3, 7, 6, 1, 5, 0, 5, 4, 0, - 1],
    [6, 2, 8, 6, 8, 7, 2, 1, 8, 4, 8, 5, 1, 5, 8, - 1],
    [9, 5, 4, 10, 1, 6, 1, 7, 6, 1, 3, 7, - 1],
    [1, 6, 10, 1, 7, 6, 1, 0, 7, 8, 7, 0, 9, 5, 4, - 1],
    [4, 0, 10, 4, 10, 5, 0, 3, 10, 6, 10, 7, 3, 7, 10, - 1],
    [7, 6, 10, 7, 10, 8, 5, 4, 10, 4, 8, 10, - 1],
    [6, 9, 5, 6, 11, 9, 11, 8, 9, - 1],
    [3, 6, 11, 0, 6, 3, 0, 5, 6, 0, 9, 5, - 1],
    [0, 11, 8, 0, 5, 11, 0, 1, 5, 5, 6, 11, - 1],
    [6, 11, 3, 6, 3, 5, 5, 3, 1, - 1],
    [1, 2, 10, 9, 5, 11, 9, 11, 8, 11, 5, 6, - 1],
    [0, 11, 3, 0, 6, 11, 0, 9, 6, 5, 6, 9, 1, 2, 10, - 1],
    [11, 8, 5, 11, 5, 6, 8, 0, 5, 10, 5, 2, 0, 2, 5, - 1],
    [6, 11, 3, 6, 3, 5, 2, 10, 3, 10, 5, 3, - 1],
    [5, 8, 9, 5, 2, 8, 5, 6, 2, 3, 8, 2, - 1],
    [9, 5, 6, 9, 6, 0, 0, 6, 2, - 1],
    [1, 5, 8, 1, 8, 0, 5, 6, 8, 3, 8, 2, 6, 2, 8, - 1],
    [1, 5, 6, 2, 1, 6, - 1],
    [1, 3, 6, 1, 6, 10, 3, 8, 6, 5, 6, 9, 8, 9, 6, - 1],
    [10, 1, 0, 10, 0, 6, 9, 5, 0, 5, 6, 0, - 1],
    [0, 3, 8, 5, 6, 10, - 1],
    [10, 5, 6, - 1],
    [11, 5, 10, 7, 5, 11, - 1],
    [11, 5, 10, 11, 7, 5, 8, 3, 0, - 1],
    [5, 11, 7, 5, 10, 11, 1, 9, 0, - 1],
    [10, 7, 5, 10, 11, 7, 9, 8, 1, 8, 3, 1, - 1],
    [11, 1, 2, 11, 7, 1, 7, 5, 1, - 1],
    [0, 8, 3, 1, 2, 7, 1, 7, 5, 7, 2, 11, - 1],
    [9, 7, 5, 9, 2, 7, 9, 0, 2, 2, 11, 7, - 1],
    [7, 5, 2, 7, 2, 11, 5, 9, 2, 3, 2, 8, 9, 8, 2, - 1],
    [2, 5, 10, 2, 3, 5, 3, 7, 5, - 1],
    [8, 2, 0, 8, 5, 2, 8, 7, 5, 10, 2, 5, - 1],
    [9, 0, 1, 5, 10, 3, 5, 3, 7, 3, 10, 2, - 1],
    [9, 8, 2, 9, 2, 1, 8, 7, 2, 10, 2, 5, 7, 5, 2, - 1],
    [1, 3, 5, 3, 7, 5, - 1],
    [0, 8, 7, 0, 7, 1, 1, 7, 5, - 1],
    [9, 0, 3, 9, 3, 5, 5, 3, 7, - 1],
    [9, 8, 7, 5, 9, 7, - 1],
    [5, 8, 4, 5, 10, 8, 10, 11, 8, - 1],
    [5, 0, 4, 5, 11, 0, 5, 10, 11, 11, 3, 0, - 1],
    [0, 1, 9, 8, 4, 10, 8, 10, 11, 10, 4, 5, - 1],
    [10, 11, 4, 10, 4, 5, 11, 3, 4, 9, 4, 1, 3, 1, 4, - 1],
    [2, 5, 1, 2, 8, 5, 2, 11, 8, 4, 5, 8, - 1],
    [0, 4, 11, 0, 11, 3, 4, 5, 11, 2, 11, 1, 5, 1, 11, - 1],
    [0, 2, 5, 0, 5, 9, 2, 11, 5, 4, 5, 8, 11, 8, 5, - 1],
    [9, 4, 5, 2, 11, 3, - 1],
    [2, 5, 10, 3, 5, 2, 3, 4, 5, 3, 8, 4, - 1],
    [5, 10, 2, 5, 2, 4, 4, 2, 0, - 1],
    [3, 10, 2, 3, 5, 10, 3, 8, 5, 4, 5, 8, 0, 1, 9, - 1],
    [5, 10, 2, 5, 2, 4, 1, 9, 2, 9, 4, 2, - 1],
    [8, 4, 5, 8, 5, 3, 3, 5, 1, - 1],
    [0, 4, 5, 1, 0, 5, - 1],
    [8, 4, 5, 8, 5, 3, 9, 0, 5, 0, 3, 5, - 1],
    [9, 4, 5, - 1],
    [4, 11, 7, 4, 9, 11, 9, 10, 11, - 1],
    [0, 8, 3, 4, 9, 7, 9, 11, 7, 9, 10, 11, - 1],
    [1, 10, 11, 1, 11, 4, 1, 4, 0, 7, 4, 11, - 1],
    [3, 1, 4, 3, 4, 8, 1, 10, 4, 7, 4, 11, 10, 11, 4, - 1],
    [4, 11, 7, 9, 11, 4, 9, 2, 11, 9, 1, 2, - 1],
    [9, 7, 4, 9, 11, 7, 9, 1, 11, 2, 11, 1, 0, 8, 3, - 1],
    [11, 7, 4, 11, 4, 2, 2, 4, 0, - 1],
    [11, 7, 4, 11, 4, 2, 8, 3, 4, 3, 2, 4, - 1],
    [2, 9, 10, 2, 7, 9, 2, 3, 7, 7, 4, 9, - 1],
    [9, 10, 7, 9, 7, 4, 10, 2, 7, 8, 7, 0, 2, 0, 7, - 1],
    [3, 7, 10, 3, 10, 2, 7, 4, 10, 1, 10, 0, 4, 0, 10, - 1],
    [1, 10, 2, 8, 7, 4, - 1],
    [4, 9, 1, 4, 1, 7, 7, 1, 3, - 1],
    [4, 9, 1, 4, 1, 7, 0, 8, 1, 8, 7, 1, - 1],
    [4, 0, 3, 7, 4, 3, - 1],
    [4, 8, 7, - 1],
    [9, 10, 8, 10, 11, 8, - 1],
    [3, 0, 9, 3, 9, 11, 11, 9, 10, - 1],
    [0, 1, 10, 0, 10, 8, 8, 10, 11, - 1],
    [3, 1, 10, 11, 3, 10, - 1],
    [1, 2, 11, 1, 11, 9, 9, 11, 8, - 1],
    [3, 0, 9, 3, 9, 11, 1, 2, 9, 2, 11, 9, - 1],
    [0, 2, 11, 8, 0, 11, - 1],
    [3, 2, 11, - 1],
    [2, 3, 8, 2, 8, 10, 10, 8, 9, - 1],
    [9, 10, 2, 0, 9, 2, - 1],
    [2, 3, 8, 2, 8, 10, 0, 1, 8, 1, 10, 8, - 1],
    [1, 10, 2, - 1],
    [1, 3, 8, 9, 1, 8, - 1],
    [0, 9, 1, - 1],
    [0, 3, 8, - 1],
    [- 1]]"

definition EDGE_CORNERS :: "(nat \<times> nat) list" where
  "EDGE_CORNERS = [
    (0, 1), (1, 2), (2, 3), (3, 0),
    (4, 5), (5, 6), (6, 7), (7, 4),
    (0, 4), (1, 5), (2, 6), (3, 7)]"

definition CORNER_OFFSETS :: "(nat \<times> nat \<times> nat) list" where
  "CORNER_OFFSETS = [
    (0, 0, 0), (1, 0, 0), (1, 0, 1), (0, 0, 1),
    (0, 1, 0), (1, 1, 0), (1, 1, 1), (0, 1, 1)]"

definition mcInterpolate :: "vec3 \<Rightarrow> vec3 \<Rightarrow> real \<Rightarrow> real \<Rightarrow> real \<Rightarrow> vec3" where
  "mcInterpolate p1 p2 v1 v2 threshold =
    (if \<bar>v1 - threshold\<bar> < 1 / 100000 then p1
     else if \<bar>v2 - threshold\<bar> < 1 / 100000 then p2
     else if \<bar>v1 - v2\<bar> < 1 / 100000 then p1
     else
       let mu = (threshold - v1) / (v2 - v1) in
       case p1 of (p10, p11, p12) \<Rightarrow> case p2 of (p20, p21, p22) \<Rightarrow>
         (p10 + mu * (p20 - p10), p11 + mu * (p21 - p11), p12 + mu * (p22 - p12)))"

text \<open>A loop whose body may fail stops at the first failure.\<close>

fun foldE :: "('a \<Rightarrow> 's \<Rightarrow> error + 's) \<Rightarrow> 'a list \<Rightarrow> 's \<Rightarrow> error + 's" where
  "foldE f [] s = Inr s"
| "foldE f (x # xs) s = (case f x s of Inl e \<Rightarrow> Inl e | Inr s' \<Rightarrow> foldE f xs s')"

text \<open>
  \<^verbatim>\<open>processCell\<close> appends to the arrays \<^verbatim>\<open>vertices\<close> and \<^verbatim>\<open>triangles\<close> and adds to the
  \<^verbatim>\<open>Map\<close> \<^verbatim>\<open>edgeVertexMap\<close>; the model passes the three in and returns them. An entry of
  \<^verbatim>\<open>edgeVerts\<close> that was never written is \<^verbatim>\<open>undefined\<close>, here \<open>None\<close>, and so is a
  vertex index of a triangle read from such an entry. A sample read beyond the field
  array would be \<^verbatim>\<open>undefined\<close> and turn the interpolated position into \<^verbatim>\<open>NaN\<close>, which a
  real number cannot carry: the model stops there with \<open>NotANumber\<close>
  (\<^verbatim>\<open>marchingCubes\<close> reads below \<open>n\<^sup>3\<close> only, the length of the array \<^verbatim>\<open>evaluateField\<close>
  makes), and so it does at a sample that is infinite. The edge keys are exact integers, as they are in the source while
  \<open>n\<^sup>6 < 2\<^sup>5\<^sup>3\<close>.
\<close>

type_synonym otri = "nat option \<times> nat option \<times> nat option"
type_synonym mc_state = "vec3 list \<times> otri list \<times> (nat \<rightharpoonup> nat)"

text \<open>The first loop of \<^verbatim>\<open>processCell\<close>: the eight corners of the cell.\<close>

definition corner_step ::
  "nat \<Rightarrow> nat \<Rightarrow> nat \<Rightarrow> num list \<Rightarrow> nat \<Rightarrow> vec3 \<Rightarrow> real \<Rightarrow> real \<Rightarrow> nat \<Rightarrow>
     real list \<times> vec3 list \<times> int \<Rightarrow> error + (real list \<times> vec3 list \<times> int)" where
  "corner_step ix iy iz field n gridMin cellSize threshold c acc =
    (case acc of (cornerVals, cornerPos, cubeIndex) \<Rightarrow>
     case gridMin of (gridMin0, gridMin1, gridMin2) \<Rightarrow>
     case CORNER_OFFSETS ! c of (o0, o1, o2) \<Rightarrow>
     let cx = ix + o0;
         cy = iy + o1;
         cz = iz + o2;
         k = (cz * n + cy) * n + cx
     in if k < length field then
          (case field ! k of
             Fin val \<Rightarrow>
               Inr (cornerVals @ [val],
                    cornerPos @ [(gridMin0 + real cx * cellSize,
                                  gridMin1 + real cy * cellSize,
                                  gridMin2 + real cz * cellSize)],
                    if val \<ge> threshold then cubeIndex OR push_bit c 1 else cubeIndex)
           | _ \<Rightarrow> Inl NotANumber)
        else Inl NotANumber)"

text \<open>The second loop: one pass for edge \<open>e\<close>.\<close>

definition edge_step ::
  "nat \<Rightarrow> nat \<Rightarrow> nat \<Rightarrow> nat \<Rightarrow> real list \<Rightarrow> vec3 list \<Rightarrow> real \<Rightarrow> int \<Rightarrow> nat \<Rightarrow>
     vec3 list \<times> (nat \<rightharpoonup> nat) \<times> nat option list \<Rightarrow>
     vec3 list \<times> (nat \<rightharpoonup> nat) \<times> nat option list" where
  "edge_step ix iy iz n cornerVals cornerPos threshold edges e acc =
    (case acc of (vertices, edgeVertexMap, edgeVerts) \<Rightarrow>
     if edges AND push_bit e 1 = 0 then acc
     else
       case EDGE_CORNERS ! e of (c1, c2) \<Rightarrow>
       case CORNER_OFFSETS ! c1 of (a0, a1, a2) \<Rightarrow>
       case CORNER_OFFSETS ! c2 of (b0, b1, b2) \<Rightarrow>
       let g1x = ix + a0; g1y = iy + a1; g1z = iz + a2;
           g2x = ix + b0; g2y = iy + b1; g2z = iz + b2;
           a = (g1z * n + g1y) * n + g1x;
           b = (g2z * n + g2y) * n + g2x;
           key = (if a < b then a * n * n * n + b else b * n * n * n + a)
       in case edgeVertexMap key of
            Some idx \<Rightarrow> (vertices, edgeVertexMap, edgeVerts[e := Some idx])
          | None \<Rightarrow>
              let pos = mcInterpolate (cornerPos ! c1) (cornerPos ! c2)
                          (cornerVals ! c1) (cornerVals ! c2) threshold;
                  idx = length vertices
              in (vertices @ [pos], edgeVertexMap(key \<mapsto> idx), edgeVerts[e := Some idx]))"

text \<open>The third loop: the rows of \<^verbatim>\<open>TRI_TABLE\<close> are read three entries at a time up to the
  first \<open>-1\<close>; an entry beyond the row is \<^verbatim>\<open>undefined\<close>, and so is \<^verbatim>\<open>edgeVerts\<close> there.\<close>

definition edge_vert :: "nat option list \<Rightarrow> int option \<Rightarrow> nat option" where
  "edge_vert edgeVerts k =
     (case k of None \<Rightarrow> None
      | Some k \<Rightarrow> if 0 \<le> k \<and> k < int (length edgeVerts) then edgeVerts ! nat k else None)"

fun emit_triangles :: "int list \<Rightarrow> nat option list \<Rightarrow> otri list \<Rightarrow> otri list" where
  "emit_triangles [] edgeVerts triangles = triangles"
| "emit_triangles (t0 # rest) edgeVerts triangles =
     (if t0 = - 1 then triangles
      else emit_triangles (drop 2 rest) edgeVerts
             (triangles @ [(edge_vert edgeVerts (Some t0),
                            edge_vert edgeVerts (if 0 < length rest then Some (rest ! 0) else None),
                            edge_vert edgeVerts (if 1 < length rest then Some (rest ! 1) else None))]))"

definition processCell ::
  "nat \<Rightarrow> nat \<Rightarrow> nat \<Rightarrow> num list \<Rightarrow> nat \<Rightarrow> vec3 \<Rightarrow> real \<Rightarrow> real \<Rightarrow> mc_state \<Rightarrow> error + mc_state" where
  "processCell ix iy iz field n gridMin cellSize threshold st =
    (case st of (vertices, triangles, edgeVertexMap) \<Rightarrow>
     case foldE (corner_step ix iy iz field n gridMin cellSize threshold) [0..<8] ([], [], 0) of
       Inl e \<Rightarrow> Inl e
     | Inr (cornerVals, cornerPos, cubeIndex) \<Rightarrow>
         let edges = EDGE_TABLE ! nat cubeIndex in
         if edges = 0 then Inr st
         else
           case fold (edge_step ix iy iz n cornerVals cornerPos threshold edges) [0..<12]
                  (vertices, edgeVertexMap, replicate 12 None) of
             (vertices', edgeVertexMap', edgeVerts) \<Rightarrow>
               let triList = TRI_TABLE ! nat cubeIndex in
               Inr (vertices', emit_triangles triList edgeVerts triangles, edgeVertexMap'))"

definition marchingCubes ::
  "num list \<Rightarrow> nat \<Rightarrow> vec3 \<Rightarrow> real \<Rightarrow> real \<Rightarrow> error + (vec3 list \<times> otri list)" where
  "marchingCubes field res gridMin cellSize threshold =
    (let n = res + 1 in
     case foldE (\<lambda>iz. foldE (\<lambda>iy. foldE (\<lambda>ix.
              processCell ix iy iz field n gridMin cellSize threshold)
            [0..<res]) [0..<res]) [0..<res] ([], [], Map.empty) of
       Inl e \<Rightarrow> Inl e
     | Inr (vertices, triangles, edgeVertexMap) \<Rightarrow> Inr (vertices, triangles))"

subsection \<open>Normals and the mesh generator\<close>

definition computeMetaballNormals :: "vec3 list \<Rightarrow> ball list \<Rightarrow> vec3 list" where
  "computeMetaballNormals vertices balls =
     map (\<lambda>p. case p of (p0, p1, p2) \<Rightarrow>
            let fg = evalFieldAndGradient p0 p1 p2 balls;
                s = sqrt (fg_gx fg * fg_gx fg + fg_gy fg * fg_gy fg + fg_gz fg * fg_gz fg);
                len = (if s = 0 then 1 else s)
            in (- fg_gx fg / len, - fg_gy fg / len, - fg_gz fg / len))
       vertices"

text \<open>
  The object \<^verbatim>\<open>generateMetaballMesh\<close> returns. A property the object does not have reads
  as \<^verbatim>\<open>undefined\<close>: \<open>None\<close>.
\<close>

record mesh =
  mesh_vertices :: "vec3 list"
  mesh_triangles :: "tri list"
  mesh_normals :: "vec3 list option"

text \<open>\<^verbatim>\<open>Math.min\<close> and \<^verbatim>\<open>Math.max\<close> of a running bound and a finite number.\<close>

fun math_min :: "num \<Rightarrow> real \<Rightarrow> num" where
  "math_min NaN x = NaN"
| "math_min NegInf x = NegInf"
| "math_min (Fin m) x = Fin (min m x)"
| "math_min PosInf x = Fin x"

fun math_max :: "num \<Rightarrow> real \<Rightarrow> num" where
  "math_max NaN x = NaN"
| "math_max NegInf x = Fin x"
| "math_max (Fin m) x = Fin (max m x)"
| "math_max PosInf x = PosInf"

definition ball_bounds :: "ball \<Rightarrow> num3 \<times> num3 \<Rightarrow> num3 \<times> num3" where
  "ball_bounds b acc =
    (case acc of ((minX, minY, minZ), (maxX, maxY, maxZ)) \<Rightarrow>
     let r = ball_radius b * (3 / 2) in
     ((math_min minX (ball_x b - r), math_min minY (ball_y b - r), math_min minZ (ball_z b - r)),
      (math_max maxX (ball_x b + r), math_max maxY (ball_y b + r), math_max maxZ (ball_z b + r))))"

definition defined_tri :: "otri \<Rightarrow> tri option" where
  "defined_tri t = (case t of (Some a, Some b, Some c) \<Rightarrow> Some (a, b, c) | _ \<Rightarrow> None)"

text \<open>
  \<^verbatim>\<open>generateMetaballMesh(balls, res, threshold)\<close>. The six bounds start at
  \<open>\<plusminus>\<close>\<^verbatim>\<open>Infinity\<close> and are finite after the first pass of the loop, which a non-empty
  list has; the grid is computed from them as real numbers. A triangle with an
  \<^verbatim>\<open>undefined\<close> index makes \<^verbatim>\<open>smoothMesh\<close> throw at \<^verbatim>\<open>neighborSets[undefined].add\<close>.
  \<^verbatim>\<open>smoothMesh\<close> changes \<^verbatim>\<open>mesh.vertices\<close> in place; the assignment
  \<^verbatim>\<open>mesh.normals = ...\<close> adds the property to the object that \<^verbatim>\<open>marchingCubes\<close> made.
\<close>

definition generateMetaballMesh :: "ball list \<Rightarrow> nat \<Rightarrow> real \<Rightarrow> error + mesh" where
  "generateMetaballMesh balls res threshold =
    (if length balls = 0
     then Inr \<lparr>mesh_vertices = [(0, 0, 0)], mesh_triangles = [], mesh_normals = None\<rparr>
     else
       case fold ball_bounds balls ((PosInf, PosInf, PosInf), (NegInf, NegInf, NegInf)) of
         ((Fin minX, Fin minY, Fin minZ), (Fin maxX, Fin maxY, Fin maxZ)) \<Rightarrow>
           let span = max (max (maxX - minX) (maxY - minY)) (maxZ - minZ);
               cx = (minX + maxX) * (1 / 2);
               cy = (minY + maxY) * (1 / 2);
               cz = (minZ + maxZ) * (1 / 2);
               half = span * (1 / 2);
               gridMin = (cx - half, cy - half, cz - half);
               cellSize = span / real res;
               field = evaluateField balls gridMin cellSize res
           in (case marchingCubes field res gridMin cellSize threshold of
                 Inl e \<Rightarrow> Inl e
               | Inr (vertices, triangles) \<Rightarrow>
                   (case those (map defined_tri triangles) of
                      None \<Rightarrow> Inl TypeError
                    | Some triangles \<Rightarrow>
                        (case smoothMesh vertices triangles balls threshold 2 of
                           Inl e \<Rightarrow> Inl e
                         | Inr (vertices', triangles') \<Rightarrow>
                             Inr \<lparr>mesh_vertices = vertices', mesh_triangles = triangles',
                                  mesh_normals = Some (computeMetaballNormals vertices' balls)\<rparr>)))
       | _ \<Rightarrow> Inl NotANumber)"

section \<open>Shading of one sample (raytrace.js)\<close>







subsection \<open>The global state and the computations on it\<close>








subsection \<open>The scene\<close>







subsection \<open>Shadow and ambient occlusion\<close>








subsection \<open>The closest hit in the scene\<close>






subsection \<open>The colour of a ray\<close>








subsection \<open>Notions used in the proof of determinism\<close>







section \<open>Properties\<close>

subsection \<open>Comparisons\<close>

lemma js_not_lt_le: "\<not> js_lt a b \<Longrightarrow> a \<noteq> NaN \<Longrightarrow> b \<noteq> NaN \<Longrightarrow> js_le b a"
  unfolding js_le_def by (cases a; cases b) auto


lemma js_lt_NaN [simp]: "\<not> js_lt NaN a" "\<not> js_lt a NaN"
  by (cases a; simp)+

subsection \<open>The ray-triangle test\<close>


lemma unrounded_simps [simp]:
  "fp_add unrounded = ex_add" "fp_sub unrounded = ex_sub"
  "fp_mul unrounded = ex_mul" "fp_div unrounded = ex_div"
  by (simp_all add: unrounded_def)




subsection \<open>The floor of the environment\<close>



text \<open>The colour of a hit is one of the two colours of the tiles.\<close>

lemma checker_color_cases:
  "checker_color fp hx hz = (200, 200, 200) \<or> checker_color fp hx hz = (180, 30, 30)"
  by (simp add: checker_color_def)

text \<open>A coordinate that is \<^verbatim>\<open>NaN\<close> fails the four tests of the bounds.\<close>

lemma off_floor_NaN: "\<not> off_floor NaN NaN"
  by (simp add: off_floor_def js_gt_def)




subsection \<open>Mesh smoothing\<close>

lemma set_set_add: "set (set_add x s) = insert x (set s)"
  by (auto simp: set_add_def)

lemma add_neighbor_ok:
  assumes "nsets_ok N ns" "i < N" "j < N"
  shows "\<exists>ns'. add_neighbor i j ns = Inr ns' \<and> nsets_ok N ns'"
proof -
  from assms have len: "length ns = N" and el: "\<And>s k. s \<in> set ns \<Longrightarrow> k \<in> set s \<Longrightarrow> k < N"
    by (auto simp: nsets_ok_def)
  have "nsets_ok N (ns[i := set_add j (ns ! i)])"
    unfolding nsets_ok_def
  proof (intro conjI ballI)
    show "length (ns[i := set_add j (ns ! i)]) = N" using len by simp
  next
    fix s k assume s: "s \<in> set (ns[i := set_add j (ns ! i)])" and k: "k \<in> set s"
    from s have "s = set_add j (ns ! i) \<or> s \<in> set ns"
      using set_update_subset_insert [of ns i "set_add j (ns ! i)"] by auto
    then show "k < N"
    proof
      assume "s = set_add j (ns ! i)"
      with k have "k = j \<or> k \<in> set (ns ! i)" by (simp add: set_set_add)
      moreover have "ns ! i \<in> set ns" using assms(2) len by simp
      ultimately show ?thesis using assms(3) el by blast
    next
      assume "s \<in> set ns" with k show ?thesis using el by blast
    qed
  qed
  then show ?thesis using assms(2) len by (simp add: add_neighbor_def)
qed

lemma add_triangle_ok:
  assumes "nsets_ok N ns" "t0 < N" "t1 < N" "t2 < N"
  shows "\<exists>ns'. add_triangle (t0, t1, t2) ns = Inr ns' \<and> nsets_ok N ns'"
proof -
  from add_neighbor_ok [OF assms(1) assms(2) assms(3)]
  obtain ns1 where 1: "add_neighbor t0 t1 ns = Inr ns1" "nsets_ok N ns1" by blast
  from add_neighbor_ok [OF 1(2) assms(2) assms(4)]
  obtain ns2 where 2: "add_neighbor t0 t2 ns1 = Inr ns2" "nsets_ok N ns2" by blast
  from add_neighbor_ok [OF 2(2) assms(3) assms(2)]
  obtain ns3 where 3: "add_neighbor t1 t0 ns2 = Inr ns3" "nsets_ok N ns3" by blast
  from add_neighbor_ok [OF 3(2) assms(3) assms(4)]
  obtain ns4 where 4: "add_neighbor t1 t2 ns3 = Inr ns4" "nsets_ok N ns4" by blast
  from add_neighbor_ok [OF 4(2) assms(4) assms(2)]
  obtain ns5 where 5: "add_neighbor t2 t0 ns4 = Inr ns5" "nsets_ok N ns5" by blast
  from add_neighbor_ok [OF 5(2) assms(4) assms(3)]
  obtain ns6 where 6: "add_neighbor t2 t1 ns5 = Inr ns6" "nsets_ok N ns6" by blast
  show ?thesis using 1 2 3 4 5 6 by (simp add: add_triangle_def)
qed

lemma build_neighborSets_ok:
  "nsets_ok N ns \<Longrightarrow> tris_in_range N ts \<Longrightarrow>
     \<exists>ns'. build_neighborSets ts ns = Inr ns' \<and> nsets_ok N ns'"
proof (induction ts arbitrary: ns)
  case Nil
  then show ?case by simp
next
  case (Cons tr ts)
  obtain a b c where tr: "tr = (a, b, c)" by (cases tr) auto
  with Cons.prems have r: "a < N" "b < N" "c < N" and rest: "tris_in_range N ts"
    by (auto simp: tris_in_range_def)
  from add_triangle_ok [OF Cons.prems(1) r]
  obtain ns1 where 1: "add_triangle (a, b, c) ns = Inr ns1" "nsets_ok N ns1" by blast
  from Cons.IH [OF 1(2) rest] 1(1) tr show ?case by simp
qed

lemma neighbor_sum_ok:
  "\<forall>j \<in> set nis. j < length vs \<Longrightarrow> \<exists>s. neighbor_sum vs nis acc = Inr s"
  by (induction nis arbitrary: acc) (auto split: prod.splits)

lemma relax_vertex_length:
  "relax_vertex ns i vs = Inr vs' \<Longrightarrow> length vs' = length vs"
  by (auto simp: relax_vertex_def Let_def split: if_splits sum.splits prod.splits)

lemma relax_vertex_ok:
  assumes "nsets_ok (length vs) ns" "i < length vs"
  shows "\<exists>vs'. relax_vertex ns i vs = Inr vs'"
proof -
  from assms have "\<forall>j \<in> set (ns ! i). j < length vs"
    by (auto simp: nsets_ok_def)
  from neighbor_sum_ok [OF this, of "(0, 0, 0)"]
  show ?thesis by (auto simp: relax_vertex_def Let_def split: prod.splits)
qed

lemma relax_loop_length:
  "relax_loop ns is vs = Inr vs' \<Longrightarrow> length vs' = length vs"
  by (induction "is" arbitrary: vs) (auto split: sum.splits dest: relax_vertex_length)

lemma relax_loop_ok:
  "nsets_ok (length vs) ns \<Longrightarrow> \<forall>i \<in> set is. i < length vs \<Longrightarrow>
     \<exists>vs'. relax_loop ns is vs = Inr vs'"
proof (induction "is" arbitrary: vs)
  case Nil
  then show ?case by simp
next
  case (Cons i "is")
  from relax_vertex_ok [OF Cons.prems(1)] Cons.prems(2)
  obtain vs1 where 1: "relax_vertex ns i vs = Inr vs1" by auto
  then have l: "length vs1 = length vs" by (rule relax_vertex_length)
  from Cons.IH [of vs1] Cons.prems l obtain vs' where "relax_loop ns is vs1 = Inr vs'" by auto
  with 1 show ?case by simp
qed

lemma project_vertex_length: "length (project_vertex balls thr i vs) = length vs"
  by (simp add: project_vertex_def Let_def split: prod.splits)

lemma project_fold_length: "length (fold (project_vertex balls thr) is vs) = length vs"
  by (induction "is" arbitrary: vs) (simp_all add: project_vertex_length)

lemma smooth_iterations_length:
  "smooth_iterations ns balls thr k vs = Inr vs' \<Longrightarrow> length vs' = length vs"
proof (induction k arbitrary: vs)
  case 0
  then show ?case by simp
next
  case (Suc k)
  then show ?case
    by (auto split: sum.splits dest!: relax_loop_length simp: project_fold_length)
qed

lemma smooth_iterations_ok:
  "nsets_ok (length vs) ns \<Longrightarrow> \<exists>vs'. smooth_iterations ns balls thr k vs = Inr vs'"
proof (induction k arbitrary: vs)
  case 0
  then show ?case by simp
next
  case (Suc k)
  from relax_loop_ok [OF Suc.prems, of "[0..<length vs]"]
  obtain vs1 where 1: "relax_loop ns [0..<length vs] vs = Inr vs1" by auto
  then have l: "length vs1 = length vs" by (rule relax_loop_length)
  let ?vs2 = "fold (project_vertex balls thr) [0..<length vs1] vs1"
  have "nsets_ok (length ?vs2) ns" using Suc.prems l by (simp add: project_fold_length)
  from Suc.IH [OF this] 1 show ?case by simp
qed

text \<open>
  Claim C8. \<^verbatim>\<open>smoothMesh\<close> changes vertex positions only: whenever it returns, for any
  mesh, ball list, threshold and iteration count, the triangle array is the one it was
  given and the vertex array has the length it had. It does return on every mesh whose
  triangle indices are all below the vertex count.
\<close>

theorem smoothMesh_keeps_topology:
  "(\<forall>vs' ts'. smoothMesh vertices triangles balls threshold iterations = Inr (vs', ts') \<longrightarrow>
       ts' = triangles \<and> length vs' = length vertices) \<and>
   (tris_in_range (length vertices) triangles \<longrightarrow>
      (\<exists>vs'. smoothMesh vertices triangles balls threshold iterations = Inr (vs', triangles)))"
proof (intro conjI allI impI)
  fix vs' ts'
  assume "smoothMesh vertices triangles balls threshold iterations = Inr (vs', ts')"
  then show "ts' = triangles" "length vs' = length vertices"
    by (auto simp: smoothMesh_def split: sum.splits dest: smooth_iterations_length)
next
  assume r: "tris_in_range (length vertices) triangles"
  have "nsets_ok (length vertices) (replicate (length vertices) [])"
    by (simp add: nsets_ok_def)
  from build_neighborSets_ok [OF this r]
  obtain ns where 1: "build_neighborSets triangles (replicate (length vertices) []) = Inr ns"
      "nsets_ok (length vertices) ns" by blast
  from smooth_iterations_ok [OF 1(2)] obtain vs' where
    "smooth_iterations ns balls threshold iterations vertices = Inr vs'" by blast
  with 1 show "\<exists>vs'. smoothMesh vertices triangles balls threshold iterations = Inr (vs', triangles)"
    by (simp add: smoothMesh_def)
qed

theorem smoothMesh_keeps_topology_witness:
  "tris_in_range (length [(0, 0, 0), (1, 0, 0), (0, 1, 0 :: real)]) [(0, 1, 2)] \<and>
   (\<exists>vs'. smoothMesh [(0, 0, 0), (1, 0, 0), (0, 1, 0)] [(0, 1, 2)] [] 1 2 = Inr (vs', [(0, 1, 2)])
      \<and> length vs' = 3)"
proof -
  have r: "tris_in_range (length [(0, 0, 0), (1, 0, 0), (0, 1, 0 :: real)]) [(0, 1, 2)]"
    by (simp add: tris_in_range_def)
  note t = smoothMesh_keeps_topology [of "[(0, 0, 0), (1, 0, 0), (0, 1, 0)]" "[(0, 1, 2)]" "[]" 1 2]
  from t r obtain vs' where
    1: "smoothMesh [(0, 0, 0), (1, 0, 0), (0, 1, 0)] [(0, 1, 2)] [] 1 2 = Inr (vs', [(0, 1, 2)])"
    by blast
  with t have "length vs' = 3" by auto
  with r 1 show ?thesis by blast
qed

subsection \<open>The two field evaluators\<close>



lemma inner_length [simp]:
  "length (fold (\<lambda>ix fld. fld[base + ix := g ix]) [0..<m] fld) = length fld"
  by (induction m) simp_all

lemma inner_other:
  "k < base \<or> base + m \<le> k \<Longrightarrow>
     fold (\<lambda>ix fld. fld[base + ix := g ix]) [0..<m] fld ! k = fld ! k"
  by (induction m) auto

lemma inner_hit:
  "ix < m \<Longrightarrow> base + m \<le> length fld \<Longrightarrow>
     fold (\<lambda>ix fld. fld[base + ix := (g ix :: 'a)]) [0..<m] fld ! (base + ix) = g ix"
proof (induction m)
  case 0
  then show ?case by simp
next
  case (Suc m)
  show ?case
  proof (cases "ix = m")
    case True
    then show ?thesis using Suc.prems by simp
  next
    case False
    with Suc show ?thesis by simp
  qed
qed

lemma middle_length [simp]:
  "length (fold (row_loop c n g) [0..<m] fld) = length fld"
  by (induction m) simp_all














subsection \<open>Construction of the hierarchy\<close>

declare buildNode.simps [simp del]

lemma length_write_back [simp]: "length (write_back ti s sub) = length ti"
  unfolding write_back_def by (rule inner_length)

lemma write_back_nth:
  assumes "s + length sub \<le> length ti" "k < length ti"
  shows "write_back ti s sub ! k = (if s \<le> k \<and> k < s + length sub then sub ! (k - s) else ti ! k)"
proof (cases "s \<le> k \<and> k < s + length sub")
  case True
  then obtain i where i: "k = s + i" "i < length sub" by (metis le_Suc_ex nat_add_left_cancel_less)
  show ?thesis using True unfolding write_back_def i(1)
    by (simp add: inner_hit [OF i(2) assms(1)])
next
  case False
  then have "k < s \<or> s + length sub \<le> k" by auto
  from inner_other [OF this, of "\<lambda>i. sub ! i" ti] False show ?thesis
    unfolding write_back_def by auto
qed

lemma write_back_eq:
  assumes "s + length sub \<le> length ti"
  shows "write_back ti s sub = take s ti @ sub @ drop (s + length sub) ti"
proof (rule nth_equalityI)
  show "length (write_back ti s sub) = length (take s ti @ sub @ drop (s + length sub) ti)"
    using assms by simp
next
  fix k assume "k < length (write_back ti s sub)"
  then have k: "k < length ti" by simp
  show "write_back ti s sub ! k = (take s ti @ sub @ drop (s + length sub) ti) ! k"
    using assms k by (auto simp: write_back_nth nth_append min_def)
qed

lemma slice_length: "e \<le> length xs \<Longrightarrow> length (slice xs s e) = e - s"
  by (simp add: slice_def)

lemma slice_split:
  assumes "s \<le> m" "m \<le> e"
  shows "slice xs s e = slice xs s m @ slice xs m e"
proof -
  have e: "e - s = (m - s) + (e - m)" using assms by simp
  have d: "m - s + s = m" using assms by simp
  show ?thesis unfolding slice_def e take_add drop_drop d ..
qed

lemma list_decomp:
  assumes "s \<le> e"
  shows "xs = take s xs @ slice xs s e @ drop e xs"
proof -
  have d: "e - s + s = e" using assms by simp
  have "drop s xs = take (e - s) (drop s xs) @ drop (e - s) (drop s xs)"
    by (rule append_take_drop_id [symmetric])
  then have "drop s xs = slice xs s e @ drop e xs" unfolding slice_def drop_drop d .
  then have "take s xs @ drop s xs = take s xs @ slice xs s e @ drop e xs" by simp
  then show ?thesis by simp
qed

lemma slice_of_parts:
  "length a = s \<Longrightarrow> length b = e - s \<Longrightarrow> s \<le> e \<Longrightarrow> slice (a @ b @ c) s e = b"
  by (simp add: slice_def)

lemma tri_corners_eq:
  "tri_corners wv tris k =
     (if tri_ok wv tris k
      then Inr (case tris ! k of (t0, t1, t2) \<Rightarrow> (wv ! t0, wv ! t1, wv ! t2))
      else Inl TypeError)"
  by (auto simp: tri_corners_def tri_ok_def split: prod.splits)

lemma aabb_loop_eq:
  "aabb_loop wv tris ti is b =
     (if \<forall>i \<in> set is. i < length ti \<and> tri_ok wv tris (ti_idx (ti ! i))
      then Inr (fold (grow_tri wv tris) (map (\<lambda>i. ti_idx (ti ! i)) is) b)
      else Inl TypeError)"
proof (induction "is" arbitrary: b)
  case Nil
  then show ?case by simp
next
  case (Cons i "is")
  show ?case
  proof (cases "i < length ti \<and> tri_ok wv tris (ti_idx (ti ! i))")
    case True
    obtain t0 t1 t2 where t: "tris ! ti_idx (ti ! i) = (t0, t1, t2)"
      by (cases "tris ! ti_idx (ti ! i)") auto
    have c: "tri_corners wv tris (ti_idx (ti ! i)) = Inr (wv ! t0, wv ! t1, wv ! t2)"
      using True t by (simp add: tri_corners_eq)
    have g: "grow_tri wv tris (ti_idx (ti ! i)) b = grow (wv ! t2) (grow (wv ! t1) (grow (wv ! t0) b))"
      using t by (simp add: grow_tri_def)
    show ?thesis using True by (simp add: c Cons.IH g)
  next
    case False
    then show ?thesis by (auto simp: tri_corners_eq)
  qed
qed

lemma slice_map_nth: "e \<le> length xs \<Longrightarrow> map ((!) xs) [s..<e] = slice xs s e"
  by (rule nth_equalityI) (auto simp: slice_def)

lemma box_of_fold: "box_of wv tris ks =
   fold (grow_tri wv tris) ks ((PosInf, PosInf, PosInf), (NegInf, NegInf, NegInf))"
  unfolding box_of_def grow_tri_def ..

lemma range_ok_le:
  assumes "range_ok wv tris ti s e" "s < e"
  shows "e \<le> length ti"
proof -
  from assms(2) have "s \<le> e - 1" "e - 1 < e" by simp_all
  with assms(1) have "e - 1 < length ti" unfolding range_ok_def by blast
  then show ?thesis by simp
qed

lemma computeTriangleAABB_eq:
  "computeTriangleAABB wv tris ti s e =
     (if range_ok wv tris ti s e
      then Inr (box_of wv tris (map ti_idx (slice ti s e)))
      else Inl TypeError)"
proof (cases "range_ok wv tris ti s e")
  case True
  show ?thesis
  proof (cases "s < e")
    case lt: True
    with True have "e \<le> length ti" by (intro range_ok_le)
    from slice_map_nth [OF this, of s]
    have "map ti_idx (slice ti s e) = map ti_idx (map ((!) ti) [s..<e])" by simp
    then have "map (\<lambda>i. ti_idx (ti ! i)) [s..<e] = map ti_idx (slice ti s e)"
      by (simp add: o_def)
    with True show ?thesis
      by (simp add: computeTriangleAABB_def aabb_loop_eq box_of_fold range_ok_def)
  next
    case False
    with True show ?thesis
      by (simp add: computeTriangleAABB_def box_of_fold slice_def)
  qed
next
  case False
  then show ?thesis 
    by (auto simp add: computeTriangleAABB_def aabb_loop_eq range_ok_def)
qed

lemma buildNode_unfold:
  "buildNode wv tris s e (ti, nodes) =
    (case computeTriangleAABB wv tris ti s e of
       Inl er \<Rightarrow> Inl er
     | Inr box \<Rightarrow>
         if e = s + 1 then
           (if s < length ti
            then Inr (length nodes, (ti, nodes @ [Some (leaf_node box (ti_idx (ti ! s)))]))
            else Inl TypeError)
         else if e \<le> s \<or> split_mid s e \<le> int s \<or> int e \<le> split_mid s e then Inl RangeError
         else
           (case buildNode wv tris s (nat (split_mid s e))
                   (write_back ti s (sort_key (split_key box) (slice ti s e)), nodes @ [None]) of
              Inl er \<Rightarrow> Inl er
            | Inr (li, st1) \<Rightarrow>
                (case buildNode wv tris (nat (split_mid s e)) e st1 of
                   Inl er \<Rightarrow> Inl er
                 | Inr (ri, (ti2, nodes2)) \<Rightarrow>
                     Inr (length nodes, (ti2, nodes2[length nodes := Some (inner_node box li ri)])))))"
proof -
  have e1: "(int e - int s = 1) = (e = s + 1)" by auto
  show ?thesis
  proof (cases "computeTriangleAABB wv tris ti s e")
    case (Inl er)
    then show ?thesis by (subst buildNode.simps) (simp add: Let_def)
  next
    case (Inr box)
    obtain a b c d e' f where box: "box = ((a, b, c), (d, e', f))"
      by (metis prod.exhaust)
    show ?thesis
      apply (subst buildNode.simps)
      apply (simp only: Let_def e1 Inr box sum.case prod.case leaf_node_def inner_node_def
          split_key_def split_mid_def fst_conv snd_conv)
      apply simp
      done
  qed
qed

lemma toInt32_id: "- (2 ^ 31) \<le> k \<Longrightarrow> k < 2 ^ 31 \<Longrightarrow> toInt32 k = k"
  unfolding toInt32_def by (simp add: mod_pos_pos_trivial)

lemma take_eq_mono: "take m a = take m b \<Longrightarrow> s \<le> m \<Longrightarrow> take s a = take s b"
  by (metis min.absorb_iff1 take_take)

lemma drop_eq_mono: "drop m a = drop m b \<Longrightarrow> m \<le> e \<Longrightarrow> drop e a = drop e b"
  by (metis drop_drop le_add_diff_inverse2)

lemma slice_cong_take:
  assumes "take m a = take m b" "e \<le> m"
  shows "slice a s e = slice b s e"
proof -
  have "slice a s e = drop s (take e a)" for a :: "'a list"
    unfolding slice_def by (cases "s \<le> e") (simp_all add: drop_take)
  then show ?thesis using take_eq_mono [OF assms] by simp
qed

lemma slice_cong_drop:
  assumes "drop m a = drop m b" "m \<le> s"
  shows "slice a s e = slice b s e"
  unfolding slice_def using drop_eq_mono [OF assms] by simp

lemma grow_components:
  "grow (x, y, z) ((a, b, c), (d, e, f)) =
     ((gmin x a, gmin y b, gmin z c), (gmax x d, gmax y e, gmax z f))"
  by (simp add: grow_def gmin_def gmax_def)

lemma lo_ok_gmin: "lo_ok X m \<Longrightarrow> lo_ok (insert x X) (gmin x m)"
  unfolding lo_ok_def gmin_def js_le_def
  by (cases m) (auto split: if_splits)

lemma hi_ok_gmax: "hi_ok X m \<Longrightarrow> hi_ok (insert x X) (gmax x m)"
  unfolding hi_ok_def gmax_def js_le_def js_gt_def
  by (cases m) (auto split: if_splits)

lemma lo_ok_mono: "lo_ok X m \<Longrightarrow> lo_ok Y m' \<Longrightarrow> X \<subseteq> Y \<Longrightarrow> js_ge m m'"
  unfolding lo_ok_def js_ge_def js_le_def
  by (cases m; cases m') auto

lemma hi_ok_mono: "hi_ok X m \<Longrightarrow> hi_ok Y m' \<Longrightarrow> X \<subseteq> Y \<Longrightarrow> js_le m m'"
  unfolding hi_ok_def js_le_def
  by (cases m; cases m') auto

lemma box_ok_grow: "box_ok V b \<Longrightarrow> box_ok (insert v V) (grow v b)"
proof -
  assume a: "box_ok V b"
  obtain x y z where v: "v = (x, y, z)" by (metis prod.exhaust)
  obtain a1 b1 c1 d1 e1 f1 where b: "b = ((a1, b1, c1), (d1, e1, f1))" by (metis prod.exhaust)
  show ?thesis using a unfolding v b grow_components box_ok_def
    by (simp add: lo_ok_gmin hi_ok_gmax)
qed

lemma box_ok_grow_tri:
  assumes "box_ok V b"
  shows "box_ok (V \<union> corner_set wv tris [k]) (grow_tri wv tris k b)"
proof -
  obtain t0 t1 t2 where t: "tris ! k = (t0, t1, t2)" by (metis prod.exhaust)
  have "box_ok (insert (wv ! t2) (insert (wv ! t1) (insert (wv ! t0) V)))
          (grow (wv ! t2) (grow (wv ! t1) (grow (wv ! t0) b)))"
    by (intro box_ok_grow assms)
  moreover have "insert (wv ! t2) (insert (wv ! t1) (insert (wv ! t0) V)) = V \<union> corner_set wv tris [k]"
    by (auto simp: corner_set_def t)
  ultimately show ?thesis by (simp add: grow_tri_def t)
qed

lemma corner_set_Cons:
  "corner_set wv tris (k # ks) = corner_set wv tris [k] \<union> corner_set wv tris ks"
  by (simp add: corner_set_def)

lemma box_ok_fold:
  "box_ok V b \<Longrightarrow> box_ok (V \<union> corner_set wv tris ks) (fold (grow_tri wv tris) ks b)"
proof (induction ks arbitrary: V b)
  case Nil
  then show ?case by (simp add: corner_set_def)
next
  case (Cons k ks)
  from Cons.IH [OF box_ok_grow_tri [OF Cons.prems, of wv tris k]]
  show ?case by (simp add: corner_set_Cons [of wv tris k ks] Un_assoc)
qed

lemma box_ok_box_of: "box_ok (corner_set wv tris ks) (box_of wv tris ks)"
proof -
  have "box_ok {} ((PosInf, PosInf, PosInf), (NegInf, NegInf, NegInf))"
    by (simp add: box_ok_def lo_ok_def hi_ok_def)
  from box_ok_fold [OF this, of wv tris ks] show ?thesis by (simp add: box_of_fold)
qed

lemma box_ok_inside:
  assumes "box_ok V b" "box_ok V' b'" "V \<subseteq> V'"
  shows "box_inside b b'"
proof -
  obtain a1 b1 c1 d1 e1 f1 where b: "b = ((a1, b1, c1), (d1, e1, f1))" by (metis prod.exhaust)
  obtain a2 b2 c2 d2 e2 f2 where b': "b' = ((a2, b2, c2), (d2, e2, f2))" by (metis prod.exhaust)
  have i: "f ` V \<subseteq> f ` V'" for f :: "vec3 \<Rightarrow> real" using assms(3) by auto
  show ?thesis using assms(1,2) unfolding b b' box_ok_def box_inside_def
    by (auto intro: lo_ok_mono [OF _ _ i] hi_ok_mono [OF _ _ i])
qed

lemma box_of_mono:
  assumes "set ks \<subseteq> set ks'"
  shows "box_inside (box_of wv tris ks) (box_of wv tris ks')"
proof -
  have "corner_set wv tris ks \<subseteq> corner_set wv tris ks'"
    using assms by (auto simp: corner_set_def)
  from box_ok_inside [OF box_ok_box_of box_ok_box_of this] show ?thesis .
qed

lemma half_pow:
  fixes n h :: nat
  assumes "2 \<le> n" "n \<le> 2 ^ h"
  shows "1 \<le> h" "n div 2 \<le> 2 ^ (h - 1)" "n - n div 2 \<le> 2 ^ (h - 1)"
proof -
  show h: "1 \<le> h" using assms by (cases h) auto
  then obtain h' where h': "h = Suc h'" by (cases h) auto
  from assms(2) have "n \<le> 2 * 2 ^ h'" by (simp add: h')
  then show "n div 2 \<le> 2 ^ (h - 1)" "n - n div 2 \<le> 2 ^ (h - 1)" by (auto simp: h')
qed

lemma split_mid_small:
  assumes "s < e" "e - s < 2 ^ 31"
  shows "split_mid s e = int (s + (e - s) div 2)"
proof -
  have "toInt32 (int e - int s) = int e - int s"
    using assms by (intro toInt32_id) auto
  then show ?thesis using assms unfolding split_mid_def by (simp add: zdiv_int of_nat_diff)
qed

lemma buildNode_built:
  "buildNode wv tris s e (ti, nodes) = Inr (idx, (ti', nodes')) \<Longrightarrow>
     idx = length nodes \<and> (\<exists>t. built wv tris s e ti nodes ti' nodes' t)"
proof (induction "e - s" arbitrary: s e ti nodes idx ti' nodes' rule: less_induct)
  case less
  note eq = less.prems [unfolded buildNode_unfold [of wv tris s e ti nodes]]
  from eq obtain box where box: "computeTriangleAABB wv tris ti s e = Inr box"
    by (auto split: sum.splits)
  from box have rok: "range_ok wv tris ti s e"
    and bx: "box = box_of wv tris (map ti_idx (slice ti s e))"
    by (auto simp: computeTriangleAABB_eq split: if_splits)
  show ?case
  proof (cases "e = s + 1")
    case True
    with eq box have sl: "s < length ti" and idx: "idx = length nodes" and ti': "ti' = ti"
      and nodes': "nodes' = nodes @ [Some (leaf_node box (ti_idx (ti ! s)))]"
      by (auto split: if_splits)
    have sli: "slice ti s e = [ti ! s]"
      using sl True by (simp add: slice_def take_Suc_conv_app_nth [of 0] hd_drop_conv_nth take_Suc)
    let ?t = "Leaf (leaf_node box (ti_idx (ti ! s)))"
    have "built wv tris s e ti nodes ti' nodes' ?t"
      unfolding built_def using True sl ti' nodes' sli bx
      by (simp add: leaf_node_def node_box_def)
    with idx show ?thesis by blast
  next
    case False
    let ?m = "nat (split_mid s e)"
    let ?sub = "sort_key (split_key box) (slice ti s e)"
    let ?ti0 = "write_back ti s ?sub"
    from eq box False have guard: "s < e" "int s < split_mid s e" "split_mid s e < int e"
      by (auto split: if_splits)
    then have m: "s < ?m" "?m < e" by auto
    from eq box False guard obtain li ti1 nodes1 ri nodes2 where
      L: "buildNode wv tris s ?m (?ti0, nodes @ [None]) = Inr (li, (ti1, nodes1))" and
      R: "buildNode wv tris ?m e (ti1, nodes1) = Inr (ri, (ti', nodes2))" and
      idx: "idx = length nodes" and
      nodes': "nodes' = nodes2[length nodes := Some (inner_node box li ri)]"
      by (auto split: if_splits sum.splits prod.splits)
    have dl: "?m - s < e - s" and dr': "e - ?m < e - s" using m by simp_all
    from less.hyps [OF dl L] obtain tl where
      li: "li = Suc (length nodes)" and
      bl: "built wv tris s ?m ?ti0 (nodes @ [None]) ti1 nodes1 tl" by auto
    from less.hyps [OF dr' R] obtain tr where
      ri: "ri = length nodes1" and
      br: "built wv tris ?m e ti1 nodes1 ti' nodes2 tr" by auto
    \<comment> \<open>the sorted range\<close>
    from rok guard(1) have e_le: "e \<le> length ti" by (rule range_ok_le)
    have len_sub: "length ?sub = e - s" using e_le by (simp add: slice_length)
    have s_sub: "s + length ?sub = e" using len_sub guard(1) by simp
    have ti0: "?ti0 = take s ti @ ?sub @ drop e ti"
      using write_back_eq [of s ?sub ti] e_le s_sub by simp
    have len0: "length ?ti0 = length ti" by simp
    have sl0: "slice ?ti0 s e = ?sub"
      unfolding ti0 using e_le guard(1) len_sub by (intro slice_of_parts) simp_all
    have tk0: "take s ?ti0 = take s ti" unfolding ti0 using e_le guard(1) by simp
    have dr0: "drop e ?ti0 = drop e ti" unfolding ti0 using e_le guard(1) len_sub by simp
    \<comment> \<open>facts of the two recursive calls\<close>
    note bl' = bl [unfolded built_def]
    note br' = br [unfolded built_def]
    have len1: "length ti1 = length ti" using bl' len0 by simp
    have len2: "length ti' = length ti" using br' len1 by simp
    have tk1: "take s ti1 = take s ?ti0" using bl' by simp
    have dr1: "drop ?m ti1 = drop ?m ?ti0" using bl' by simp
    have tk2: "take ?m ti' = take ?m ti1" using br' by simp
    have dr2: "drop e ti' = drop e ti1" using br' by simp
    have sl_l: "slice ti' s ?m = slice ti1 s ?m" by (rule slice_cong_take [OF tk2]) simp
    have sl_r: "slice ti1 ?m e = slice ?ti0 ?m e" by (rule slice_cong_drop [OF dr1]) simp
    have split2: "slice ti' s e = slice ti' s ?m @ slice ti' ?m e"
      using m by (intro slice_split) simp_all
    have split0: "slice ?ti0 s e = slice ?ti0 s ?m @ slice ?ti0 ?m e"
      using m by (intro slice_split) simp_all
    have ms: "mset (slice ti' s e) = mset (slice ti s e)"
    proof -
      have "mset (slice ti' s e) = mset (slice ti1 s ?m) + mset (slice ti' ?m e)"
        unfolding split2 sl_l by simp
      also have "\<dots> = mset (slice ?ti0 s ?m) + mset (slice ?ti0 ?m e)"
        using bl' br' sl_r by simp
      also have "\<dots> = mset (slice ?ti0 s e)" unfolding split0 by simp
      also have "\<dots> = mset (slice ti s e)" unfolding sl0 by simp
      finally show ?thesis .
    qed
    have tk: "take s ti' = take s ti"
      using take_eq_mono [OF tk2, of s] m tk1 tk0 by simp
    have dr: "drop e ti' = drop e ti"
      using drop_eq_mono [OF dr1, of e] m dr2 dr0 by simp
    let ?t = "Inner (inner_node box li ri) tl tr"
    have n1: "nodes1 = (nodes @ [None]) @ map Some (preorder tl)" using bl' by simp
    have n2: "nodes2 = nodes1 @ map Some (preorder tr)" using br' by simp
    have nodes_eq: "nodes' = nodes @ map Some (preorder ?t)"
      unfolding nodes' n2 n1 by (simp add: list_update_append)
    have wl: "wf_at (Suc (length nodes)) tl" using bl' by simp
    have wr: "wf_at (length nodes1) tr" using br' by blast
    have ln1: "length nodes1 = Suc (length nodes) + length (preorder tl)" unfolding n1 by simp
    have wf: "wf_at (length nodes) ?t"
      using wl wr [unfolded ln1] by (simp add: inner_node_def li ri ln1)
    have lv: "leaves ?t = map (\<lambda>i. int (ti_idx i)) (slice ti' s e)"
      unfolding split2 using bl' br' sl_l by simp
    have rb: "node_box (root_node ?t) = box_of wv tris (map ti_idx (slice ti s e))"
      using bx by (simp add: inner_node_def node_box_def)
    have set0: "set (slice ?ti0 s e) = set (slice ti s e)" unfolding sl0 by simp
    have rbl: "node_box (root_node tl) = box_of wv tris (map ti_idx (slice ?ti0 s ?m))"
      using bl' by blast
    have rbr: "node_box (root_node tr) = box_of wv tris (map ti_idx (slice ti1 ?m e))"
      using br' by blast
    have bnl: "box_nested tl" using bl' by blast
    have bnr: "box_nested tr" using br' by blast
    have bn: "box_nested ?t"
    proof -
      have "set (slice ?ti0 s ?m) \<subseteq> set (slice ti s e)"
        using set0 unfolding split0 by auto
      then have "set (map ti_idx (slice ?ti0 s ?m)) \<subseteq> set (map ti_idx (slice ti s e))"
        by auto
      from box_of_mono [OF this, of wv tris]
      have 1: "box_inside (node_box (root_node tl)) box" by (simp only: rbl bx)
      have "set (slice ti1 ?m e) \<subseteq> set (slice ti s e)"
        using set0 unfolding split0 sl_r by auto
      then have "set (map ti_idx (slice ti1 ?m e)) \<subseteq> set (map ti_idx (slice ti s e))"
        by auto
      from box_of_mono [OF this, of wv tris]
      have 2: "box_inside (node_box (root_node tr)) box" by (simp only: rbr bx)
      have "node_box (inner_node box li ri) = box" by (simp add: node_box_def inner_node_def)
      with 1 2 bnl bnr show ?thesis by simp
    qed
    have lpl: "length (preorder tl) = 2 * (?m - s) - 1" using bl' by blast
    have lpr: "length (preorder tr) = 2 * (e - ?m) - 1" using br' by blast
    have lp: "length (preorder ?t) = 2 * (e - s) - 1"
      using m by (simp add: lpl lpr)
    have ht: "e - s < 2 ^ 31 \<longrightarrow> (\<forall>h. e - s \<le> 2 ^ h \<longrightarrow> height ?t \<le> h)"
    proof (intro impI allI)
      fix h assume small: "e - s < 2 ^ 31" and h: "e - s \<le> 2 ^ h"
      from split_mid_small [OF guard(1) small] have mid: "?m = s + (e - s) div 2" by simp
      from m have two: "2 \<le> e - s" by simp
      note hp = half_pow [OF two h]
      have "?m - s \<le> 2 ^ (h - 1)" using hp(2) mid by simp
      moreover have "?m - s < 2 ^ 31" using small m by simp
      ultimately have hl: "height tl \<le> h - 1" using bl' by blast
      have "e - ?m \<le> 2 ^ (h - 1)" using hp(3) mid m by simp
      moreover have "e - ?m < 2 ^ 31" using small m by simp
      ultimately have hr: "height tr \<le> h - 1" using br' by blast
      from hl hr hp(1) show "height ?t \<le> h" by simp
    qed
    have "built wv tris s e ti nodes ti' nodes' ?t"
      unfolding built_def
      using guard(1) e_le len2 tk dr ms nodes_eq wf lv rb bn lp ht by blast
    with idx show ?thesis by blast
  qed
qed

lemma slice_nth_mem:
  assumes "s \<le> i" "i < e" "e \<le> length xs"
  shows "xs ! i \<in> set (slice xs s e)"
proof -
  have "slice xs s e ! (i - s) = xs ! i" using assms by (simp add: slice_def)
  moreover have "i - s < length (slice xs s e)" using assms by (simp add: slice_def)
  ultimately show ?thesis by (metis nth_mem)
qed

lemma range_okI:
  assumes "e \<le> length ti" "\<forall>x \<in> set (slice ti s e). tri_ok wv tris (ti_idx x)"
  shows "range_ok wv tris ti s e"
  unfolding range_ok_def using assms slice_nth_mem [of s _ e ti] by auto

lemma buildNode_total:
  "s < e \<Longrightarrow> e - s < 2 ^ 31 \<Longrightarrow> e \<le> length ti \<Longrightarrow>
   \<forall>x \<in> set (slice ti s e). tri_ok wv tris (ti_idx x) \<Longrightarrow>
   \<exists>idx ti' nodes'. buildNode wv tris s e (ti, nodes) = Inr (idx, (ti', nodes'))"
proof (induction "e - s" arbitrary: s e ti nodes rule: less_induct)
  case less
  let ?box = "box_of wv tris (map ti_idx (slice ti s e))"
  have box: "computeTriangleAABB wv tris ti s e = Inr ?box"
    using range_okI [OF less.prems(3,4)] by (simp add: computeTriangleAABB_eq)
  show ?case
  proof (cases "e = s + 1")
    case True
    then show ?thesis using less.prems(3) box by (simp add: buildNode_unfold)
  next
    case False
    let ?m = "s + (e - s) div 2"
    let ?sub = "sort_key (split_key ?box) (slice ti s e)"
    let ?ti0 = "write_back ti s ?sub"
    have mid: "split_mid s e = int ?m" by (rule split_mid_small [OF less.prems(1,2)])
    have m: "s < ?m" "?m < e" using False less.prems(1) by auto
    have len_sub: "length ?sub = e - s" using less.prems(3) by (simp add: slice_length)
    have ti0: "?ti0 = take s ti @ ?sub @ drop e ti"
      using write_back_eq [of s ?sub ti] less.prems(1,3) len_sub by simp
    have sl0: "slice ?ti0 s e = ?sub"
      unfolding ti0 using less.prems(1,3) len_sub by (intro slice_of_parts) simp_all
    have split0: "slice ?ti0 s e = slice ?ti0 s ?m @ slice ?ti0 ?m e"
      using m by (intro slice_split) simp_all
    have ok0: "\<forall>x \<in> set (slice ?ti0 s e). tri_ok wv tris (ti_idx x)"
      unfolding sl0 using less.prems(4) by simp
    have okl: "\<forall>x \<in> set (slice ?ti0 s ?m). tri_ok wv tris (ti_idx x)"
      using ok0 unfolding split0 by auto
    have "?m - s < e - s" "?m - s < 2 ^ 31" "?m \<le> length ?ti0"
      using m less.prems by simp_all
    from less.hyps [OF this(1) m(1) this(2) this(3) okl, of "nodes @ [None]"]
    obtain li ti1 nodes1 where
      L: "buildNode wv tris s ?m (?ti0, nodes @ [None]) = Inr (li, (ti1, nodes1))" by blast
    from buildNode_built [OF L] obtain tl where
      bl: "built wv tris s ?m ?ti0 (nodes @ [None]) ti1 nodes1 tl" by blast
    note bl' = bl [unfolded built_def]
    have dr1: "drop ?m ti1 = drop ?m ?ti0" using bl' by blast
    have len1: "length ti1 = length ti" using bl' by simp
    have sl_r: "slice ti1 ?m e = slice ?ti0 ?m e" by (rule slice_cong_drop [OF dr1]) simp
    have okr: "\<forall>x \<in> set (slice ti1 ?m e). tri_ok wv tris (ti_idx x)"
      using ok0 unfolding split0 sl_r by auto
    have "e - ?m < e - s" "e - ?m < 2 ^ 31" "e \<le> length ti1"
      using m less.prems len1 by simp_all
    from less.hyps [OF this(1) m(2) this(2) this(3) okr, of nodes1]
    obtain ri ti2 nodes2 where
      R: "buildNode wv tris ?m e (ti1, nodes1) = Inr (ri, (ti2, nodes2))" by blast
    have nm: "nat (split_mid s e) = ?m" using mid by simp
    have g: "\<not> (e \<le> s \<or> split_mid s e \<le> int s \<or> int e \<le> split_mid s e)"
      using m mid less.prems(1) by simp
    show ?thesis
      apply (subst buildNode_unfold)
      apply (simp only: box sum.case False if_False g nm L R prod.case)
      apply (intro exI)
      apply (rule refl)
      done
  qed
qed

lemma ti_idx_centroid [simp]: "ti_idx (centroid wv tris i) = i"
  by (simp add: centroid_def split: prod.splits)

lemma triInfo_loop_eq:
  "triInfo_loop wv tris is ti =
     (if \<forall>i \<in> set is. tri_ok wv tris i
      then Inr (fold (\<lambda>i ti. ti[i := centroid wv tris i]) is ti)
      else Inl TypeError)"
proof (induction "is" arbitrary: ti)
  case Nil
  then show ?case by simp
next
  case (Cons i "is")
  show ?case
  proof (cases "tri_ok wv tris i")
    case True
    obtain t0 t1 t2 where t: "tris ! i = (t0, t1, t2)" by (metis prod.exhaust)
    obtain v0x v0y v0z where v0: "wv ! t0 = (v0x, v0y, v0z)" by (metis prod.exhaust)
    obtain v1x v1y v1z where v1: "wv ! t1 = (v1x, v1y, v1z)" by (metis prod.exhaust)
    obtain v2x v2y v2z where v2: "wv ! t2 = (v2x, v2y, v2z)" by (metis prod.exhaust)
    have c: "tri_corners wv tris i = Inr ((v0x, v0y, v0z), (v1x, v1y, v1z), (v2x, v2y, v2z))"
      using True by (simp add: tri_corners_eq t v0 v1 v2)
    have d: "centroid wv tris i = \<lparr>ti_idx = i, ti_cx = (v0x + v1x + v2x) / 3,
        ti_cy = (v0y + v1y + v2y) / 3, ti_cz = (v0z + v1z + v2z) / 3\<rparr>"
      by (simp add: centroid_def t v0 v1 v2)
    show ?thesis using True unfolding d [symmetric]
      by (simp add: c Cons.IH d)
  next
    case False
    then show ?thesis by (simp add: tri_corners_eq)
  qed
qed

lemma fold_update_all:
  "length xs = n \<Longrightarrow> fold (\<lambda>i xs. xs[i := g i]) [0..<n] xs = map g [0..<n]"
proof (rule nth_equalityI)
  assume l: "length xs = n"
  have a: "fold (\<lambda>i xs. xs[i := g i]) [0..<n] xs = fold (\<lambda>i xs. xs[0 + i := g i]) [0..<n] xs"
    by simp
  show "length (fold (\<lambda>i xs. xs[i := g i]) [0..<n] xs) = length (map g [0..<n])"
    unfolding a inner_length using l by simp
  fix i assume "i < length (fold (\<lambda>i xs. xs[i := g i]) [0..<n] xs)"
  then have i: "i < n" unfolding a inner_length using l by simp
  have "0 + n \<le> length xs" using l by simp
  from inner_hit [OF i this, of g] i
  show "fold (\<lambda>i xs. xs[i := g i]) [0..<n] xs ! i = map g [0..<n] ! i"
    unfolding a by simp
qed

lemma all_tri_ok_iff: "all_tri_ok wv tris = tris_in_range (length wv) tris"
proof
  assume a: "all_tri_ok wv tris"
  show "tris_in_range (length wv) tris"
    unfolding tris_in_range_def
  proof
    fix x assume "x \<in> set tris"
    then obtain k where k: "k < length tris" "tris ! k = x" by (auto simp: in_set_conv_nth)
    obtain t0 t1 t2 where x: "x = (t0, t1, t2)" by (metis prod.exhaust)
    from a k(1) have "tri_ok wv tris k" unfolding all_tri_ok_def by blast
    then have "t0 < length wv \<and> t1 < length wv \<and> t2 < length wv"
      unfolding tri_ok_def k(2) x by simp
    then show "case x of (a, b, c) \<Rightarrow> a < length wv \<and> b < length wv \<and> c < length wv"
      unfolding x by simp
  qed
next
  assume a: "tris_in_range (length wv) tris"
  show "all_tri_ok wv tris"
    unfolding all_tri_ok_def
  proof (intro allI impI)
    fix k assume k: "k < length tris"
    obtain t0 t1 t2 where x: "tris ! k = (t0, t1, t2)" by (metis prod.exhaust)
    from k have "tris ! k \<in> set tris" by simp
    then have "(t0, t1, t2) \<in> set tris" unfolding x .
    with a have "case (t0, t1, t2) of (a, b, c) \<Rightarrow> a < length wv \<and> b < length wv \<and> c < length wv"
      unfolding tris_in_range_def by (rule bspec)
    then show "tri_ok wv tris k" unfolding tri_ok_def x using k by simp
  qed
qed

lemma buildBVH_eq:
  "buildBVH wv tris =
     (if all_tri_ok wv tris then
        (if tris = [] then Inr []
         else case buildNode wv tris 0 (length tris) (map (centroid wv tris) [0..<length tris], []) of
                Inl e \<Rightarrow> Inl e
              | Inr (rootIdx, (ti', nodes)) \<Rightarrow> Inr nodes)
      else Inl TypeError)"
proof -
  have a: "(\<forall>i \<in> set [0..<length tris]. tri_ok wv tris i) = all_tri_ok wv tris"
    by (auto simp: all_tri_ok_def)
  have f: "fold (\<lambda>i ti. ti[i := centroid wv tris i]) [0..<length tris]
             (replicate (length tris) \<lparr>ti_idx = 0, ti_cx = 0, ti_cy = 0, ti_cz = 0\<rparr>)
           = map (centroid wv tris) [0..<length tris]"
    by (rule fold_update_all) simp
  show ?thesis
    unfolding buildBVH_def Let_def triInfo_loop_eq a f
    by (cases "tris = []") simp_all
qed

lemma leaf_triIdxs_append [simp]:
  "leaf_triIdxs (xs @ ys) = leaf_triIdxs xs @ leaf_triIdxs ys"
  by (simp add: leaf_triIdxs_def)

lemma leaf_triIdxs_preorder:
  "wf_at b t \<Longrightarrow> leaf_triIdxs (map Some (preorder t)) = leaves t"
proof (induction t arbitrary: b)
  case (Leaf nd)
  then show ?case by (simp add: leaf_triIdxs_def)
next
  case (Inner nd l r)
  from Inner.prems have "leaf_triIdxs [Some nd] = []" by (simp add: leaf_triIdxs_def)
  moreover from Inner have "leaf_triIdxs (map Some (preorder l)) = leaves l"
    "leaf_triIdxs (map Some (preorder r)) = leaves r" by auto
  ultimately show ?case
    using leaf_triIdxs_append [of "[Some nd]" "map Some (preorder l) @ map Some (preorder r)"]
    by simp
qed

lemma preorder_hd: "preorder t ! 0 = root_node t" "0 < length (preorder t)"
  by (cases t; simp)+

lemma tree_in_root:
  "tree_in nodes b t \<Longrightarrow> node_at nodes (int b) = Some (root_node t)"
proof -
  assume a: "tree_in nodes b t"
  have p: "0 < length (preorder t)" by (rule preorder_hd)
  from a have l: "b + length (preorder t) \<le> length nodes" unfolding tree_in_def by blast
  from a p have e: "nodes ! (b + 0) = Some (preorder t ! 0)" unfolding tree_in_def by blast
  from l p have "b < length nodes" by linarith
  with e show ?thesis by (simp add: node_at_def preorder_hd)
qed

lemma tree_in_Inner:
  assumes "tree_in nodes b (Inner nd l r)"
  shows "tree_in nodes (b + 1) l" "tree_in nodes (b + 1 + length (preorder l)) r"
proof -
  from assms have wf: "wf_at (b + 1) l" "wf_at (b + 1 + length (preorder l)) r"
    and len: "b + (1 + length (preorder l) + length (preorder r)) \<le> length nodes"
    and el: "\<And>j. j < 1 + length (preorder l) + length (preorder r) \<Longrightarrow>
               nodes ! (b + j) = Some ((nd # preorder l @ preorder r) ! j)"
    by (auto simp: tree_in_def)
  show "tree_in nodes (b + 1) l"
    unfolding tree_in_def
  proof (intro conjI allI impI)
    fix j assume j: "j < length (preorder l)"
    from el [of "Suc j"] j show "nodes ! (b + 1 + j) = Some (preorder l ! j)"
      by (simp add: nth_append)
  qed (use wf len in auto)
  show "tree_in nodes (b + 1 + length (preorder l)) r"
    unfolding tree_in_def
  proof (intro conjI allI impI)
    fix j assume j: "j < length (preorder r)"
    from el [of "Suc (length (preorder l) + j)"] j
    show "nodes ! (b + 1 + length (preorder l) + j) = Some (preorder r ! j)"
      by (simp add: nth_append add.assoc)
  qed (use wf len in auto)
qed

lemma tree_in_appended:
  "wf_at (length pre) t \<Longrightarrow> tree_in (pre @ map Some (preorder t)) (length pre) t"
  by (simp add: tree_in_def nth_append)

lemma tree_in_children:
  "tree_in nodes b t \<Longrightarrow> box_nested t \<Longrightarrow> j < length (preorder t) \<Longrightarrow>
     node_triIdx (preorder t ! j) < 0 \<Longrightarrow> children_inside nodes (preorder t ! j)"
proof (induction t arbitrary: b j)
  case (Leaf nd)
  then show ?case by (simp add: tree_in_def)
next
  case (Inner nd l r)
  note tl = tree_in_Inner(1) [OF Inner.prems(1)]
  note tr = tree_in_Inner(2) [OF Inner.prems(1)]
  from Inner.prems(2) have bn: "box_nested l" "box_nested r"
    and bi: "box_inside (node_box (root_node l)) (node_box nd)"
            "box_inside (node_box (root_node r)) (node_box nd)" by simp_all
  from Inner.prems(1) have lr: "node_left nd = int (b + 1)"
    "node_right nd = int (b + 1 + length (preorder l))" by (simp_all add: tree_in_def)
  consider "j = 0" | k where "j = Suc k" "k < length (preorder l)"
    | k where "j = Suc (length (preorder l) + k)" "k < length (preorder r)"
  proof -
    assume a: "j = 0 \<Longrightarrow> thesis" "\<And>k. j = Suc k \<Longrightarrow> k < length (preorder l) \<Longrightarrow> thesis"
      "\<And>k. j = Suc (length (preorder l) + k) \<Longrightarrow> k < length (preorder r) \<Longrightarrow> thesis"
    show thesis
    proof (cases j)
      case 0 then show ?thesis by (rule a(1))
    next
      case (Suc k)
      show ?thesis
      proof (cases "k < length (preorder l)")
        case True with Suc show ?thesis by (rule a(2))
      next
        case False
        then have "j = Suc (length (preorder l) + (k - length (preorder l)))" using Suc by simp
        moreover have "k - length (preorder l) < length (preorder r)"
          using Inner.prems(3) Suc False by simp
        ultimately show ?thesis by (rule a(3))
      qed
    qed
  qed
  then show ?case
  proof cases
    case 1
    show ?thesis unfolding 1 children_inside_def
      using tree_in_root [OF tl] tree_in_root [OF tr] bi lr by auto
  next
    case 2
    from Inner.prems(4) 2 have "node_triIdx (preorder l ! k) < 0" by (simp add: nth_append)
    from Inner.IH(1) [OF tl bn(1) 2(2) this] 2 show ?thesis by (simp add: nth_append)
  next
    case 3
    from Inner.prems(4) 3 have "node_triIdx (preorder r ! k) < 0" by (simp add: nth_append)
    from Inner.IH(2) [OF tr bn(2) 3(2) this] 3 show ?thesis by (simp add: nth_append)
  qed
qed

lemma buildBVH_built:
  assumes "buildBVH wv tris = Inr nodes" "tris \<noteq> []"
  shows "all_tri_ok wv tris \<and>
     (\<exists>ti' t. built wv tris 0 (length tris) (map (centroid wv tris) [0..<length tris]) []
                 ti' nodes t)"
proof -
  from assms have ok: "all_tri_ok wv tris"
    by (auto simp: buildBVH_eq split: if_splits)
  with assms obtain idx ti' where
    "buildNode wv tris 0 (length tris) (map (centroid wv tris) [0..<length tris], [])
       = Inr (idx, (ti', nodes))"
    by (auto simp: buildBVH_eq split: sum.splits)
  from buildNode_built [OF this] ok show ?thesis by blast
qed

lemma built_top_leaves:
  assumes "built wv tris 0 n (map (centroid wv tris) [0..<n]) [] ti' nodes t"
  shows "mset (leaf_triIdxs nodes) = mset (map int [0..<n])"
proof -
  note b = assms [unfolded built_def]
  let ?ti = "map (centroid wv tris) [0..<n]"
  have l: "length ti' = n" using b by simp
  have s0: "slice ?ti 0 n = ?ti" by (simp add: slice_def)
  have s1: "slice ti' 0 n = ti'" using l by (simp add: slice_def)
  have "mset ti' = mset ?ti" using b unfolding s0 s1 by blast
  then have "mset (map (\<lambda>i. int (ti_idx i)) ti') = mset (map (\<lambda>i. int (ti_idx i)) ?ti)"
    by (metis mset_map)
  also have "map (\<lambda>i. int (ti_idx i)) ?ti = map int [0..<n]" by simp
  finally have m: "mset (map (\<lambda>i. int (ti_idx i)) ti') = mset (map int [0..<n])" .
  have lv: "leaves t = map (\<lambda>i. int (ti_idx i)) ti'" using b unfolding s1 by blast
  have n: "nodes = map Some (preorder t)" and wf: "wf_at 0 t" using b by simp_all
  show ?thesis unfolding n leaf_triIdxs_preorder [OF wf] lv by (rule m)
qed

subsection \<open>Two small scenes\<close>

text \<open>
  A scene of two triangles in the plane \<open>z = 0\<close> and the three nodes \<^verbatim>\<open>buildBVH\<close> makes
  of it, and a scene of one triangle in the plane \<open>z = 8\<close>, which is a single leaf.
\<close>

lemma upt2: "[0..<2] = [0, Suc 0]" by (simp add: upt_rec)

lemma upt12: "[Suc 0..<2] = [Suc 0]" by (simp add: upt_rec)

lemma tris_two_ok:
  "tris_in_range (length [(0, 0, 0), (1, 0, 0), (0, 1, 0), (4, 0, 0), (5, 0, 0), (4, 1, 0 :: real)])
     [(0, 1, 2), (3, 4, 5)]"
  by (simp add: tris_in_range_def)

lemma centroids_two:
  "map (centroid [(0, 0, 0), (1, 0, 0), (0, 1, 0), (4, 0, 0), (5, 0, 0), (4, 1, 0)] [(0, 1, 2), (3, 4, 5)])
     [0..<length [(0, 1, 2), (3, 4, 5 :: nat)]] =
   [\<lparr>ti_idx = 0, ti_cx = 1 / 3, ti_cy = 1 / 3, ti_cz = 0\<rparr>,
    \<lparr>ti_idx = 1, ti_cx = 13 / 3, ti_cy = 1 / 3, ti_cz = 0\<rparr>]"
  by (simp add: upt_rec centroid_def)

lemma box_two:
  "computeTriangleAABB [(0, 0, 0), (1, 0, 0), (0, 1, 0), (4, 0, 0), (5, 0, 0), (4, 1, 0)] [(0, 1, 2), (3, 4, 5)]
     [\<lparr>ti_idx = 0, ti_cx = 1 / 3, ti_cy = 1 / 3, ti_cz = 0\<rparr>,
      \<lparr>ti_idx = 1, ti_cx = 13 / 3, ti_cy = 1 / 3, ti_cz = 0\<rparr>] 0 2
   = Inr ((Fin 0, Fin 0, Fin 0), (Fin 5, Fin 1, Fin 0))"
  by (simp add: computeTriangleAABB_def upt2 tri_corners_def grow_def js_gt_def)

lemma split_two: "split_mid 0 2 = 1"
  by (simp add: split_mid_def toInt32_def)

lemma sorted_two:
  "write_back [\<lparr>ti_idx = 0, ti_cx = 1 / 3, ti_cy = 1 / 3, ti_cz = 0\<rparr>,
      \<lparr>ti_idx = 1, ti_cx = 13 / 3, ti_cy = 1 / 3, ti_cz = 0\<rparr>] 0
     (sort_key (split_key ((Fin 0, Fin 0, Fin 0), (Fin 5, Fin 1, Fin 0)))
       (slice [\<lparr>ti_idx = 0, ti_cx = 1 / 3, ti_cy = 1 / 3, ti_cz = 0\<rparr>,
      \<lparr>ti_idx = 1, ti_cx = 13 / 3, ti_cy = 1 / 3, ti_cz = 0\<rparr>] 0 2))
   = [\<lparr>ti_idx = 0, ti_cx = 1 / 3, ti_cy = 1 / 3, ti_cz = 0\<rparr>,
      \<lparr>ti_idx = 1, ti_cx = 13 / 3, ti_cy = 1 / 3, ti_cz = 0\<rparr>]"
  by (simp add: split_key_def js_ge_def js_le_def slice_def write_back_def upt2)

lemma buildBVH_two:
  "buildBVH [(0, 0, 0), (1, 0, 0), (0, 1, 0), (4, 0, 0), (5, 0, 0), (4, 1, 0)] [(0, 1, 2), (3, 4, 5)] =
   Inr [Some \<lparr>node_bmin = (Fin 0, Fin 0, Fin 0), node_bmax = (Fin 5, Fin 1, Fin 0),
               node_left = 1, node_right = 2, node_triIdx = - 1\<rparr>,
        Some \<lparr>node_bmin = (Fin 0, Fin 0, Fin 0), node_bmax = (Fin 1, Fin 1, Fin 0),
               node_left = - 1, node_right = - 1, node_triIdx = 0\<rparr>,
        Some \<lparr>node_bmin = (Fin 4, Fin 0, Fin 0), node_bmax = (Fin 5, Fin 1, Fin 0),
               node_left = - 1, node_right = - 1, node_triIdx = 1\<rparr>]"
proof -
  let ?wv = "[(0, 0, 0), (1, 0, 0), (0, 1, 0), (4, 0, 0), (5, 0, 0), (4, 1, 0 :: real)]"
  let ?ts = "[(0, 1, 2), (3, 4, 5)] :: tri list"
  let ?ti = "[\<lparr>ti_idx = 0, ti_cx = 1 / 3, ti_cy = 1 / 3, ti_cz = 0\<rparr>,
      \<lparr>ti_idx = 1, ti_cx = 13 / 3, ti_cy = 1 / 3, ti_cz = 0\<rparr>]"
  have l: "buildNode ?wv ?ts 0 (Suc 0) (?ti, [] @ [None]) =
     Inr (1, (?ti, [None, Some (leaf_node ((Fin 0, Fin 0, Fin 0), (Fin 1, Fin 1, Fin 0)) 0)]))"
    by (subst buildNode_unfold) (simp add: computeTriangleAABB_def tri_corners_def grow_def js_gt_def)
  have r: "buildNode ?wv ?ts (Suc 0) 2
       (?ti, [None, Some (leaf_node ((Fin 0, Fin 0, Fin 0), (Fin 1, Fin 1, Fin 0)) 0)]) =
     Inr (2, (?ti, [None, Some (leaf_node ((Fin 0, Fin 0, Fin 0), (Fin 1, Fin 1, Fin 0)) 0),
                    Some (leaf_node ((Fin 4, Fin 0, Fin 0), (Fin 5, Fin 1, Fin 0)) 1)]))"
    by (subst buildNode_unfold) (simp add: computeTriangleAABB_def tri_corners_def grow_def js_gt_def upt12)
  have n: "buildNode ?wv ?ts 0 2 (?ti, []) =
     Inr (0, (?ti, [Some (inner_node ((Fin 0, Fin 0, Fin 0), (Fin 5, Fin 1, Fin 0)) 1 2),
                    Some (leaf_node ((Fin 0, Fin 0, Fin 0), (Fin 1, Fin 1, Fin 0)) 0),
                    Some (leaf_node ((Fin 4, Fin 0, Fin 0), (Fin 5, Fin 1, Fin 0)) 1)]))"
    apply (subst buildNode_unfold)
    apply (simp only: box_two sum.case split_two sorted_two)
    using l r apply simp
    done
  have len: "length ?ts = 2" by simp
  have cen: "map (centroid ?wv ?ts) [0..<length ?ts] = ?ti" by (rule centroids_two)
  have b: "buildNode ?wv ?ts 0 (length ?ts) (map (centroid ?wv ?ts) [0..<length ?ts], []) =
     Inr (0, (?ti, [Some (inner_node ((Fin 0, Fin 0, Fin 0), (Fin 5, Fin 1, Fin 0)) 1 2),
                    Some (leaf_node ((Fin 0, Fin 0, Fin 0), (Fin 1, Fin 1, Fin 0)) 0),
                    Some (leaf_node ((Fin 4, Fin 0, Fin 0), (Fin 5, Fin 1, Fin 0)) 1)]))"
    by (subst cen, subst len) (rule n)
  have a: "all_tri_ok ?wv ?ts"
    using tris_two_ok by (simp only: all_tri_ok_iff)
  show ?thesis
    by (simp only: buildBVH_eq [of ?wv ?ts] a b if_True) (simp add: leaf_node_def inner_node_def)
qed


lemma buildBVH_one:
  "buildBVH [(0, 0, 8), (8, 0, 8), (0, 8, 8)] [(0, 1, 2)] =
   Inr [Some \<lparr>node_bmin = (Fin 0, Fin 0, Fin 8), node_bmax = (Fin 8, Fin 8, Fin 8),
               node_left = - 1, node_right = - 1, node_triIdx = 0\<rparr>]"
proof -
  let ?wv = "[(0, 0, 8), (8, 0, 8), (0, 8, 8 :: real)]"
  let ?ts = "[(0, 1, 2)] :: tri list"
  let ?ti = "[\<lparr>ti_idx = 0, ti_cx = 8 / 3, ti_cy = 8 / 3, ti_cz = 8\<rparr>]"
  have n: "buildNode ?wv ?ts 0 (Suc 0) (?ti, []) =
     Inr (0, (?ti, [Some (leaf_node ((Fin 0, Fin 0, Fin 8), (Fin 8, Fin 8, Fin 8)) 0)]))"
    by (subst buildNode_unfold) (simp add: computeTriangleAABB_def tri_corners_def grow_def js_gt_def)
  have len: "length ?ts = Suc 0" by simp
  have cen: "map (centroid ?wv ?ts) [0..<length ?ts] = ?ti" by (simp add: centroid_def)
  have b: "buildNode ?wv ?ts 0 (length ?ts) (map (centroid ?wv ?ts) [0..<length ?ts], []) =
     Inr (0, (?ti, [Some (leaf_node ((Fin 0, Fin 0, Fin 8), (Fin 8, Fin 8, Fin 8)) 0)]))"
    by (subst cen, subst len) (rule n)
  have a: "all_tri_ok ?wv ?ts"
    by (simp only: all_tri_ok_iff) (simp add: tris_in_range_def)
  show ?thesis
    by (simp only: buildBVH_eq [of ?wv ?ts] a b if_True) (simp add: leaf_node_def)
qed

lemma stack_reset: "(replicate 64 (0 :: int))[0 := 0] = replicate 64 0"
  by (simp add: list_eq_iff_nth_eq nth_list_update)

subsection \<open>The leaves partition the triangles\<close>

text \<open>
  Claim C1. When \<^verbatim>\<open>buildBVH\<close> returns for a non-empty triangle list, the \<^verbatim>\<open>triIdx\<close>
  values of the leaf nodes are the indices \<open>0, \<dots>, triangleCount - 1\<close>, each one in exactly
  one leaf: the list of leaf indices is a permutation of the index range, it has no
  duplicate, and as a set it is the whole range. \<^verbatim>\<open>buildBVH\<close> does return when every
  triangle names vertices that exist (otherwise reading a coordinate of
  \<^verbatim>\<open>undefined\<close> throws) and the triangle count is below \<open>2\<^sup>3\<^sup>1\<close>.
\<close>

theorem buildBVH_partitions:
  "(\<forall>nodes. buildBVH worldVerts triangles = Inr nodes \<longrightarrow> triangles \<noteq> [] \<longrightarrow>
       mset (leaf_triIdxs nodes) = mset (map int [0..<length triangles]) \<and>
       distinct (leaf_triIdxs nodes) \<and>
       set (leaf_triIdxs nodes) = int ` {0..<length triangles}) \<and>
   (tris_in_range (length worldVerts) triangles \<longrightarrow> length triangles < 2 ^ 31 \<longrightarrow>
       (\<exists>nodes. buildBVH worldVerts triangles = Inr nodes))"
proof (intro conjI allI impI)
  fix nodes assume a: "buildBVH worldVerts triangles = Inr nodes" "triangles \<noteq> []"
  from buildBVH_built [OF a] obtain ti' t where
    "built worldVerts triangles 0 (length triangles)
       (map (centroid worldVerts triangles) [0..<length triangles]) [] ti' nodes t" by blast
  from built_top_leaves [OF this]
  show m: "mset (leaf_triIdxs nodes) = mset (map int [0..<length triangles])" .
  have d: "distinct (map int [0..<length triangles])" by (simp add: distinct_map)
  from m d show "distinct (leaf_triIdxs nodes)" by (metis mset_eq_imp_distinct_iff)
  from m have "set (leaf_triIdxs nodes) = set (map int [0..<length triangles])"
    by (rule mset_eq_setD)
  then show "set (leaf_triIdxs nodes) = int ` {0..<length triangles}" by simp
next
  assume r: "tris_in_range (length worldVerts) triangles" and s: "length triangles < 2 ^ 31"
  then have ok: "all_tri_ok worldVerts triangles" by (simp add: all_tri_ok_iff)
  show "\<exists>nodes. buildBVH worldVerts triangles = Inr nodes"
  proof (cases "triangles = []")
    case True
    then show ?thesis using ok by (simp add: buildBVH_eq)
  next
    case False
    let ?ti = "map (centroid worldVerts triangles) [0..<length triangles]"
    have "\<forall>x \<in> set (slice ?ti 0 (length triangles)). tri_ok worldVerts triangles (ti_idx x)"
      using ok by (auto simp: slice_def all_tri_ok_def)
    from buildNode_total [OF _ _ _ this, of "[]"] False s
    obtain idx ti' nodes' where
      "buildNode worldVerts triangles 0 (length triangles) (?ti, []) = Inr (idx, (ti', nodes'))"
      by auto
    then show ?thesis using ok False by (simp add: buildBVH_eq)
  qed
qed

theorem buildBVH_partitions_witness:
  "[(0, 1, 2), (3, 4, 5)] \<noteq> ([] :: tri list) \<and>
   tris_in_range (length [(0, 0, 0), (1, 0, 0), (0, 1, 0), (4, 0, 0), (5, 0, 0), (4, 1, 0 :: real)]) [(0, 1, 2), (3, 4, 5)] \<and>
   length ([(0, 1, 2), (3, 4, 5)] :: tri list) < 2 ^ 31 \<and>
   (\<exists>nodes. buildBVH [(0, 0, 0), (1, 0, 0), (0, 1, 0), (4, 0, 0), (5, 0, 0), (4, 1, 0)] [(0, 1, 2), (3, 4, 5)] = Inr nodes \<and>
      mset (leaf_triIdxs nodes) = mset (map int [0..<length ([(0, 1, 2), (3, 4, 5)] :: tri list)]) \<and>
      distinct (leaf_triIdxs nodes) \<and>
      set (leaf_triIdxs nodes) = int ` {0..<length ([(0, 1, 2), (3, 4, 5)] :: tri list)})"
proof -
  note t = buildBVH_partitions [of "[(0, 0, 0), (1, 0, 0), (0, 1, 0), (4, 0, 0), (5, 0, 0), (4, 1, 0)]" "[(0, 1, 2), (3, 4, 5)]"]
  from t tris_two_ok obtain nodes where
    n: "buildBVH [(0, 0, 0), (1, 0, 0), (0, 1, 0), (4, 0, 0), (5, 0, 0), (4, 1, 0)] [(0, 1, 2), (3, 4, 5)] = Inr nodes"
    by auto
  from t n have "mset (leaf_triIdxs nodes) = mset (map int [0..<length ([(0, 1, 2), (3, 4, 5)] :: tri list)]) \<and>
      distinct (leaf_triIdxs nodes) \<and>
      set (leaf_triIdxs nodes) = int ` {0..<length ([(0, 1, 2), (3, 4, 5)] :: tri list)}"
    by blast
  with n tris_two_ok show ?thesis by auto
qed

subsection \<open>Children lie inside their parent\<close>

text \<open>
  Claim C3. In the array \<^verbatim>\<open>buildBVH\<close> returns, every inner node (\<^verbatim>\<open>triIdx < 0\<close>) has a
  left and a right child in the array, and the box of each child is inside the box of
  the node: each component of the child's \<^verbatim>\<open>bmin\<close> is at least the parent's and each
  component of its \<^verbatim>\<open>bmax\<close> is at most the parent's.
\<close>


theorem buildBVH_children_inside:
  assumes "buildBVH worldVerts triangles = Inr nodes"
    and "i < length nodes" and "nodes ! i = Some nd" and "node_triIdx nd < 0"
  shows "children_inside nodes nd"
proof -
  from assms(1,2) have ne: "triangles \<noteq> []" by (auto simp: buildBVH_eq split: if_splits)
  from buildBVH_built [OF assms(1) ne] obtain ti' t where
    b: "built worldVerts triangles 0 (length triangles)
       (map (centroid worldVerts triangles) [0..<length triangles]) [] ti' nodes t" by blast
  note b' = b [unfolded built_def]
  have n: "nodes = map Some (preorder t)" and wf: "wf_at 0 t" and bn: "box_nested t"
    using b' by simp_all
  from tree_in_appended [of "[]" t] wf n have ti: "tree_in nodes 0 t" by simp
  from assms(2,3) n have i: "i < length (preorder t)" "preorder t ! i = nd" by auto
  from tree_in_children [OF ti bn i(1)] assms(4) i(2) show ?thesis by simp
qed

theorem buildBVH_children_inside_witness:
  "buildBVH [(0, 0, 0), (1, 0, 0), (0, 1, 0), (4, 0, 0), (5, 0, 0), (4, 1, 0)] [(0, 1, 2), (3, 4, 5)] =
     Inr [Some \<lparr>node_bmin = (Fin 0, Fin 0, Fin 0), node_bmax = (Fin 5, Fin 1, Fin 0),
               node_left = 1, node_right = 2, node_triIdx = - 1\<rparr>,
        Some \<lparr>node_bmin = (Fin 0, Fin 0, Fin 0), node_bmax = (Fin 1, Fin 1, Fin 0),
               node_left = - 1, node_right = - 1, node_triIdx = 0\<rparr>,
        Some \<lparr>node_bmin = (Fin 4, Fin 0, Fin 0), node_bmax = (Fin 5, Fin 1, Fin 0),
               node_left = - 1, node_right = - 1, node_triIdx = 1\<rparr>] \<and>
   children_inside
       [Some \<lparr>node_bmin = (Fin 0, Fin 0, Fin 0), node_bmax = (Fin 5, Fin 1, Fin 0),
               node_left = 1, node_right = 2, node_triIdx = - 1\<rparr>,
        Some \<lparr>node_bmin = (Fin 0, Fin 0, Fin 0), node_bmax = (Fin 1, Fin 1, Fin 0),
               node_left = - 1, node_right = - 1, node_triIdx = 0\<rparr>,
        Some \<lparr>node_bmin = (Fin 4, Fin 0, Fin 0), node_bmax = (Fin 5, Fin 1, Fin 0),
               node_left = - 1, node_right = - 1, node_triIdx = 1\<rparr>]
       \<lparr>node_bmin = (Fin 0, Fin 0, Fin 0), node_bmax = (Fin 5, Fin 1, Fin 0),
               node_left = 1, node_right = 2, node_triIdx = - 1\<rparr>"
  using buildBVH_children_inside [OF buildBVH_two, of 0
       "\<lparr>node_bmin = (Fin 0, Fin 0, Fin 0), node_bmax = (Fin 5, Fin 1, Fin 0),
               node_left = 1, node_right = 2, node_triIdx = - 1\<rparr>"] buildBVH_two
  by simp

subsection \<open>The walk and its stack\<close>

lemma bvhStep_at:
  assumes "sp < length stack" "node_at nodes (stack ! sp) = Some nd"
  shows "bvhStep ox oy oz dx dy dz nodes onLeaf (stack, Suc sp, acc) =
    (if \<not> rayAABBIntersect ox oy oz dx dy dz (node_bmin nd) (node_bmax nd)
     then Inr ((stack, sp, acc), False)
     else if node_triIdx nd \<ge> 0 then
       (case onLeaf (node_triIdx nd) acc of
          Inl e \<Rightarrow> Inl e
        | Inr (stop, acc') \<Rightarrow> Inr ((stack, sp, acc'), stop))
     else Inr ((fst (push (node_right nd) (push (node_left nd) (stack, sp))), Suc (Suc sp), acc), False))"
  using assms by (simp add: bvhStep_def push_def split: prod.splits)

lemma bvhLoop_zero: "bvhLoop ox oy oz dx dy dz nodes onLeaf (stack, 0, acc) = Some (Inr (stack, acc))"
  by (subst bvhLoop.simps) simp

lemma bvhLoop_Suc:
  "bvhLoop ox oy oz dx dy dz nodes onLeaf (stack, Suc sp, acc) =
     (case bvhStep ox oy oz dx dy dz nodes onLeaf (stack, Suc sp, acc) of
          Inl e \<Rightarrow> Some (Inl e)
        | Inr (st', stop) \<Rightarrow>
            if stop then Some (Inr (fst st', snd (snd st')))
            else bvhLoop ox oy oz dx dy dz nodes onLeaf st')"
  by (subst bvhLoop.simps) simp

lemma reach_cases:
  assumes "(bvhNext ox oy oz dx dy dz nodes onLeaf)\<^sup>*\<^sup>* s st"
  shows "st = s \<or> (\<exists>s1. bvhStep ox oy oz dx dy dz nodes onLeaf s = Inr (s1, False) \<and> fst (snd s) > 0 \<and>
            (bvhNext ox oy oz dx dy dz nodes onLeaf)\<^sup>*\<^sup>* s1 st)"
  using assms by (rule converse_rtranclpE) (auto simp: bvhNext_def)

lemma need_pos: "0 < need t"
  by (cases t) simp_all

lemma walk_loop:
  assumes "length nodes < 2 ^ 31"
  shows "tree_in nodes b t \<Longrightarrow> sp + need t \<le> length stack \<Longrightarrow> stack ! sp = int b \<Longrightarrow>
     \<exists>stack'. after_walk ox oy oz dx dy dz nodes onLeaf t stack sp acc stack'"
proof (induction t arbitrary: b sp stack acc)
  case (Leaf nd)
  have sp: "sp < length stack" using Leaf.prems(2) by simp
  have nd: "node_at nodes (stack ! sp) = Some nd"
    using tree_in_root [OF Leaf.prems(1)] Leaf.prems(3) by simp
  have leaf: "0 \<le> node_triIdx nd" using Leaf.prems(1) by (simp add: tree_in_def)
  note step = bvhStep_at [OF sp nd, of ox oy oz dx dy dz onLeaf acc]
  let ?N = "bvhNext ox oy oz dx dy dz nodes onLeaf"
  show ?case
  proof (cases "rayAABBIntersect ox oy oz dx dy dz (node_bmin nd) (node_bmax nd)")
    case False
    have "after_walk ox oy oz dx dy dz nodes onLeaf (Leaf nd) stack sp acc stack"
      unfolding after_walk_def
    proof (intro conjI allI impI)
      show "bvhLoop ox oy oz dx dy dz nodes onLeaf (stack, Suc sp, acc) =
        (case walk ox oy oz dx dy dz onLeaf (Leaf nd) acc of Inl e \<Rightarrow> Some (Inl e)
         | Inr (stop, acc') \<Rightarrow> if stop then Some (Inr (stack, acc'))
             else bvhLoop ox oy oz dx dy dz nodes onLeaf (stack, sp, acc'))"
        using False by (simp add: bvhLoop_Suc step)
    next
      fix st assume "?N\<^sup>*\<^sup>* (stack, Suc sp, acc) st"
      from reach_cases [OF this] False step
      show "fst (snd st) \<le> sp + need (Leaf nd) \<or>
        (\<exists>acc'. walk ox oy oz dx dy dz onLeaf (Leaf nd) acc = Inr (False, acc') \<and>
           ?N\<^sup>*\<^sup>* (stack, sp, acc') st)" by auto
    qed simp_all
    then show ?thesis ..
  next
    case True
    have "after_walk ox oy oz dx dy dz nodes onLeaf (Leaf nd) stack sp acc stack"
      unfolding after_walk_def
    proof (intro conjI allI impI)
      show "bvhLoop ox oy oz dx dy dz nodes onLeaf (stack, Suc sp, acc) =
        (case walk ox oy oz dx dy dz onLeaf (Leaf nd) acc of Inl e \<Rightarrow> Some (Inl e)
         | Inr (stop, acc') \<Rightarrow> if stop then Some (Inr (stack, acc'))
             else bvhLoop ox oy oz dx dy dz nodes onLeaf (stack, sp, acc'))"
        using True leaf by (simp add: bvhLoop_Suc step split: sum.splits prod.splits)
    next
      fix st assume "?N\<^sup>*\<^sup>* (stack, Suc sp, acc) st"
      from reach_cases [OF this] True leaf step
      show "fst (snd st) \<le> sp + need (Leaf nd) \<or>
        (\<exists>acc'. walk ox oy oz dx dy dz onLeaf (Leaf nd) acc = Inr (False, acc') \<and>
           ?N\<^sup>*\<^sup>* (stack, sp, acc') st)"
        by (auto split: sum.splits prod.splits)
    qed simp_all
    then show ?thesis ..
  qed
next
  case (Inner nd l r)
  let ?N = "bvhNext ox oy oz dx dy dz nodes onLeaf"
  let ?L = "bvhLoop ox oy oz dx dy dz nodes onLeaf"
  let ?W = "walk ox oy oz dx dy dz onLeaf"
  note tl = tree_in_Inner(1) [OF Inner.prems(1)]
  note tr = tree_in_Inner(2) [OF Inner.prems(1)]
  have nl: "need l \<le> need (Inner nd l r)" and nr: "Suc (need r) \<le> need (Inner nd l r)"
    by simp_all
  have sp: "sp < length stack" using Inner.prems(2) need_pos [of "Inner nd l r"] by linarith
  have sp1: "Suc sp < length stack" using Inner.prems(2) nr need_pos [of r] by linarith
  have nd: "node_at nodes (stack ! sp) = Some nd"
    using tree_in_root [OF Inner.prems(1)] Inner.prems(3) by simp
  from Inner.prems(1) have inner: "\<not> 0 \<le> node_triIdx nd"
    and lft: "node_left nd = int (b + 1)"
    and rgt: "node_right nd = int (b + 1 + length (preorder l))"
    and bound: "b + length (preorder (Inner nd l r)) \<le> length nodes"
    by (simp_all add: tree_in_def)
  have "toInt32 (node_left nd) = node_left nd" "toInt32 (node_right nd) = node_right nd"
    using bound assms lft rgt by (auto intro!: toInt32_id)
  moreover define stack2 where
    "stack2 = stack[sp := int (b + 1), Suc sp := int (b + 1 + length (preorder l))]"
  ultimately have pushes: "fst (push (node_right nd) (push (node_left nd) (stack, sp))) = stack2"
    using sp sp1 lft rgt by (simp add: push_def)
  have len2: "length stack2 = length stack"
    and top2: "stack2 ! Suc sp = int (b + 1 + length (preorder l))"
    and snd2: "stack2 ! sp = int (b + 1)"
    and below2: "\<forall>j < sp. stack2 ! j = stack ! j"
    using sp sp1 by (simp_all add: stack2_def)
  note step = bvhStep_at [OF sp nd, of ox oy oz dx dy dz onLeaf acc, unfolded pushes]
  show ?case
  proof (cases "rayAABBIntersect ox oy oz dx dy dz (node_bmin nd) (node_bmax nd)")
    case False
    have "after_walk ox oy oz dx dy dz nodes onLeaf (Inner nd l r) stack sp acc stack"
      unfolding after_walk_def
    proof (intro conjI allI impI)
      show "?L (stack, Suc sp, acc) =
        (case ?W (Inner nd l r) acc of Inl e \<Rightarrow> Some (Inl e)
         | Inr (stop, acc') \<Rightarrow> if stop then Some (Inr (stack, acc'))
             else ?L (stack, sp, acc'))"
        using False by (simp add: bvhLoop_Suc step)
    next
      fix st assume "?N\<^sup>*\<^sup>* (stack, Suc sp, acc) st"
      from reach_cases [OF this] False step
      show "fst (snd st) \<le> sp + need (Inner nd l r) \<or>
        (\<exists>acc'. ?W (Inner nd l r) acc = Inr (False, acc') \<and> ?N\<^sup>*\<^sup>* (stack, sp, acc') st)"
        by auto
    qed simp_all
    then show ?thesis ..
  next
    case True
    \<comment> \<open>the right subtree, on top of the stack\<close>
    have "Suc sp + need r \<le> length stack2" using Inner.prems(2) nr len2 by simp
    with top2 obtain stack3 where
      ar: "after_walk ox oy oz dx dy dz nodes onLeaf r stack2 (Suc sp) acc stack3"
      using Inner.IH(2) [OF tr] by blast
    note ar' = ar [unfolded after_walk_def]
    have len3: "length stack3 = length stack" using ar' len2 by simp
    have agree3: "\<forall>j < Suc sp. stack3 ! j = stack2 ! j" using ar' by blast
    have loop_r: "?L (stack2, Suc (Suc sp), acc) =
       (case ?W r acc of Inl e \<Rightarrow> Some (Inl e)
        | Inr (stop, acc') \<Rightarrow> if stop then Some (Inr (stack3, acc')) else ?L (stack3, Suc sp, acc'))"
      using ar' by blast
    have reach_r: "\<And>st. ?N\<^sup>*\<^sup>* (stack2, Suc (Suc sp), acc) st \<Longrightarrow>
        fst (snd st) \<le> Suc sp + need r \<or>
        (\<exists>acc'. ?W r acc = Inr (False, acc') \<and> ?N\<^sup>*\<^sup>* (stack3, Suc sp, acc') st)"
      using ar' by blast
    have s3: "stack3 ! sp = int (b + 1)" using agree3 snd2 by simp
    have below3: "\<forall>j < sp. stack3 ! j = stack ! j" using agree3 below2 by simp
    have first: "?L (stack, Suc sp, acc) = ?L (stack2, Suc (Suc sp), acc)"
      using True inner by (simp add: bvhLoop_Suc step)
    have first_reach: "st = (stack, Suc sp, acc) \<or> ?N\<^sup>*\<^sup>* (stack2, Suc (Suc sp), acc) st"
      if "?N\<^sup>*\<^sup>* (stack, Suc sp, acc) st" for st
      using reach_cases [OF that] True inner step by auto
    show ?thesis
    proof (cases "?W r acc")
      case (Inl e)
      have "after_walk ox oy oz dx dy dz nodes onLeaf (Inner nd l r) stack sp acc stack"
        unfolding after_walk_def
      proof (intro conjI allI impI)
        show "?L (stack, Suc sp, acc) =
          (case ?W (Inner nd l r) acc of Inl e \<Rightarrow> Some (Inl e)
           | Inr (stop, acc') \<Rightarrow> if stop then Some (Inr (stack, acc'))
               else ?L (stack, sp, acc'))"
          using True Inl by (simp add: first loop_r)
      next
        fix st assume "?N\<^sup>*\<^sup>* (stack, Suc sp, acc) st"
        from first_reach [OF this] reach_r [of st] Inl nr
        show "fst (snd st) \<le> sp + need (Inner nd l r) \<or>
          (\<exists>acc'. ?W (Inner nd l r) acc = Inr (False, acc') \<and> ?N\<^sup>*\<^sup>* (stack, sp, acc') st)"
          by auto
      qed simp_all
      then show ?thesis ..
    next
      case (Inr res)
      obtain stop acc1 where res: "res = (stop, acc1)" by (cases res) auto
      show ?thesis
      proof (cases stop)
        case True': True
        have "after_walk ox oy oz dx dy dz nodes onLeaf (Inner nd l r) stack sp acc stack3"
          unfolding after_walk_def
        proof (intro conjI allI impI)
          show "?L (stack, Suc sp, acc) =
            (case ?W (Inner nd l r) acc of Inl e \<Rightarrow> Some (Inl e)
             | Inr (stop, acc') \<Rightarrow> if stop then Some (Inr (stack3, acc'))
                 else ?L (stack3, sp, acc'))"
            using True Inr res True' by (simp add: first loop_r)
        next
          fix st assume "?N\<^sup>*\<^sup>* (stack, Suc sp, acc) st"
          from first_reach [OF this] reach_r [of st] Inr res True' nr
          show "fst (snd st) \<le> sp + need (Inner nd l r) \<or>
            (\<exists>acc'. ?W (Inner nd l r) acc = Inr (False, acc') \<and> ?N\<^sup>*\<^sup>* (stack3, sp, acc') st)"
            by auto
        qed (use len3 below3 in simp_all)
        then show ?thesis ..
      next
        case False
        \<comment> \<open>the left subtree, now on top\<close>
        have "sp + need l \<le> length stack3" using Inner.prems(2) nl len3 by simp
        with s3 obtain stack4 where
          al: "after_walk ox oy oz dx dy dz nodes onLeaf l stack3 sp acc1 stack4"
          using Inner.IH(1) [OF tl] by blast
        note al' = al [unfolded after_walk_def]
        have len4: "length stack4 = length stack" using al' len3 by simp
        have below4: "\<forall>j < sp. stack4 ! j = stack ! j" using al' below3 by simp
        have loop_l: "?L (stack3, Suc sp, acc1) =
           (case ?W l acc1 of Inl e \<Rightarrow> Some (Inl e)
            | Inr (stop, acc') \<Rightarrow> if stop then Some (Inr (stack4, acc')) else ?L (stack4, sp, acc'))"
          using al' by blast
        have reach_l: "\<And>st. ?N\<^sup>*\<^sup>* (stack3, Suc sp, acc1) st \<Longrightarrow>
            fst (snd st) \<le> sp + need l \<or>
            (\<exists>acc'. ?W l acc1 = Inr (False, acc') \<and> ?N\<^sup>*\<^sup>* (stack4, sp, acc') st)"
          using al' by blast
        have "after_walk ox oy oz dx dy dz nodes onLeaf (Inner nd l r) stack sp acc stack4"
          unfolding after_walk_def
        proof (intro conjI allI impI)
          show "?L (stack, Suc sp, acc) =
            (case ?W (Inner nd l r) acc of Inl e \<Rightarrow> Some (Inl e)
             | Inr (stop, acc') \<Rightarrow> if stop then Some (Inr (stack4, acc'))
                 else ?L (stack4, sp, acc'))"
            using True Inr res False
            by (simp add: first loop_r loop_l split: sum.splits prod.splits)
        next
          fix st assume "?N\<^sup>*\<^sup>* (stack, Suc sp, acc) st"
          from first_reach [OF this]
          consider "st = (stack, Suc sp, acc)" | "fst (snd st) \<le> Suc sp + need r"
            | "?N\<^sup>*\<^sup>* (stack3, Suc sp, acc1) st"
            using reach_r [of st] Inr res by auto
          then show "fst (snd st) \<le> sp + need (Inner nd l r) \<or>
            (\<exists>acc'. ?W (Inner nd l r) acc = Inr (False, acc') \<and> ?N\<^sup>*\<^sup>* (stack4, sp, acc') st)"
          proof cases
            case 1
            with need_pos [of "Inner nd l r"] have "fst (snd st) \<le> sp + need (Inner nd l r)"
              by simp
            then show ?thesis ..
          next
            case 2
            with nr have "fst (snd st) \<le> sp + need (Inner nd l r)" by linarith
            then show ?thesis ..
          next
            case 3
            from reach_l [OF 3] show ?thesis
            proof
              assume "fst (snd st) \<le> sp + need l"
              with nl have "fst (snd st) \<le> sp + need (Inner nd l r)" by linarith
              then show ?thesis ..
            next
              assume "\<exists>acc'. ?W l acc1 = Inr (False, acc') \<and> ?N\<^sup>*\<^sup>* (stack4, sp, acc') st"
              then show ?thesis using True Inr res False by auto
            qed
          qed
        qed (use len4 below4 in simp_all)
        then show ?thesis ..
      qed
    qed
  qed
qed

lemma le_two_pow_ceil_log:
  assumes "0 < n"
  shows "n \<le> 2 ^ nat \<lceil>log 2 (real n)\<rceil>"
proof -
  have "1 \<le> real n" using assms by simp
  then have "0 \<le> log 2 (real n)" by simp
  then have "- 1 < log 2 (real n)" by linarith
  then have nn: "0 \<le> \<lceil>log 2 (real n)\<rceil>" by simp
  have "real n = 2 powr (log 2 (real n))" using assms by simp
  also have "\<dots> \<le> 2 powr (real_of_int \<lceil>log 2 (real n)\<rceil>)"
    by (intro powr_mono) simp_all
  also have "\<dots> = 2 ^ nat \<lceil>log 2 (real n)\<rceil>"
    using nn by (simp add: powr_realpow [symmetric])
  finally have "real n \<le> real (2 ^ nat \<lceil>log 2 (real n)\<rceil>)" by simp
  then show ?thesis by (simp only: of_nat_le_iff)
qed

lemma ceil_log_le:
  assumes "0 < n" "n \<le> 2 ^ k"
  shows "nat \<lceil>log 2 (real n)\<rceil> \<le> k"
proof -
  have "log 2 (real n) \<le> real k" using assms(2,1) by (rule log2_of_power_le)
  then show ?thesis by simp
qed

lemma need_le_height: "need t \<le> Suc (height t)"
  by (induction t) auto

lemma reach_zero:
  assumes "(bvhNext ox oy oz dx dy dz nodes onLeaf)\<^sup>*\<^sup>* (stack, 0, acc) st"
  shows "st = (stack, 0, acc)"
  using reach_cases [OF assms] by simp

lemma bvhInit_eq: "0 < length stack \<Longrightarrow> bvhInit stack acc = (stack[0 := 0], Suc 0, acc)"
  by (simp add: bvhInit_def push_def toInt32_def)

text \<open>
  Claim C9. For a hierarchy built from \<open>n \<ge> 1\<close> triangles, with \<open>n \<le> 2\<^sup>3\<^sup>0\<close> so that
  the node indices are exact in the \<^verbatim>\<open>Int32Array\<close>, every state the loop of
  \<^verbatim>\<open>bvhTraverse\<close> reaches holds at most \<open>\<lceil>log\<^sub>2 n\<rceil> + 1\<close> entries on the stack, which is at
  most 64, whatever the ray and the callback; the array is the preorder listing of a
  tree of height at most \<open>\<lceil>log\<^sub>2 n\<rceil>\<close>.
\<close>

theorem bvhTraverse_stack_bound:
  assumes "buildBVH worldVerts triangles = Inr nodes" and "triangles \<noteq> []"
    and "length triangles \<le> 2 ^ 30" and "length stack = 64"
    and "bvhReach ox oy oz dx dy dz nodes onLeaf stack acc st"
  shows "fst (snd st) \<le> nat \<lceil>log 2 (real (length triangles))\<rceil> + 1 \<and> fst (snd st) \<le> 64 \<and>
     (\<exists>t. nodes = map Some (preorder t) \<and> wf_at 0 t \<and>
          height t \<le> nat \<lceil>log 2 (real (length triangles))\<rceil>)"
proof -
  let ?n = "length triangles"
  let ?h = "nat \<lceil>log 2 (real ?n)\<rceil>"
  from buildBVH_built [OF assms(1,2)] obtain ti' t where
    b: "built worldVerts triangles 0 ?n (map (centroid worldVerts triangles) [0..<?n]) [] ti' nodes t"
    by blast
  note b' = b [unfolded built_def]
  have n: "nodes = map Some (preorder t)" and wf: "wf_at 0 t"
    and lp: "length (preorder t) = 2 * ?n - 1"
    using b' by simp_all
  have pos: "0 < ?n" using assms(2) by simp
  have "(2::nat) ^ 30 < 2 ^ 31" by simp
  with assms(3) have small: "?n - 0 < 2 ^ 31" by simp
  with b' have hb: "\<And>h. ?n \<le> 2 ^ h \<Longrightarrow> height t \<le> h" by simp
  have ht: "height t \<le> ?h" by (rule hb [OF le_two_pow_ceil_log [OF pos]])
  have h30: "?h \<le> 30" by (rule ceil_log_le [OF pos assms(3)])
  have nd: "need t \<le> ?h + 1" using need_le_height [of t] ht by simp
  have ln: "length nodes < 2 ^ 31" using n lp assms(3) by simp
  have ti: "tree_in nodes 0 t" using tree_in_appended [of "[]" t] wf n by simp
  have i: "bvhInit stack acc = (stack[0 := 0], Suc 0, acc)"
    using assms(4) by (simp add: bvhInit_eq)
  have "need t \<le> 64" using nd h30 by linarith
  then have c1: "0 + need t \<le> length (stack[0 := 0])" using assms(4) by simp
  have c2: "stack[0 := 0] ! 0 = int 0" using assms(4) by simp
  from walk_loop [OF ln ti c1 c2, of ox oy oz dx dy dz onLeaf acc] obtain stack' where
    aw: "after_walk ox oy oz dx dy dz nodes onLeaf t (stack[0 := 0]) 0 acc stack'" ..
  from assms(5) have "(bvhNext ox oy oz dx dy dz nodes onLeaf)\<^sup>*\<^sup>* (stack[0 := 0], Suc 0, acc) st"
    by (simp add: bvhReach_def i)
  with aw have "fst (snd st) \<le> 0 + need t \<or>
     (\<exists>acc'. (bvhNext ox oy oz dx dy dz nodes onLeaf)\<^sup>*\<^sup>* (stack', 0, acc') st)"
    unfolding after_walk_def by blast
  then have "fst (snd st) \<le> need t" by (auto dest: reach_zero)
  with nd h30 have "fst (snd st) \<le> ?h + 1" "fst (snd st) \<le> 64" by linarith+
  with ht n wf show ?thesis by blast
qed

theorem bvhTraverse_stack_bound_witness:
  "buildBVH [(0, 0, 0), (1, 0, 0), (0, 1, 0), (4, 0, 0), (5, 0, 0), (4, 1, 0)] [(0, 1, 2), (3, 4, 5)] =
     Inr [Some \<lparr>node_bmin = (Fin 0, Fin 0, Fin 0), node_bmax = (Fin 5, Fin 1, Fin 0),
               node_left = 1, node_right = 2, node_triIdx = - 1\<rparr>,
        Some \<lparr>node_bmin = (Fin 0, Fin 0, Fin 0), node_bmax = (Fin 1, Fin 1, Fin 0),
               node_left = - 1, node_right = - 1, node_triIdx = 0\<rparr>,
        Some \<lparr>node_bmin = (Fin 4, Fin 0, Fin 0), node_bmax = (Fin 5, Fin 1, Fin 0),
               node_left = - 1, node_right = - 1, node_triIdx = 1\<rparr>] \<and>
   bvhReach 0 0 (- 4) 1 1 4
       [Some \<lparr>node_bmin = (Fin 0, Fin 0, Fin 0), node_bmax = (Fin 5, Fin 1, Fin 0),
               node_left = 1, node_right = 2, node_triIdx = - 1\<rparr>,
        Some \<lparr>node_bmin = (Fin 0, Fin 0, Fin 0), node_bmax = (Fin 1, Fin 1, Fin 0),
               node_left = - 1, node_right = - 1, node_triIdx = 0\<rparr>,
        Some \<lparr>node_bmin = (Fin 4, Fin 0, Fin 0), node_bmax = (Fin 5, Fin 1, Fin 0),
               node_left = - 1, node_right = - 1, node_triIdx = 1\<rparr>]
       (\<lambda>k a. Inr (False, a)) (replicate 64 0) () ((replicate 64 0)[0 := 1, 1 := 2], 2, ()) \<and>
   (2 :: nat) \<le> nat \<lceil>log 2 (real (length ([(0, 1, 2), (3, 4, 5)] :: tri list)))\<rceil> + 1"
proof -
  let ?N = "[Some \<lparr>node_bmin = (Fin 0, Fin 0, Fin 0), node_bmax = (Fin 5, Fin 1, Fin 0),
               node_left = 1, node_right = 2, node_triIdx = - 1\<rparr>,
        Some \<lparr>node_bmin = (Fin 0, Fin 0, Fin 0), node_bmax = (Fin 1, Fin 1, Fin 0),
               node_left = - 1, node_right = - 1, node_triIdx = 0\<rparr>,
        Some \<lparr>node_bmin = (Fin 4, Fin 0, Fin 0), node_bmax = (Fin 5, Fin 1, Fin 0),
               node_left = - 1, node_right = - 1, node_triIdx = 1\<rparr>]"
  have box: "rayAABBIntersect 0 0 (- 4) 1 1 4 (Fin 0, Fin 0, Fin 0) (Fin 5, Fin 1, Fin 0)"
    by (simp add: rayAABBIntersect_def Let_def js_recip_def js_gt_def js_le_def js_ge_def)
  have "bvhNext 0 0 (- 4) 1 1 4 ?N (\<lambda>k a. Inr (False, a)) (bvhInit (replicate 64 0) ())
          ((replicate 64 0)[0 := 1, 1 := 2], 2, ())"
    by (simp add: bvhNext_def bvhInit_eq stack_reset bvhStep_at [where nd = "\<lparr>node_bmin = (Fin 0, Fin 0, Fin 0), node_bmax = (Fin 5, Fin 1, Fin 0),
               node_left = 1, node_right = 2, node_triIdx = - 1\<rparr>"]
          node_at_def box push_def toInt32_def numeral_2_eq_2)
  then have r: "bvhReach 0 0 (- 4) 1 1 4 ?N (\<lambda>k a. Inr (False, a)) (replicate 64 0) ()
          ((replicate 64 0)[0 := 1, 1 := 2], 2, ())"
    unfolding bvhReach_def by (rule r_into_rtranclp)
  have l: "length ([(0, 1, 2), (3, 4, 5)] :: tri list) \<le> 2 ^ 30" by simp
  from bvhTraverse_stack_bound [OF buildBVH_two _ l _ r]
  have "(2 :: nat) \<le> nat \<lceil>log 2 (real (length ([(0, 1, 2), (3, 4, 5)] :: tri list)))\<rceil> + 1"
    by simp
  with buildBVH_two r show ?thesis by blast
qed

subsection \<open>Any hit against closest hit\<close>

lemma closest_onLeaf_eq:
  "tri_ok wv tris (nat k) \<Longrightarrow>
     closest_onLeaf fp ox oy oz dx dy dz wv tris k best =
       Inr (False, closest_upd fp ox oy oz dx dy dz wv tris k best)"
  by (cases best)
     (auto simp: closest_onLeaf_def closest_upd_def leaf_hit_def tri_corners_eq
        split: prod.splits option.splits)

lemma any_onLeaf_eq:
  "tri_ok wv tris (nat k) \<Longrightarrow>
     any_onLeaf fp ox oy oz dx dy dz wv tris maxT k found =
       (case leaf_hit fp ox oy oz dx dy dz wv tris k of
          None \<Rightarrow> Inr (False, found)
        | Some h \<Rightarrow> if js_lt (hit_t h) maxT then Inr (True, True) else Inr (False, found))"
  by (auto simp: any_onLeaf_def leaf_hit_def tri_corners_eq split: prod.splits option.splits)

lemma leaves_ok_simps [simp]:
  "leaves_ok wv tris (Leaf nd) = tri_ok wv tris (nat (node_triIdx nd))"
  "leaves_ok wv tris (Inner nd l r) = (leaves_ok wv tris l \<and> leaves_ok wv tris r)"
  by (auto simp: leaves_ok_def)

lemma walk_closest:
  "leaves_ok wv tris t \<Longrightarrow>
     walk ox oy oz dx dy dz (closest_onLeaf fp ox oy oz dx dy dz wv tris) t best =
       Inr (False, fold (closest_upd fp ox oy oz dx dy dz wv tris) (visited ox oy oz dx dy dz t) best)"
  by (induction t arbitrary: best) (simp_all add: closest_onLeaf_eq)

lemma near_hit_simps [simp]:
  "near_hit fp ox oy oz dx dy dz wv tris maxT [] = False"
  "near_hit fp ox oy oz dx dy dz wv tris maxT (xs @ ys) =
     (near_hit fp ox oy oz dx dy dz wv tris maxT xs \<or> near_hit fp ox oy oz dx dy dz wv tris maxT ys)"
  by (auto simp: near_hit_def)

lemma walk_any:
  "leaves_ok wv tris t \<Longrightarrow>
     walk ox oy oz dx dy dz (any_onLeaf fp ox oy oz dx dy dz wv tris maxT) t found =
       (if near_hit fp ox oy oz dx dy dz wv tris maxT (visited ox oy oz dx dy dz t)
        then Inr (True, True) else Inr (False, found))"
proof (induction t arbitrary: found)
  case (Leaf nd)
  then show ?case
    by (auto simp: any_onLeaf_eq near_hit_def split: option.splits)
next
  case (Inner nd l r)
  then show ?case by simp
qed

lemma js_le_refl: "a \<noteq> NaN \<Longrightarrow> js_le a a"
  by (simp add: js_le_def)

lemma js_le_trans: "js_le a b \<Longrightarrow> js_le b c \<Longrightarrow> js_le a c"
  unfolding js_le_def by (cases a; cases b; cases c) auto

lemma js_le_lt_trans: "js_le a b \<Longrightarrow> js_lt b c \<Longrightarrow> js_lt a c"
  unfolding js_le_def by (cases a; cases b; cases c) auto

lemma js_lt_le_trans: "js_lt a b \<Longrightarrow> js_le b c \<Longrightarrow> js_lt a c"
  unfolding js_le_def by (cases a; cases b; cases c) auto

lemma js_lt_irrefl: "\<not> js_lt a a"
  by (cases a) auto

lemma js_lt_imp_le: "js_lt a b \<Longrightarrow> js_le a b"
  by (simp add: js_le_def)

lemma js_le_not_NaN: "js_le a b \<Longrightarrow> a \<noteq> NaN \<and> b \<noteq> NaN"
  unfolding js_le_def by (cases a; cases b) auto

lemma closest_fold_inv:
  "fst best0 \<noteq> NaN \<Longrightarrow>
     fold_inv fp ox oy oz dx dy dz wv tris ks best0
       (fold (closest_upd fp ox oy oz dx dy dz wv tris) ks best0)"
proof (induction ks arbitrary: best0)
  case Nil
  then show ?case by (simp add: fold_inv_def js_le_refl)
next
  case (Cons k ks)
  let ?U = "closest_upd fp ox oy oz dx dy dz wv tris"
  let ?H = "leaf_hit fp ox oy oz dx dy dz wv tris"
  let ?b1 = "?U k best0"
  let ?b = "fold ?U ks ?b1"
  have step: "(?b1 = best0 \<and>
        (\<forall>h. ?H k = Some h \<longrightarrow> hit_t h \<noteq> NaN \<longrightarrow> js_le (fst best0) (hit_t h))) \<or>
      (\<exists>h. ?H k = Some h \<and> ?b1 = (hit_t h, k, Some h) \<and> js_lt (hit_t h) (fst best0))"
    using Cons.prems by (auto simp: closest_upd_def js_not_lt_le split: option.splits)
  then have le1: "js_le (fst ?b1) (fst best0)" and nn: "fst ?b1 \<noteq> NaN"
    and lek: "\<forall>h. ?H k = Some h \<longrightarrow> hit_t h \<noteq> NaN \<longrightarrow> js_le (fst ?b1) (hit_t h)"
    using Cons.prems by (auto simp: js_le_refl js_lt_imp_le)
  note ih = Cons.IH [OF nn, unfolded fold_inv_def]
  note ih1 = ih [THEN conjunct1]
  note ih2 = ih [THEN conjunct2, THEN conjunct1]
  note ih3 = ih [THEN conjunct2, THEN conjunct2]
  have a: "js_le (fst ?b) (fst best0)" by (rule js_le_trans [OF ih1 le1])
  have b: "\<forall>k' \<in> set (k # ks). \<forall>h. ?H k' = Some h \<longrightarrow> hit_t h \<noteq> NaN \<longrightarrow>
      js_le (fst ?b) (hit_t h)"
  proof (intro ballI allI impI)
    fix k' h assume k': "k' \<in> set (k # ks)" and h: "?H k' = Some h" and n: "hit_t h \<noteq> NaN"
    show "js_le (fst ?b) (hit_t h)"
    proof (cases "k' = k")
      case True
      with lek h n have "js_le (fst ?b1) (hit_t h)" by simp
      with ih1 show ?thesis by (rule js_le_trans)
    next
      case False
      with k' have "k' \<in> set ks" by simp
      with ih2 h n show ?thesis by simp
    qed
  qed
  have c: "?b = best0 \<or>
      (\<exists>k' \<in> set (k # ks). \<exists>h. ?H k' = Some h \<and>
          ?b = (hit_t h, k', Some h) \<and> js_lt (hit_t h) (fst best0))"
    using ih3
  proof
    assume e: "?b = ?b1"
    from step show ?thesis
    proof
      assume "?b1 = best0 \<and>
        (\<forall>h. ?H k = Some h \<longrightarrow> hit_t h \<noteq> NaN \<longrightarrow> js_le (fst best0) (hit_t h))"
      with e show ?thesis by simp
    next
      assume "\<exists>h. ?H k = Some h \<and> ?b1 = (hit_t h, k, Some h) \<and> js_lt (hit_t h) (fst best0)"
      then obtain h where "?H k = Some h" "?b1 = (hit_t h, k, Some h)"
        "js_lt (hit_t h) (fst best0)" by blast
      with e have "\<exists>k' \<in> set (k # ks). \<exists>h. ?H k' = Some h \<and>
          ?b = (hit_t h, k', Some h) \<and> js_lt (hit_t h) (fst best0)"
        by (intro bexI [of _ k] exI [of _ h]) simp_all
      then show ?thesis ..
    qed
  next
    assume "\<exists>k' \<in> set ks. \<exists>h. ?H k' = Some h \<and>
        ?b = (hit_t h, k', Some h) \<and> js_lt (hit_t h) (fst ?b1)"
    then obtain k' h where kh: "k' \<in> set ks" "?H k' = Some h"
      "?b = (hit_t h, k', Some h)" "js_lt (hit_t h) (fst ?b1)" by blast
    from js_lt_le_trans [OF kh(4) le1] kh(1-3)
    have "\<exists>k' \<in> set (k # ks). \<exists>h. ?H k' = Some h \<and>
          ?b = (hit_t h, k', Some h) \<and> js_lt (hit_t h) (fst best0)"
      by (intro bexI [of _ k'] exI [of _ h]) simp_all
    then show ?thesis ..
  qed
  have f: "fold ?U (k # ks) best0 = ?b" by simp
  show ?case unfolding fold_inv_def f by (intro conjI a b c)
qed

lemma visited_subset: "set (visited ox oy oz dx dy dz t) \<subseteq> set (leaves t)"
  by (induction t) auto

lemma closest_vs_any:
  assumes "js_le (Fin maxD) maxT" "\<forall>k \<in> set ks. 0 \<le> k"
    and "fold (closest_upd fp ox oy oz dx dy dz wv tris) ks (maxT, - 1, None) = (bT, bi, bh)"
  shows "near_hit fp ox oy oz dx dy dz wv tris (Fin maxD) ks \<longleftrightarrow> 0 \<le> bi \<and> js_lt bT (Fin maxD)"
proof -
  have "fst (maxT, - 1 :: int, None :: hit option) \<noteq> NaN"
    using js_le_not_NaN [OF assms(1)] by simp
  from closest_fold_inv [OF this, of fp ox oy oz dx dy dz wv tris ks]
  have inv: "fold_inv fp ox oy oz dx dy dz wv tris ks (maxT, - 1, None) (bT, bi, bh)"
    unfolding assms(3) .
  note inv' = inv [unfolded fold_inv_def fst_conv]
  show ?thesis
  proof
    assume "near_hit fp ox oy oz dx dy dz wv tris (Fin maxD) ks"
    then obtain k h where kh: "k \<in> set ks" "leaf_hit fp ox oy oz dx dy dz wv tris k = Some h"
      "js_lt (hit_t h) (Fin maxD)" unfolding near_hit_def by blast
    from kh(3) have "hit_t h \<noteq> NaN" by auto
    with inv' kh have "js_le bT (hit_t h)" by blast
    from js_le_lt_trans [OF this kh(3)] have lt: "js_lt bT (Fin maxD)" .
    have "(bT, bi, bh) \<noteq> (maxT, - 1, None)"
    proof
      assume "(bT, bi, bh) = (maxT, - 1, None)"
      then have "js_lt maxT (Fin maxD)" using lt by simp
      from js_lt_le_trans [OF this assms(1)] show False by (simp add: js_lt_irrefl)
    qed
    with inv' obtain k' where "k' \<in> set ks" "bi = k'" by auto
    with assms(2) lt show "0 \<le> bi \<and> js_lt bT (Fin maxD)" by auto
  next
    assume a: "0 \<le> bi \<and> js_lt bT (Fin maxD)"
    then have "(bT, bi, bh) \<noteq> (maxT, - 1, None)" by auto
    with inv' obtain k h where "k \<in> set ks" "leaf_hit fp ox oy oz dx dy dz wv tris k = Some h"
      "bT = hit_t h" by auto
    with a show "near_hit fp ox oy oz dx dy dz wv tris (Fin maxD) ks"
      unfolding near_hit_def by auto
  qed
qed

lemma built_leaves_ok:
  assumes "built wv tris 0 (length tris) (map (centroid wv tris) [0..<length tris]) [] ti' nodes t"
    and "all_tri_ok wv tris"
  shows "leaves_ok wv tris t" "\<forall>k \<in> set (leaves t). 0 \<le> k"
proof -
  note b = assms(1) [unfolded built_def]
  have lv: "leaves t = map (\<lambda>i. int (ti_idx i)) (slice ti' 0 (length tris))" using b by blast
  have "mset (slice ti' 0 (length tris)) = mset (slice (map (centroid wv tris) [0..<length tris]) 0 (length tris))"
    using b by blast
  then have "set (slice ti' 0 (length tris)) = set (slice (map (centroid wv tris) [0..<length tris]) 0 (length tris))"
    by (rule mset_eq_setD)
  also have "\<dots> = centroid wv tris ` {0..<length tris}" by (simp add: slice_def)
  finally have st: "set (slice ti' 0 (length tris)) = centroid wv tris ` {0..<length tris}" .
  show "leaves_ok wv tris t"
    unfolding leaves_ok_def lv using st assms(2) by (auto simp: all_tri_ok_def)
  show "\<forall>k \<in> set (leaves t). 0 \<le> k" unfolding lv by simp
qed

lemma bvhTraverse_walk:
  assumes b: "built wv tris 0 (length tris) (map (centroid wv tris) [0..<length tris]) [] ti' nodes t"
    and "tris \<noteq> []" "length tris \<le> 2 ^ 30" "length stack = 64"
  shows "\<exists>stack'.
       bvhTraverse ox oy oz dx dy dz nodes onLeaf stack acc =
         (case walk ox oy oz dx dy dz onLeaf t acc of
            Inl e \<Rightarrow> Some (Inl e)
          | Inr (stop, acc') \<Rightarrow> Some (Inr (stack', acc')))"
proof -
  let ?n = "length tris"
  note b' = b [unfolded built_def]
  let ?h = "nat \<lceil>log 2 (real ?n)\<rceil>"
  have n: "nodes = map Some (preorder t)" and wf: "wf_at 0 t"
    and lp: "length (preorder t) = 2 * ?n - 1"
    using b' by simp_all
  have pos: "0 < ?n" using assms(2) by simp
  have "(2::nat) ^ 30 < 2 ^ 31" by simp
  with assms(3) have small: "?n - 0 < 2 ^ 31" by simp
  with b' have hb: "\<And>h. ?n \<le> 2 ^ h \<Longrightarrow> height t \<le> h" by simp
  have ht: "height t \<le> ?h" by (rule hb [OF le_two_pow_ceil_log [OF pos]])
  have h30: "?h \<le> 30" by (rule ceil_log_le [OF pos assms(3)])
  have nd: "need t \<le> 64" using need_le_height [of t] ht h30 by linarith
  have ln: "length nodes < 2 ^ 31" using n lp assms(3) by simp
  have ti: "tree_in nodes 0 t" using tree_in_appended [of "[]" t] wf n by simp
  have c1: "0 + need t \<le> length (stack[0 := 0])" using nd assms(4) by simp
  have c2: "stack[0 := 0] ! 0 = int 0" using assms(4) by simp
  from walk_loop [OF ln ti c1 c2, of ox oy oz dx dy dz onLeaf acc] obtain stack' where
    "after_walk ox oy oz dx dy dz nodes onLeaf t (stack[0 := 0]) 0 acc stack'" ..
  then have "bvhLoop ox oy oz dx dy dz nodes onLeaf (stack[0 := 0], Suc 0, acc) =
     (case walk ox oy oz dx dy dz onLeaf t acc of
        Inl e \<Rightarrow> Some (Inl e)
      | Inr (stop, acc') \<Rightarrow>
          if stop then Some (Inr (stack', acc'))
          else bvhLoop ox oy oz dx dy dz nodes onLeaf (stack', 0, acc'))"
    unfolding after_walk_def by blast
  then have "bvhTraverse ox oy oz dx dy dz nodes onLeaf stack acc =
       (case walk ox oy oz dx dy dz onLeaf t acc of
          Inl e \<Rightarrow> Some (Inl e)
        | Inr (stop, acc') \<Rightarrow> Some (Inr (stack', acc')))"
    using assms(4) by (simp add: bvhTraverse_def bvhInit_eq bvhLoop_zero split: sum.splits)
  then show ?thesis ..
qed

lemma hit_one:
  "rayTriangleIntersect unrounded (Fin 0) (Fin 0) (Fin 0) (Fin 1) (Fin 1) (Fin 4)
      (Fin 0, Fin 0, Fin 8) (Fin 8, Fin 0, Fin 8) (Fin 0, Fin 8, Fin 8) =
     Some \<lparr>hit_t = Fin 2, hit_u = Fin (1 / 4), hit_v = Fin (1 / 4)\<rparr>"
  by (simp add: rayTriangleIntersect_def Let_def ex_sub_def overflow_def RT_EPSILON_def js_gt_def)

lemma box_one: "rayAABBIntersect 0 0 0 1 1 4 (Fin 0, Fin 0, Fin 8) (Fin 8, Fin 8, Fin 8)"
  by (simp add: rayAABBIntersect_def Let_def js_recip_def js_gt_def js_le_def js_ge_def)

lemma anyHit_one:
  "bvhAnyHit unrounded 0 0 0 1 1 4
     [Some \<lparr>node_bmin = (Fin 0, Fin 0, Fin 8), node_bmax = (Fin 8, Fin 8, Fin 8),
               node_left = - 1, node_right = - 1, node_triIdx = 0\<rparr>]
     [(0, 0, 8), (8, 0, 8), (0, 8, 8)] [(0, 1, 2)] (Fin 2) (replicate 64 0) =
   Some (Inr (replicate 64 0, False))"
  by (simp add: bvhAnyHit_def bvhTraverse_def bvhInit_eq stack_reset bvhLoop_Suc bvhLoop_zero
        bvhStep_at node_at_def box_one any_onLeaf_def tri_corners_def fin3_def hit_one)

lemma closestHit_one:
  "bvhClosestHit unrounded 0 0 0 1 1 4
     [Some \<lparr>node_bmin = (Fin 0, Fin 0, Fin 8), node_bmax = (Fin 8, Fin 8, Fin 8),
               node_left = - 1, node_right = - 1, node_triIdx = 0\<rparr>]
     [(0, 0, 8), (8, 0, 8), (0, 8, 8)] [(0, 1, 2)] PosInf (replicate 64 0) =
   Some (Inr (replicate 64 0,
     Some \<lparr>ch_t = Fin 2, ch_triIdx = 0, ch_hit = Some \<lparr>hit_t = Fin 2, hit_u = Fin (1 / 4), hit_v = Fin (1 / 4)\<rparr>\<rparr>))"
  by (simp add: bvhClosestHit_def bvhTraverse_def bvhInit_eq stack_reset bvhLoop_Suc bvhLoop_zero
        bvhStep_at node_at_def box_one closest_onLeaf_def tri_corners_def fin3_def hit_one)

text \<open>
  Claim C2, as the specification states it, with \<open>t \<le> maxDistance\<close>. Both callbacks
  compare with \<^verbatim>\<open><\<close>. The ray from the origin along \<open>(1, 1, 4)\<close> meets the triangle of the
  one-triangle scene at \<open>t = 2\<close>: \<^verbatim>\<open>bvhAnyHit\<close> with \<open>maxDistance = 2\<close> answers
  \<^verbatim>\<open>false\<close>, while \<^verbatim>\<open>bvhClosestHit\<close> without a cap returns the hit with
  \<open>t = 2 \<le> maxDistance\<close>. Every operation of the test is exact on these numbers.
\<close>

theorem bvhAnyHit_at_maxDistance_counterexample:
  "buildBVH [(0, 0, 8), (8, 0, 8), (0, 8, 8)] [(0, 1, 2)] =
     Inr [Some \<lparr>node_bmin = (Fin 0, Fin 0, Fin 8), node_bmax = (Fin 8, Fin 8, Fin 8),
               node_left = - 1, node_right = - 1, node_triIdx = 0\<rparr>] \<and>
   bvhAnyHit unrounded 0 0 0 1 1 4
     [Some \<lparr>node_bmin = (Fin 0, Fin 0, Fin 8), node_bmax = (Fin 8, Fin 8, Fin 8),
               node_left = - 1, node_right = - 1, node_triIdx = 0\<rparr>]
     [(0, 0, 8), (8, 0, 8), (0, 8, 8)] [(0, 1, 2)] (Fin 2) (replicate 64 0) = Some (Inr (replicate 64 0, False)) \<and>
   bvhClosestHit unrounded 0 0 0 1 1 4
     [Some \<lparr>node_bmin = (Fin 0, Fin 0, Fin 8), node_bmax = (Fin 8, Fin 8, Fin 8),
               node_left = - 1, node_right = - 1, node_triIdx = 0\<rparr>]
     [(0, 0, 8), (8, 0, 8), (0, 8, 8)] [(0, 1, 2)] PosInf (replicate 64 0) =
     Some (Inr (replicate 64 0,
       Some \<lparr>ch_t = Fin 2, ch_triIdx = 0,
              ch_hit = Some \<lparr>hit_t = Fin 2, hit_u = Fin (1 / 4), hit_v = Fin (1 / 4)\<rparr>\<rparr>)) \<and>
   js_le (Fin 2) (Fin 2)"
  using buildBVH_one anyHit_one closestHit_one by (simp add: js_le_def)

text \<open>
  Claim C2 with the strict comparison of the code. In every arithmetic, for a hierarchy
  built by \<^verbatim>\<open>buildBVH\<close>, every ray and every finite \<open>maxDistance\<close>, both queries return, and
  \<^verbatim>\<open>bvhAnyHit\<close> with \<open>maxDistance\<close> is true exactly when \<^verbatim>\<open>bvhClosestHit\<close>, called with
  any cap \<open>maxT \<ge> maxDistance\<close> (\<^verbatim>\<open>Infinity\<close> for none), returns a hit with
  \<open>t < maxDistance\<close>.
\<close>

theorem bvhAnyHit_iff_bvhClosestHit:
  assumes "buildBVH worldVerts triangles = Inr nodes" and "length triangles \<le> 2 ^ 30"
    and "length stack = 64" and "length stack' = 64"
    and "js_le (Fin maxDistance) maxT"
  shows "\<exists>s1 s2 found res.
     bvhAnyHit fp ox oy oz dx dy dz nodes worldVerts triangles (Fin maxDistance) stack
       = Some (Inr (s1, found)) \<and>
     bvhClosestHit fp ox oy oz dx dy dz nodes worldVerts triangles maxT stack'
       = Some (Inr (s2, res)) \<and>
     (found \<longleftrightarrow> (\<exists>c. res = Some c \<and> js_lt (ch_t c) (Fin maxDistance)))"
proof (cases "triangles = []")
  case True
  with assms(1) have "nodes = []" by (auto simp: buildBVH_eq split: if_splits)
  then show ?thesis
    by (intro exI [of _ stack] exI [of _ stack'] exI [of _ False] exI [of _ None])
       (simp add: bvhAnyHit_def bvhClosestHit_def)
next
  case False
  let ?A = "any_onLeaf fp ox oy oz dx dy dz worldVerts triangles (Fin maxDistance)"
  let ?C = "closest_onLeaf fp ox oy oz dx dy dz worldVerts triangles"
  let ?U = "closest_upd fp ox oy oz dx dy dz worldVerts triangles"
  from buildBVH_built [OF assms(1) False] obtain ti' t where
    ok: "all_tri_ok worldVerts triangles" and
    b: "built worldVerts triangles 0 (length triangles)
          (map (centroid worldVerts triangles) [0..<length triangles]) [] ti' nodes t"
    by blast
  let ?ks = "visited ox oy oz dx dy dz t"
  have ne: "length nodes \<noteq> 0" using b preorder_hd(2) [of t] by (simp add: built_def)
  note lo = built_leaves_ok(1) [OF b ok]
  have nn: "\<forall>k \<in> set ?ks. 0 \<le> k"
    using built_leaves_ok(2) [OF b ok] visited_subset [of ox oy oz dx dy dz t] by blast
  obtain bT bi bh where f: "fold ?U ?ks (maxT, - 1, None) = (bT, bi, bh)"
    by (metis prod.exhaust)
  from bvhTraverse_walk [OF b False assms(2,3), of ox oy oz dx dy dz ?A False]
  obtain s1 where
    "bvhTraverse ox oy oz dx dy dz nodes ?A stack False =
       (case walk ox oy oz dx dy dz ?A t False of
          Inl e \<Rightarrow> Some (Inl e) | Inr (stop, acc') \<Rightarrow> Some (Inr (s1, acc')))" ..
  then have A: "bvhAnyHit fp ox oy oz dx dy dz nodes worldVerts triangles (Fin maxDistance) stack
      = Some (Inr (s1, near_hit fp ox oy oz dx dy dz worldVerts triangles (Fin maxDistance) ?ks))"
    using ne by (simp add: bvhAnyHit_def walk_any [OF lo])
  from bvhTraverse_walk [OF b False assms(2,4), of ox oy oz dx dy dz ?C "(maxT, - 1, None)"]
  obtain s2 where
    "bvhTraverse ox oy oz dx dy dz nodes ?C stack' (maxT, - 1, None) =
       (case walk ox oy oz dx dy dz ?C t (maxT, - 1, None) of
          Inl e \<Rightarrow> Some (Inl e) | Inr (stop, acc') \<Rightarrow> Some (Inr (s2, acc')))" ..
  then have C: "bvhClosestHit fp ox oy oz dx dy dz nodes worldVerts triangles maxT stack'
      = Some (Inr (s2, if 0 \<le> bi then Some \<lparr>ch_t = bT, ch_triIdx = bi, ch_hit = bh\<rparr> else None))"
    using ne by (simp add: bvhClosestHit_def walk_closest [OF lo] f)
  have "near_hit fp ox oy oz dx dy dz worldVerts triangles (Fin maxDistance) ?ks \<longleftrightarrow>
      (\<exists>c. (if 0 \<le> bi then Some \<lparr>ch_t = bT, ch_triIdx = bi, ch_hit = bh\<rparr> else None) = Some c \<and>
           js_lt (ch_t c) (Fin maxDistance))"
    unfolding closest_vs_any [OF assms(5) nn f] by auto
  with A C show ?thesis by blast
qed

theorem bvhAnyHit_iff_bvhClosestHit_witness:
  "buildBVH [(0, 0, 8), (8, 0, 8), (0, 8, 8)] [(0, 1, 2)] =
     Inr [Some \<lparr>node_bmin = (Fin 0, Fin 0, Fin 8), node_bmax = (Fin 8, Fin 8, Fin 8),
               node_left = - 1, node_right = - 1, node_triIdx = 0\<rparr>] \<and>
   js_le (Fin 3) PosInf \<and>
   (\<exists>s1 s2 found res.
     bvhAnyHit unrounded 0 0 0 1 1 4
       [Some \<lparr>node_bmin = (Fin 0, Fin 0, Fin 8), node_bmax = (Fin 8, Fin 8, Fin 8),
               node_left = - 1, node_right = - 1, node_triIdx = 0\<rparr>]
       [(0, 0, 8), (8, 0, 8), (0, 8, 8)] [(0, 1, 2)] (Fin 3) (replicate 64 0) = Some (Inr (s1, found)) \<and>
     bvhClosestHit unrounded 0 0 0 1 1 4
       [Some \<lparr>node_bmin = (Fin 0, Fin 0, Fin 8), node_bmax = (Fin 8, Fin 8, Fin 8),
               node_left = - 1, node_right = - 1, node_triIdx = 0\<rparr>]
       [(0, 0, 8), (8, 0, 8), (0, 8, 8)] [(0, 1, 2)] PosInf (replicate 64 0) = Some (Inr (s2, res)) \<and>
     (found \<longleftrightarrow> (\<exists>c. res = Some c \<and> js_lt (ch_t c) (Fin 3))))"
proof -
  have l: "length ([(0, 1, 2)] :: tri list) \<le> 2 ^ 30" by simp
  have s: "length (replicate 64 (0 :: int)) = 64" by simp
  have m: "js_le (Fin 3) PosInf" by (simp add: js_le_def)
  from bvhAnyHit_iff_bvhClosestHit [OF buildBVH_one l s s m, of unrounded 0 0 0 1 1 4] buildBVH_one m
  show ?thesis by blast
qed

subsection \<open>The mesh generator\<close>

text \<open>A non-empty ball list gets its normals, one for each vertex.\<close>

lemma generateMetaballMesh_nonempty_normals:
  assumes "balls \<noteq> []" and "generateMetaballMesh balls res threshold = Inr m"
  shows "\<exists>ns. mesh_normals m = Some ns \<and> length ns = length (mesh_vertices m)"
  using assms
  by (auto simp: generateMetaballMesh_def Let_def computeMetaballNormals_def
        split: sum.splits option.splits prod.splits num.splits)

text \<open>One ball of radius 1 on a grid of a single cell: no corner of the cell is inside
  the surface, and the mesh is empty, with an empty array of normals.\<close>

lemma upt_8: "[0..<8] = [0, 1, 2, 3, 4, 5, 6, 7]"
  by (simp add: upt_rec)

lemma fround_sample: "fround (10000 / 67501) = Fin (9941907 / 67108864)"
proof -
  have e: "\<lfloor>log 2 \<bar>10000 / 67501 :: real\<bar>\<rfloor> = - 3"
    by (subst floor_log_eq_powr_iff) (simp_all add: powr_minus)
  have p: "(2 :: real) powr (- 26) = 1 / 2 ^ 26"
    by (simp add: powr_minus powr_numeral inverse_eq_divide)
  have r: "round_even (671088640000 / 67501) = 9941907"
    by (simp add: round_even_def Let_def)
  show ?thesis
    unfolding fround_def Let_def e by (simp add: p r)
qed

lemma field_one_ball:
  "evaluateField [\<lparr>ball_x = 0, ball_y = 0, ball_z = 0, ball_radius = 1\<rparr>]
      (- (3 / 2), - (3 / 2), - (3 / 2)) 3 (Suc 0) = replicate 8 (Fin (9941907 / 67108864))"
  by (simp add: evaluateField_def Let_def upt_rec numeral_eq_Suc fround_sample)

lemma cell_one_ball:
  "processCell 0 0 0 (replicate 8 (Fin (9941907 / 67108864))) (Suc (Suc 0))
      (- (3 / 2), - (3 / 2), - (3 / 2)) 3 1
      ([], [], Map.empty) = Inr ([], [], Map.empty)"
  by (simp add: processCell_def upt_8 corner_step_def CORNER_OFFSETS_def EDGE_TABLE_def)

lemma generateMetaballMesh_one_ball:
  "generateMetaballMesh [\<lparr>ball_x = 0, ball_y = 0, ball_z = 0, ball_radius = 1\<rparr>] 1 1 =
     Inr \<lparr>mesh_vertices = [], mesh_triangles = [], mesh_normals = Some []\<rparr>"
  by (simp add: generateMetaballMesh_def ball_bounds_def Let_def field_one_ball marchingCubes_def
        cell_one_ball smoothMesh_def computeMetaballNormals_def numeral_2_eq_2)

text \<open>
  Claim C5. For an empty ball list, every grid resolution and every threshold,
  \<^verbatim>\<open>generateMetaballMesh\<close> returns without error a mesh of exactly one vertex, the
  origin, and no triangle. The claim also promises a normals array, as the doc comment
  of the function does (\<^verbatim>\<open>Returns { vertices, triangles, normals }\<close>): the object
  returned has no \<^verbatim>\<open>normals\<close> property, so this part of the claim fails on the code.
\<close>

theorem generateMetaballMesh_empty:
  "generateMetaballMesh [] res threshold =
     Inr \<lparr>mesh_vertices = [(0, 0, 0)], mesh_triangles = [], mesh_normals = None\<rparr>"
  by (simp add: generateMetaballMesh_def)

theorem generateMetaballMesh_empty_witness:
  "generateMetaballMesh [] 16 1 =
     Inr \<lparr>mesh_vertices = [(0, 0, 0)], mesh_triangles = [], mesh_normals = None\<rparr>"
  using generateMetaballMesh_empty [of 16 1] .

subsection \<open>Determinism of the shading of a sample\<close>










subsection \<open>Computations that do not read the contents of the stack\<close>


























subsection \<open>The shading of a sample returns on the empty scene\<close>


















end
